theory Spec2Isabelle
  imports Complex_Main
begin

section \<open>Python primitives used by the three programs\<close>

text \<open>
  Strings are ASCII character lists. \<open>str.strip()\<close> removes leading and trailing
  whitespace; on ASCII text the characters for which \<open>str.isspace\<close> holds are the codes
  9 to 13, 28 to 31 and 32.
\<close>

definition isspace :: "char \<Rightarrow> bool" where
  "isspace c = (of_char c \<in> set [9, 10, 11, 12, 13, 28, 29, 30, 31, 32 :: nat])"

definition strip :: "string \<Rightarrow> string" where
  "strip s = rev (dropWhile isspace (rev (dropWhile isspace s)))"

text \<open>\<open>sub in s\<close> on strings: \<open>sub\<close> occurs as a contiguous substring of \<open>s\<close>.\<close>

fun contains :: "string \<Rightarrow> string \<Rightarrow> bool" where
  "contains sub [] = (sub = [])"
| "contains sub (c # cs) = (take (length sub) (c # cs) = sub \<or> contains sub cs)"

text \<open>The constants of Python's \<open>string\<close> module.\<close>

definition ascii_lowercase :: string where
  "ascii_lowercase = ''abcdefghijklmnopqrstuvwxyz''"

definition ascii_uppercase :: string where
  "ascii_uppercase = ''ABCDEFGHIJKLMNOPQRSTUVWXYZ''"

definition ascii_letters :: string where
  "ascii_letters = ascii_lowercase @ ascii_uppercase"

definition digits :: string where
  "digits = ''0123456789''"

definition symbols :: string where
  "symbols = ''!@#$%^&*()_+-=''"

section \<open>Randomness\<close>

text \<open>
  The random sources (\<open>secrets\<close> and \<open>random\<close>) are an entropy stream: the i-th raw
  draw is a natural number. \<open>secrets.choice(seq)\<close> is \<open>seq[randbelow(len(seq))]\<close>, and
  \<open>randbelow n\<close> yields any index below \<open>n\<close>: raw draw modulo \<open>n\<close>. Every call site
  passes a non-empty constant sequence.
\<close>

definition choice :: "'a list \<Rightarrow> nat \<Rightarrow> 'a" where
  "choice seq e = seq ! (e mod length seq)"

section \<open>Credential generation (init_mysql.py, generate_password)\<close>

text \<open>
  \<open>rnd i\<close> is the i-th draw made by the call: first \<open>len\<close> draws (the source's \<open>length\<close>) for the random
  string, then one draw per forced category, in source order.
\<close>

definition generate_password :: "nat \<Rightarrow> (nat \<Rightarrow> nat) \<Rightarrow> string" where
  "generate_password len rnd =
     (let alphabet = ascii_letters @ digits @ symbols;
          password = map (\<lambda>i. choice alphabet (rnd i)) [0..<len]
      in [choice ascii_uppercase (rnd len),
          choice ascii_lowercase (rnd (len + 1)),
          choice digits (rnd (len + 2)),
          choice symbols (rnd (len + 3))] @ drop 4 password)"

text \<open>
  \<open>random.random()\<close> is a 53-bit integer divided by \<open>2^53\<close>, so it lies in
  \<open>[0, 1)\<close>; \<open>random.uniform(a, b)\<close> is \<open>a + (b - a) * random()\<close>. Floating-point
  values are modelled by the rationals they denote. \<open>round(x, 2)\<close> rounds to the nearest
  multiple of 1/100, ties to even.
\<close>

definition random_random :: "nat \<Rightarrow> rat" where
  "random_random e = of_nat (e mod 2 ^ 53) / 2 ^ 53"

definition uniform :: "rat \<Rightarrow> rat \<Rightarrow> nat \<Rightarrow> rat" where
  "uniform a b e = a + (b - a) * random_random e"

definition round_half_even :: "rat \<Rightarrow> int" where
  "round_half_even x =
     (let n = \<lfloor>x\<rfloor>; f = x - of_int n
      in if f < 1 / 2 then n else if 1 / 2 < f then n + 1 else if even n then n else n + 1)"

definition py_round2 :: "rat \<Rightarrow> rat" where
  "py_round2 x = of_int (round_half_even (x * 100)) / 100"

section \<open>Exceptions and programs with effects\<close>

datatype exc =
    KeyError string
  | RuntimeError string
  | TimeoutError string
  | FileNotFoundError string
  | UnboundLocalError string
  | MySQLError string
  | NotFound string
  | Conflict string
  | OtherError string
  | SystemExit int

text \<open>
  \<open>str(e)\<close> for the exceptions \<open>except Exception\<close> catches: the message carried
  (a key is shown quoted). \<open>SystemExit\<close> is not one of them.
\<close>

fun exc_str :: "exc \<Rightarrow> string" where
  "exc_str (KeyError k) = [CHR 0x27] @ k @ [CHR 0x27]"
| "exc_str (RuntimeError m) = m"
| "exc_str (TimeoutError m) = m"
| "exc_str (FileNotFoundError m) = m"
| "exc_str (UnboundLocalError m) = m"
| "exc_str (MySQLError m) = m"
| "exc_str (NotFound m) = m"
| "exc_str (Conflict m) = m"
| "exc_str (OtherError m) = m"

text \<open>
  A program maps the state of the world to a result (\<open>Inl\<close>: the exception raised) and the
  world it leaves behind; the world is kept when an exception is raised, since the calls
  made before it have happened.
\<close>

type_synonym ('s, 'a) prog = "'s \<Rightarrow> (exc + 'a) \<times> 's"

definition ret :: "'a \<Rightarrow> ('s, 'a) prog" where
  "ret x = (\<lambda>w. (Inr x, w))"

definition raise :: "exc \<Rightarrow> ('s, 'a) prog" where
  "raise e = (\<lambda>w. (Inl e, w))"

definition lift :: "exc + 'a \<Rightarrow> ('s, 'a) prog" where
  "lift r = (\<lambda>w. (r, w))"

definition and_then :: "('s, 'a) prog \<Rightarrow> ('a \<Rightarrow> ('s, 'b) prog) \<Rightarrow> ('s, 'b) prog" where
  "and_then m f = (\<lambda>w. case m w of (Inl e, w') \<Rightarrow> (Inl e, w') | (Inr x, w') \<Rightarrow> f x w')"

text \<open>\<open>try: m finally: cleanup\<close>, for a cleanup that does not raise.\<close>

definition try_finally :: "('s, 'a) prog \<Rightarrow> ('s \<Rightarrow> 's) \<Rightarrow> ('s, 'a) prog" where
  "try_finally m cleanup = (\<lambda>w. case m w of (r, w') \<Rightarrow> (r, cleanup w'))"

text \<open>
  The entry points run \<open>main()\<close> under \<open>except Exception: sys.exit(1)\<close>; a \<open>main\<close>
  that returns ends the process with status 0, and \<open>sys.exit(n)\<close> inside \<open>main\<close> ends it
  with status \<open>n\<close>.
\<close>

definition exit_status :: "exc + 'a \<Rightarrow> int" where
  "exit_status r = (case r of Inl (SystemExit n) \<Rightarrow> n | Inl e \<Rightarrow> 1 | Inr x \<Rightarrow> 0)"

section \<open>Settings\<close>

text \<open>
  The mapping \<open>yaml.safe_load\<close> returns for conf.yml: sections of keys.
  \<open>config[section][key]\<close> raises \<open>KeyError\<close> when either is absent.
\<close>

type_synonym config = "string \<Rightarrow> (string \<Rightarrow> string option) option"

definition cfg_get :: "config \<Rightarrow> string \<Rightarrow> string \<Rightarrow> exc + string" where
  "cfg_get config section key =
     (case config section of
        None \<Rightarrow> Inl (KeyError section)
      | Some m \<Rightarrow> (case m key of None \<Rightarrow> Inl (KeyError key) | Some v \<Rightarrow> Inr v))"

section \<open>The world of the two MySQL programs\<close>

record item =
  item_id :: int
  description :: string
  price :: rat
  created_at :: int
  updated_at :: int

text \<open>The SQL statements the programs send, by kind and parameters.\<close>

datatype stmt =
    CreateDatabaseIfNotExists string
  | Use string
  | CreateTableIfNotExists string
  | SelectCount string
  | TruncateTable string
  | InsertItem string int string rat
  | SelectAll string
  | SelectPriceDescription string int
  | UpdatePrice string int rat

datatype result =
    NoResult
  | CountRow nat
  | ItemRows "item list"
  | PriceDescriptionRows "(rat \<times> string) list"

text \<open>What a run does to the outside, in order.\<close>

datatype event =
    Gcloud "string list"
  | Sleep rat
  | WriteFile string string
  | Chmod string nat
  | Connect string string string "string option"
  | Execute stmt
  | Commit
  | CursorClose
  | ConnectionClose
  | ClientCreate string
  | GetDataset string
  | CreateDataset string string
  | GetTable string
  | Query string
  | JobResult

record proc =
  returncode :: int
  stdout :: string
  stderr :: string
  duration :: nat

text \<open>
  The state a program runs in. The outside is given by oracles: what the cloud CLI
  answers to an argument list at a time (and how many seconds the call takes), whether
  the n-th connection attempt fails, whether the n-th statement fails on the connection,
  whether a termination signal arrives during the n-th step of the mutation driver
  (step 0 is the start-up, step n the n-th iteration of its loop), and what the
  warehouse answers to an API call after a given history (\<open>None\<close>: the call succeeds).
  The database server holds databases of tables of rows.
\<close>

record world =
  clock :: rat
  trace :: "event list"
  entropy :: "nat \<Rightarrow> nat"
  drawn :: nat
  gcloud_env :: "string list \<Rightarrow> rat \<Rightarrow> proc"
  files :: "string \<Rightarrow> string option"
  home :: string
  environ :: "string \<Rightarrow> string option"
  connect_env :: "nat \<Rightarrow> string option"
  connects :: nat
  fault_env :: "nat \<Rightarrow> string option"
  statements :: nat
  server :: "string \<Rightarrow> (string \<Rightarrow> item list option) option"
  current_db :: "string option"
  running :: bool
  signal_env :: "nat \<Rightarrow> bool"
  step :: nat
  bq_env :: "event list \<Rightarrow> event \<Rightarrow> exc option"

definition emit :: "event \<Rightarrow> world \<Rightarrow> world" where
  "emit ev w = w\<lparr>trace := trace w @ [ev]\<rparr>"

definition sleep :: "rat \<Rightarrow> world \<Rightarrow> world" where
  "sleep seconds w = emit (Sleep seconds) (w\<lparr>clock := clock w + seconds\<rparr>)"

definition draw :: "world \<Rightarrow> nat \<times> world" where
  "draw w = (entropy w (drawn w), w\<lparr>drawn := drawn w + 1\<rparr>)"

definition random_uniform :: "rat \<Rightarrow> rat \<Rightarrow> world \<Rightarrow> rat \<times> world" where
  "random_uniform a b w = (case draw w of (e, w') \<Rightarrow> (uniform a b e, w'))"

text \<open>\<open>random.randint(a, b)\<close> is \<open>a + randbelow(b - a + 1)\<close>.\<close>

definition random_randint :: "int \<Rightarrow> int \<Rightarrow> world \<Rightarrow> int \<times> world" where
  "random_randint a b w = (case draw w of (e, w') \<Rightarrow> (a + int (e mod nat (b - a + 1)), w'))"

text \<open>
  \<open>os.path.expanduser\<close> for the forms \<open>~\<close> and \<open>~/...\<close>; other paths are returned
  as they are.
\<close>

definition expanduser :: "string \<Rightarrow> world \<Rightarrow> string" where
  "expanduser path w =
     (if path = ''~'' \<or> take 2 path = ''~/'' then home w @ drop 1 path else path)"

text \<open>
  The credential bootstrap at the start of each \<open>main\<close>: the service-account file, when
  present, becomes the default credential source.
\<close>

definition activate_credentials :: "string \<Rightarrow> world \<Rightarrow> world" where
  "activate_credentials sa_path w =
     (if files w sa_path \<noteq> None
      then w\<lparr>environ := (environ w)(''GOOGLE_APPLICATION_CREDENTIALS'' \<mapsto> sa_path)\<rparr>
      else w)"


section \<open>The cloud CLI (init_mysql.py)\<close>

definition run_gcloud :: "string list \<Rightarrow> bool \<Rightarrow> (world, proc) prog" where
  "run_gcloud args check w =
     (let result = gcloud_env w args (clock w);
          w' = emit (Gcloud args) (w\<lparr>clock := clock w + of_nat (duration result)\<rparr>)
      in if check \<and> returncode result \<noteq> 0
         then (Inl (RuntimeError (''gcloud command failed: '' @ stderr result)), w')
         else (Inr result, w'))"

definition describe_args :: "string \<Rightarrow> string \<Rightarrow> string \<Rightarrow> string list" where
  "describe_args project_id instance_name format =
     [''sql'', ''instances'', ''describe'', instance_name,
      ''--project'', project_id, ''--format'', format]"

definition check_instance_exists :: "string \<Rightarrow> string \<Rightarrow> (world, bool) prog" where
  "check_instance_exists project_id instance_name =
     and_then (run_gcloud (describe_args project_id instance_name ''value(name)'') False)
       (\<lambda>result. ret (returncode result = 0))"

text \<open>
  The loop of \<open>wait_for_instance_ready\<close>: \<open>start_time\<close> is the clock read on entry.
\<close>

function wait_loop :: "string \<Rightarrow> string \<Rightarrow> rat \<Rightarrow> rat \<Rightarrow> (world, bool) prog" where
  "wait_loop project_id instance_name start_time max_wait w =
     (if clock w - start_time < max_wait then
        (case run_gcloud (describe_args project_id instance_name ''value(state)'') False w of
           (Inl e, w1) \<Rightarrow> (Inl e, w1)
         | (Inr result, w1) \<Rightarrow>
             (let state = strip (stdout result)
              in if state = ''RUNNABLE'' then (Inr True, w1)
                 else wait_loop project_id instance_name start_time max_wait (sleep 10 w1)))
      else (Inl (TimeoutError ''Instance did not become ready in time''), w))"
  by pat_completeness auto
termination
proof (relation "measure (\<lambda>(p, i, s, m, w). nat \<lceil>s + m - clock w\<rceil>)", goal_cases)
  case 1
  show ?case by simp
next
  case (2 project_id instance_name start_time max_wait w x1 w1 result state)
  then have c: "clock w \<le> clock w1"
    by (auto simp: run_gcloud_def emit_def Let_def split: if_splits)
  from 2 have pos: "0 < start_time + max_wait - clock w"
    by simp
  have "\<lceil>start_time + max_wait - clock (sleep 10 w1)\<rceil> \<le> \<lceil>start_time + max_wait - clock w - 10\<rceil>"
    using c by (intro ceiling_mono) (simp add: sleep_def emit_def)
  also have "\<dots> = \<lceil>start_time + max_wait - clock w\<rceil> - 10"
    using ceiling_diff_numeral [of "start_time + max_wait - clock w" "Num.Bit0 (Num.Bit1 (Num.Bit0 Num.One))"]
    by simp
  finally have "\<lceil>start_time + max_wait - clock (sleep 10 w1)\<rceil> < \<lceil>start_time + max_wait - clock w\<rceil>"
    by simp
  moreover have "0 < \<lceil>start_time + max_wait - clock w\<rceil>"
    using pos by simp
  ultimately show ?case
    by simp
qed

definition wait_for_instance_ready :: "string \<Rightarrow> string \<Rightarrow> rat \<Rightarrow> (world, bool) prog" where
  "wait_for_instance_ready project_id instance_name max_wait w =
     wait_loop project_id instance_name (clock w) max_wait w"

definition get_instance_ip :: "string \<Rightarrow> string \<Rightarrow> (world, string) prog" where
  "get_instance_ip project_id instance_name =
     and_then
       (run_gcloud (describe_args project_id instance_name ''value(ipAddresses[0].ipAddress)'') True)
       (\<lambda>result. ret (strip (stdout result)))"

definition create_mysql_instance :: "config \<Rightarrow> string \<Rightarrow> (world, string) prog" where
  "create_mysql_instance config password =
     and_then (lift (cfg_get config ''gcp'' ''project_id'')) (\<lambda>project_id.
     and_then (lift (cfg_get config ''gcp'' ''region'')) (\<lambda>region.
     and_then (lift (cfg_get config ''mysql'' ''instance_name'')) (\<lambda>instance_name.
     and_then (lift (cfg_get config ''mysql'' ''tier'')) (\<lambda>tier.
     and_then (lift (cfg_get config ''mysql'' ''version'')) (\<lambda>version.
     and_then (check_instance_exists project_id instance_name) (\<lambda>exists.
     and_then
       (if exists then
          and_then
            (run_gcloud [''sql'', ''users'', ''set-password'', ''root'', ''--host'', ''%'',
               ''--instance'', instance_name, ''--project'', project_id,
               ''--password'', password] True)
            (\<lambda>_. ret ())
        else
          and_then
            (run_gcloud [''sql'', ''instances'', ''create'', instance_name,
               ''--project'', project_id, ''--region'', region,
               ''--database-version'', version, ''--tier'', tier,
               ''--root-password'', password, ''--edition'', ''enterprise'',
               ''--availability-type'', ''zonal'', ''--storage-type'', ''HDD'',
               ''--storage-size'', ''10'', ''--no-assign-ip'',
               ''--network'', ''projects/'' @ project_id @ ''/global/networks/default''] True)
            (\<lambda>_. and_then (wait_for_instance_ready project_id instance_name 600) (\<lambda>_. ret ())))
       (\<lambda>_.
     and_then (run_gcloud [''sql'', ''instances'', ''patch'', instance_name,
                 ''--project'', project_id, ''--assign-ip'', ''--quiet''] True) (\<lambda>_.
     and_then (\<lambda>w. (Inr (), sleep 5 w)) (\<lambda>_.
     and_then (run_gcloud [''sql'', ''instances'', ''patch'', instance_name,
                 ''--project'', project_id, ''--authorized-networks'', ''0.0.0.0/0'',
                 ''--quiet''] True) (\<lambda>_.
     and_then (wait_for_instance_ready project_id instance_name 600) (\<lambda>_.
     get_instance_ip project_id instance_name)))))))))))"


section \<open>The database server\<close>

text \<open>
  The engine as the programs use it: one session, whose statements act on the selected
  database. A \<open>DATETIME\<close> holds whole seconds, a \<open>DECIMAL(10,2)\<close> holds hundredths (a
  literal is rounded half away from zero) below \<open>10^8\<close>, and \<open>id\<close> is the primary key.
  Transactions are not modelled beyond the \<open>Commit\<close> event: the session sees its own
  writes.
\<close>

definition db_now :: "world \<Rightarrow> int" where
  "db_now w = \<lfloor>clock w\<rfloor>"

definition decimal_10_2 :: "rat \<Rightarrow> rat" where
  "decimal_10_2 x =
     (if 0 \<le> x then of_int \<lfloor>x * 100 + 1 / 2\<rfloor> / 100
      else - (of_int \<lfloor>- x * 100 + 1 / 2\<rfloor> / 100))"

definition table_rows :: "world \<Rightarrow> string \<Rightarrow> item list option" where
  "table_rows w table_name =
     (case current_db w of
        None \<Rightarrow> None
      | Some db \<Rightarrow> (case server w db of None \<Rightarrow> None | Some tables \<Rightarrow> tables table_name))"

definition set_rows :: "string \<Rightarrow> item list \<Rightarrow> world \<Rightarrow> world" where
  "set_rows table_name rows w =
     (case current_db w of
        None \<Rightarrow> w
      | Some db \<Rightarrow>
          (case server w db of
             None \<Rightarrow> w
           | Some tables \<Rightarrow> w\<lparr>server := (server w)(db \<mapsto> tables(table_name \<mapsto> rows))\<rparr>))"

definition no_such_table :: "string \<Rightarrow> exc" where
  "no_such_table table_name = MySQLError (''Table '' @ table_name @ '' does not exist'')"

fun sql_effect :: "stmt \<Rightarrow> (world, result) prog" where
  "sql_effect (CreateDatabaseIfNotExists db) w =
     (Inr NoResult,
      if server w db = None then w\<lparr>server := (server w)(db \<mapsto> Map.empty)\<rparr> else w)"
| "sql_effect (Use db) w =
     (if server w db = None then (Inl (MySQLError (''Unknown database '' @ db)), w)
      else (Inr NoResult, w\<lparr>current_db := Some db\<rparr>))"
| "sql_effect (CreateTableIfNotExists t) w =
     (case current_db w of
        None \<Rightarrow> (Inl (MySQLError ''No database selected''), w)
      | Some db \<Rightarrow>
          (case table_rows w t of
             None \<Rightarrow> (Inr NoResult, set_rows t [] w)
           | Some rows \<Rightarrow> (Inr NoResult, w)))"
| "sql_effect (SelectCount t) w =
     (case table_rows w t of
        None \<Rightarrow> (Inl (no_such_table t), w)
      | Some rows \<Rightarrow> (Inr (CountRow (length rows)), w))"
| "sql_effect (TruncateTable t) w =
     (case table_rows w t of
        None \<Rightarrow> (Inl (no_such_table t), w)
      | Some rows \<Rightarrow> (Inr NoResult, set_rows t [] w))"
| "sql_effect (InsertItem t i d p) w =
     (case table_rows w t of
        None \<Rightarrow> (Inl (no_such_table t), w)
      | Some rows \<Rightarrow>
          if i \<in> set (map item_id rows) then (Inl (MySQLError ''Duplicate entry''), w)
          else if 10 ^ 8 \<le> \<bar>decimal_10_2 p\<bar> then (Inl (MySQLError ''Out of range value''), w)
          else (Inr NoResult,
                set_rows t
                  (rows @ [\<lparr>item_id = i, description = d, price = decimal_10_2 p,
                            created_at = db_now w, updated_at = db_now w\<rparr>]) w))"
| "sql_effect (SelectAll t) w =
     (case table_rows w t of
        None \<Rightarrow> (Inl (no_such_table t), w)
      | Some rows \<Rightarrow> (Inr (ItemRows rows), w))"
| "sql_effect (SelectPriceDescription t i) w =
     (case table_rows w t of
        None \<Rightarrow> (Inl (no_such_table t), w)
      | Some rows \<Rightarrow>
          (Inr (PriceDescriptionRows
                  (map (\<lambda>r. (price r, description r)) (filter (\<lambda>r. item_id r = i) rows))), w))"
| "sql_effect (UpdatePrice t i p) w =
     (case table_rows w t of
        None \<Rightarrow> (Inl (no_such_table t), w)
      | Some rows \<Rightarrow>
          if 10 ^ 8 \<le> \<bar>decimal_10_2 p\<bar> then (Inl (MySQLError ''Out of range value''), w)
          else (Inr NoResult,
                set_rows t
                  (map (\<lambda>r. if item_id r = i
                             then r\<lparr>price := decimal_10_2 p, updated_at := db_now w\<rparr> else r)
                     rows) w))"

text \<open>
  \<open>cursor.execute\<close> and \<open>connection.commit\<close>: the n-th statement on the connection
  raises when the environment makes it fail (a lost connection, say), and has its effect
  otherwise.
\<close>

definition execute :: "stmt \<Rightarrow> (world, result) prog" where
  "execute s w =
     (let w1 = emit (Execute s) (w\<lparr>statements := statements w + 1\<rparr>)
      in case fault_env w (statements w) of
           Some msg \<Rightarrow> (Inl (MySQLError msg), w1)
         | None \<Rightarrow> sql_effect s w1)"

definition commit :: "(world, unit) prog" where
  "commit w =
     (let w1 = emit Commit (w\<lparr>statements := statements w + 1\<rparr>)
      in case fault_env w (statements w) of
           Some msg \<Rightarrow> (Inl (MySQLError msg), w1)
         | None \<Rightarrow> (Inr (), w1))"

text \<open>\<open>cursor.fetchone()[0]\<close> after a count, and \<open>cursor.fetchone()\<close> after a row query.\<close>

definition fetchone_count :: "result \<Rightarrow> nat" where
  "fetchone_count r = (case r of CountRow n \<Rightarrow> n | _ \<Rightarrow> 0)"

definition fetchone :: "result \<Rightarrow> (rat \<times> string) option" where
  "fetchone r = (case r of PriceDescriptionRows (x # xs) \<Rightarrow> Some x | _ \<Rightarrow> None)"

text \<open>\<open>mysql.connector.connect\<close>, with or without a database to select.\<close>

definition mysql_connect ::
  "string \<Rightarrow> string \<Rightarrow> string \<Rightarrow> string option \<Rightarrow> (world, unit) prog" where
  "mysql_connect host user password database w =
     (let w1 = emit (Connect host user password database) (w\<lparr>connects := connects w + 1\<rparr>)
      in case connect_env w (connects w) of
           Some msg \<Rightarrow> (Inl (MySQLError msg), w1)
         | None \<Rightarrow>
             (case database of
                None \<Rightarrow> (Inr (), w1\<lparr>current_db := None\<rparr>)
              | Some db \<Rightarrow>
                  if server w1 db = None
                  then (Inl (MySQLError (''Unknown database '' @ db)), w1)
                  else (Inr (), w1\<lparr>current_db := Some db\<rparr>)))"

definition close_all :: "world \<Rightarrow> world" where
  "close_all w = emit ConnectionClose (emit CursorClose w)"

section \<open>Seeding (init_mysql.py, create_database_and_table)\<close>

definition max_retries :: nat where
  "max_retries = 10"

definition retry_delay :: rat where
  "retry_delay = 10"

text \<open>
  The connection loop, \<open>for attempt in range(max_retries)\<close>. Leaving the loop without a
  connection would leave \<open>connection\<close> unbound.
\<close>

function connect_retry :: "string \<Rightarrow> string \<Rightarrow> string \<Rightarrow> nat \<Rightarrow> (world, unit) prog" where
  "connect_retry host user password attempt w =
     (if attempt < max_retries then
        (case mysql_connect host user password None w of
           (Inr c, w1) \<Rightarrow> (Inr c, w1)
         | (Inl (MySQLError m), w1) \<Rightarrow>
             if attempt < max_retries - 1
             then connect_retry host user password (attempt + 1) (sleep retry_delay w1)
             else (Inl (MySQLError m), w1)
         | (Inl e, w1) \<Rightarrow> (Inl e, w1))
      else (Inl (UnboundLocalError ''connection''), w))"
  by pat_completeness auto
termination
  by (relation "measure (\<lambda>(h, u, p, attempt, w). max_retries - attempt)") auto

definition descriptions :: "string list" where
  "descriptions =
     [''Wireless Mouse'', ''Mechanical Keyboard'', ''USB-C Hub'',
      ''Laptop Stand'', ''Webcam HD'', ''Noise-Canceling Headphones'',
      ''Portable SSD'', ''Monitor Light Bar'', ''Ergonomic Chair'',
      ''Standing Desk Mat'']"

text \<open>The loop \<open>for i in range(1, 11)\<close>, over the ids still to insert.\<close>

fun insert_samples :: "string \<Rightarrow> int list \<Rightarrow> (world, unit) prog" where
  "insert_samples table_name [] w = (Inr (), w)"
| "insert_samples table_name (i # ids) w =
     (case random_uniform 10 500 w of
        (u, w1) \<Rightarrow>
          (let price = py_round2 u; desc = descriptions ! nat (i - 1)
           in case execute (InsertItem table_name i desc price) w1 of
                (Inl e, w2) \<Rightarrow> (Inl e, w2)
              | (Inr r, w2) \<Rightarrow> insert_samples table_name ids w2))"

text \<open>Lines 236 to 266: count, truncate when not empty, insert, commit.\<close>

definition seed_table :: "string \<Rightarrow> (world, unit) prog" where
  "seed_table table_name =
     and_then (execute (SelectCount table_name)) (\<lambda>r.
     and_then (if 0 < fetchone_count r then execute (TruncateTable table_name)
               else ret NoResult) (\<lambda>_.
     and_then (insert_samples table_name [1..10]) (\<lambda>_.
     commit)))"

definition create_database_and_table ::
  "string \<Rightarrow> string \<Rightarrow> string \<Rightarrow> config \<Rightarrow> (world, unit) prog" where
  "create_database_and_table host user password config =
     and_then (lift (cfg_get config ''mysql'' ''db_name'')) (\<lambda>db_name.
     and_then (lift (cfg_get config ''mysql'' ''table_name'')) (\<lambda>table_name.
     and_then (connect_retry host user password 0) (\<lambda>_.
     try_finally
       (and_then (execute (CreateDatabaseIfNotExists db_name)) (\<lambda>_.
        and_then (execute (Use db_name)) (\<lambda>_.
        and_then (execute (CreateTableIfNotExists table_name)) (\<lambda>_.
        and_then (seed_table table_name) (\<lambda>_.
        and_then (execute (SelectAll table_name)) (\<lambda>_. ret ()))))))
       close_all)))"

section \<open>The database provisioner (init_mysql.py, main)\<close>

definition password_file :: string where
  "password_file = ''mysql.password''"

text \<open>The password is drawn from the world's entropy: \<open>len + 4\<close> draws.\<close>

definition generate_password_io :: "nat \<Rightarrow> (world, string) prog" where
  "generate_password_io len w =
     (Inr (generate_password len (\<lambda>i. entropy w (drawn w + i))),
      w\<lparr>drawn := drawn w + len + 4\<rparr>)"

definition write_file :: "string \<Rightarrow> string \<Rightarrow> world \<Rightarrow> world" where
  "write_file path content w = emit (WriteFile path content) (w\<lparr>files := (files w)(path \<mapsto> content)\<rparr>)"

text \<open>The password file is written and its mode set to \<open>0o600\<close> (384).\<close>

definition save_password :: "string \<Rightarrow> world \<Rightarrow> world" where
  "save_password password w = emit (Chmod password_file 384) (write_file password_file password w)"

definition init_mysql_main :: "config \<Rightarrow> (world, unit) prog" where
  "init_mysql_main config =
     and_then (lift (cfg_get config ''gcp'' ''service_account_path'')) (\<lambda>sa.
     and_then (\<lambda>w. (Inr (), activate_credentials (expanduser sa w) w)) (\<lambda>_.
     and_then (lift (cfg_get config ''gcp'' ''project_id'')) (\<lambda>project_id.
     and_then (run_gcloud [''config'', ''set'', ''project'', project_id] True) (\<lambda>_.
     and_then (generate_password_io 24) (\<lambda>password.
     and_then (\<lambda>w. (Inr (), save_password password w)) (\<lambda>_.
     and_then (create_mysql_instance config password) (\<lambda>host.
     and_then (lift (cfg_get config ''mysql'' ''root_user'')) (\<lambda>user.
     and_then (create_database_and_table host user password config) (\<lambda>_.
     and_then (lift (cfg_get config ''mysql'' ''instance_name'')) (\<lambda>_.
     and_then (lift (cfg_get config ''mysql'' ''db_name'')) (\<lambda>_.
     and_then (lift (cfg_get config ''mysql'' ''table_name'')) (\<lambda>_. ret ()))))))))))))"

definition init_mysql_program :: "config \<Rightarrow> world \<Rightarrow> int \<times> world" where
  "init_mysql_program config w =
     (case init_mysql_main config w of (r, w') \<Rightarrow> (exit_status r, w'))"


section \<open>The mutation driver (update_mysql.py)\<close>

definition signal_handler :: "world \<Rightarrow> world" where
  "signal_handler w = w\<lparr>running := False\<rparr>"

text \<open>The end of a step of the driver: a signal that arrived during it has run the handler.\<close>

definition deliver_signal :: "world \<Rightarrow> world" where
  "deliver_signal w =
     (if signal_env w (step w) then signal_handler (w\<lparr>step := step w + 1\<rparr>)
      else w\<lparr>step := step w + 1\<rparr>)"

definition load_password :: "(world, string) prog" where
  "load_password w =
     (case files w password_file of
        None \<Rightarrow> (Inl (FileNotFoundError (''Password file not found: '' @ password_file)), w)
      | Some content \<Rightarrow> (Inr (strip content), w))"

text \<open>The driver's own \<open>get_instance_ip\<close>, which calls the CLI directly.\<close>

definition update_get_instance_ip :: "string \<Rightarrow> string \<Rightarrow> (world, string) prog" where
  "update_get_instance_ip project_id instance_name w =
     (let args = describe_args project_id instance_name ''value(ipAddresses[0].ipAddress)'';
          result = gcloud_env w args (clock w);
          w' = emit (Gcloud args) (w\<lparr>clock := clock w + of_nat (duration result)\<rparr>)
      in if returncode result \<noteq> 0
         then (Inl (RuntimeError (''Failed to get instance IP: '' @ stderr result)), w')
         else (Inr (strip (stdout result)), w'))"

record update_result =
  result_id :: int
  result_description :: string
  old_price :: rat
  new_price :: rat
  timestamp :: rat

definition update_random_record :: "string \<Rightarrow> (world, update_result option) prog" where
  "update_random_record table_name w =
     (case random_randint 1 10 w of
        (record_id, w1) \<Rightarrow>
          (case execute (SelectPriceDescription table_name record_id) w1 of
             (Inl e, w2) \<Rightarrow> (Inl e, w2)
           | (Inr res, w2) \<Rightarrow>
               (case fetchone res of
                  None \<Rightarrow> (Inr None, w2)
                | Some (current_price, current_description) \<Rightarrow>
                    (case random_uniform 10 500 w2 of
                       (u, w3) \<Rightarrow>
                         (case execute (UpdatePrice table_name record_id (py_round2 u)) w3 of
                            (Inl e, w4) \<Rightarrow> (Inl e, w4)
                          | (Inr r, w4) \<Rightarrow>
                              (Inr (Some \<lparr>result_id = record_id,
                                           result_description = current_description,
                                           old_price = current_price,
                                           new_price = py_round2 u,
                                           timestamp = clock w4\<rparr>), w4))))))"

text \<open>
  The loop \<open>while running\<close>, with the count of updates so far. It need not end: the
  result is \<open>None\<close> when it runs forever.
\<close>

partial_function (option) mutation_loop ::
  "string \<Rightarrow> nat \<Rightarrow> world \<Rightarrow> ((exc + unit) \<times> nat \<times> world) option" where
  "mutation_loop table_name update_count w =
     (if running w then
        (case update_random_record table_name w of
           (Inl e, w1) \<Rightarrow> Some (Inl e, update_count, w1)
         | (Inr res, w1) \<Rightarrow>
             (case random_uniform 1 3 w1 of
                (wait_time, w2) \<Rightarrow>
                  mutation_loop table_name
                    (if res \<noteq> None then update_count + 1 else update_count)
                    (deliver_signal (sleep wait_time w2))))
      else Some (Inr (), update_count, w))"

text \<open>
  Lines 159 to 189: the loop under \<open>except MySQLError\<close> (printed, not raised again) and
  \<open>finally\<close> (cursor and connection closed).
\<close>

definition mutation_phase ::
  "string \<Rightarrow> world \<Rightarrow> ((exc + unit) \<times> nat \<times> world) option" where
  "mutation_phase table_name w =
     (case mutation_loop table_name 0 w of
        None \<Rightarrow> None
      | Some (r, update_count, w1) \<Rightarrow>
          Some (case r of Inl (MySQLError m) \<Rightarrow> Inr () | Inl e \<Rightarrow> Inl e | Inr u \<Rightarrow> Inr u,
                update_count, close_all w1))"

text \<open>Lines 103 to 157: everything up to the open connection; yields the table name.\<close>

definition update_setup :: "config \<Rightarrow> (world, string) prog" where
  "update_setup config =
     and_then (lift (cfg_get config ''gcp'' ''service_account_path'')) (\<lambda>sa.
     and_then (\<lambda>w. (Inr (), activate_credentials (expanduser sa w) w)) (\<lambda>_.
     and_then (lift (cfg_get config ''gcp'' ''project_id'')) (\<lambda>project_id.
     and_then (lift (cfg_get config ''mysql'' ''instance_name'')) (\<lambda>instance_name.
     and_then (update_get_instance_ip project_id instance_name) (\<lambda>host.
     and_then load_password (\<lambda>password.
     and_then (lift (cfg_get config ''mysql'' ''db_name'')) (\<lambda>db_name.
     and_then (lift (cfg_get config ''mysql'' ''table_name'')) (\<lambda>table_name.
     and_then (lift (cfg_get config ''mysql'' ''root_user'')) (\<lambda>user.
     and_then (mysql_connect host user password (Some db_name)) (\<lambda>_.
     ret table_name))))))))))"

definition update_mysql_main ::
  "config \<Rightarrow> world \<Rightarrow> ((exc + unit) \<times> nat \<times> world) option" where
  "update_mysql_main config w =
     (case update_setup config w of
        (Inl e, w1) \<Rightarrow> Some (Inl e, 0, w1)
      | (Inr table_name, w1) \<Rightarrow> mutation_phase table_name (deliver_signal w1))"

text \<open>The process: the module sets \<open>running = True\<close>, then runs \<open>main\<close>.\<close>

definition update_mysql_program :: "config \<Rightarrow> world \<Rightarrow> (int \<times> nat \<times> world) option" where
  "update_mysql_program config w =
     (case update_mysql_main config (w\<lparr>running := True\<rparr>) of
        None \<Rightarrow> None
      | Some (r, update_count, w') \<Rightarrow> Some (exit_status r, update_count, w'))"

section \<open>The warehouse initializer (init_bq.py)\<close>

definition api_call :: "event \<Rightarrow> (world, unit) prog" where
  "api_call ev w =
     (case bq_env w (trace w) ev of
        None \<Rightarrow> (Inr (), emit ev w)
      | Some e \<Rightarrow> (Inl e, emit ev w))"

definition create_dataset_if_not_exists ::
  "string \<Rightarrow> string \<Rightarrow> string \<Rightarrow> (world, bool) prog" where
  "create_dataset_if_not_exists project_id dataset_id location w =
     (let dataset_ref = project_id @ ''.'' @ dataset_id
      in case api_call (GetDataset dataset_ref) w of
           (Inr u, w1) \<Rightarrow> (Inr True, w1)
         | (Inl (NotFound m), w1) \<Rightarrow>
             (case api_call (CreateDataset dataset_ref location) w1 of
                (Inr u, w2) \<Rightarrow> (Inr True, w2)
              | (Inl (Conflict m'), w2) \<Rightarrow> (Inr True, w2)
              | (Inl e, w2) \<Rightarrow> (Inl e, w2))
         | (Inl e, w1) \<Rightarrow> (Inl e, w1))"

definition unlines :: "string list \<Rightarrow> string" where
  "unlines ls = concat (map (\<lambda>l. l @ [CHR 0x0A]) ls)"

definition create_table_ddl :: "string \<Rightarrow> string \<Rightarrow> string \<Rightarrow> string" where
  "create_table_ddl project_id dataset_id table_id =
     unlines
       ['''',
        ''        CREATE TABLE `'' @ project_id @ ''.'' @ dataset_id @ ''.'' @ table_id @ ''` ('',
        ''            id INT64 NOT NULL,'',
        ''            description STRING NOT NULL,'',
        ''            price FLOAT64 NOT NULL,'',
        ''            created_at DATETIME NOT NULL,'',
        ''            updated_at DATETIME NOT NULL,'',
        ''            PRIMARY KEY (id) NOT ENFORCED'',
        ''        )'',
        ''        CLUSTER BY id'',
        ''        OPTIONS ('',
        ''            description = '' @ [CHR 0x27]
          @ ''CDC Target Table - Items from MySQL with PRIMARY KEY for UPSERT support''
          @ [CHR 0x27],
        ''        )'']
     @ ''        ''"

text \<open>\<open>job = client.query(ddl)\<close> followed by \<open>job.result()\<close>.\<close>

definition run_ddl :: "string \<Rightarrow> (world, unit) prog" where
  "run_ddl ddl = and_then (api_call (Query ddl)) (\<lambda>job. api_call JobResult)"

text \<open>
  The handler \<open>except Exception as e: if "Already Exists" in str(e)\<close>: whether it
  turns \<open>e\<close> into success. \<open>SystemExit\<close> is not an \<open>Exception\<close> and passes through.
\<close>

definition caught_already_exists :: "exc \<Rightarrow> bool" where
  "caught_already_exists e =
     (case e of SystemExit n \<Rightarrow> False | _ \<Rightarrow> contains ''Already Exists'' (exc_str e))"

definition create_table_if_not_exists ::
  "string \<Rightarrow> string \<Rightarrow> string \<Rightarrow> (world, bool) prog" where
  "create_table_if_not_exists project_id dataset_id table_id w =
     (let table_ref = project_id @ ''.'' @ dataset_id @ ''.'' @ table_id
      in case api_call (GetTable table_ref) w of
           (Inr u, w1) \<Rightarrow> (Inr True, w1)
         | (Inl (NotFound m), w1) \<Rightarrow>
             (case run_ddl (create_table_ddl project_id dataset_id table_id) w1 of
                (Inr u, w2) \<Rightarrow> (Inr True, w2)
              | (Inl e, w2) \<Rightarrow>
                  if caught_already_exists e then (Inr True, w2) else (Inl e, w2))
         | (Inl e, w1) \<Rightarrow> (Inl e, w1))"

definition verify_table :: "string \<Rightarrow> string \<Rightarrow> string \<Rightarrow> (world, bool) prog" where
  "verify_table project_id dataset_id table_id w =
     (let table_ref = project_id @ ''.'' @ dataset_id @ ''.'' @ table_id
      in case api_call (GetTable table_ref) w of
           (Inr u, w1) \<Rightarrow> (Inr True, w1)
         | (Inl (NotFound m), w1) \<Rightarrow> (Inr False, w1)
         | (Inl e, w1) \<Rightarrow> (Inl e, w1))"

definition init_bq_main :: "config \<Rightarrow> (world, unit) prog" where
  "init_bq_main config =
     and_then (lift (cfg_get config ''gcp'' ''service_account_path'')) (\<lambda>sa.
     and_then (\<lambda>w. (Inr (), activate_credentials (expanduser sa w) w)) (\<lambda>_.
     and_then (lift (cfg_get config ''gcp'' ''project_id'')) (\<lambda>project_id.
     and_then (lift (cfg_get config ''bigquery'' ''dataset'')) (\<lambda>dataset_id.
     and_then (lift (cfg_get config ''bigquery'' ''table_name'')) (\<lambda>table_id.
     and_then (lift (cfg_get config ''bigquery'' ''location'')) (\<lambda>location.
     and_then (api_call (ClientCreate project_id)) (\<lambda>client.
     and_then (create_dataset_if_not_exists project_id dataset_id location) (\<lambda>ok.
     and_then (if \<not> ok then raise (SystemExit 1) else ret ()) (\<lambda>_.
     and_then (create_table_if_not_exists project_id dataset_id table_id) (\<lambda>ok.
     and_then (if \<not> ok then raise (SystemExit 1) else ret ()) (\<lambda>_.
     and_then (verify_table project_id dataset_id table_id) (\<lambda>_. ret ()))))))))))))"

definition init_bq_program :: "config \<Rightarrow> world \<Rightarrow> int \<times> world" where
  "init_bq_program config w =
     (case init_bq_main config w of (r, w') \<Rightarrow> (exit_status r, w'))"

section \<open>Notions the properties are stated with\<close>


text \<open>
  The readiness poll against a CLI that answers \<open>env t\<close> to a describe call made at
  time \<open>t\<close>: the instant of the k-th call when the first is made at \<open>t\<close>, each call
  being followed by a sleep of 10 seconds; whether the state observed at an instant is
  \<open>RUNNABLE\<close>; and what \<open>k\<close> unsuccessful polls leave in the trace.
\<close>

fun poll_time :: "(rat \<Rightarrow> proc) \<Rightarrow> rat \<Rightarrow> nat \<Rightarrow> rat" where
  "poll_time env t 0 = t"
| "poll_time env t (Suc k) = poll_time env (t + of_nat (duration (env t)) + 10) k"

definition observed_runnable :: "(rat \<Rightarrow> proc) \<Rightarrow> rat \<Rightarrow> bool" where
  "observed_runnable env t = (strip (stdout (env t)) = ''RUNNABLE'')"

definition poll_trace :: "string list \<Rightarrow> nat \<Rightarrow> event list" where
  "poll_trace args k = concat (replicate k [Gcloud args, Sleep 10])"

text \<open>What the CLI answers to the readiness poll's describe call, as a function of time.\<close>

definition state_answers :: "world \<Rightarrow> string \<Rightarrow> string \<Rightarrow> rat \<Rightarrow> proc" where
  "state_answers w project_id instance_name =
     gcloud_env w (describe_args project_id instance_name ''value(state)'')"

text \<open>
  What seeding is to produce in a world \<open>w\<close>: the price of row \<open>i\<close> comes from the
  \<open>i\<close>-th draw, and a row carries the database's time as both timestamps.
  \<open>sample_rows\<close> lists the rows for the ids still to insert when \<open>d\<close> draws have been
  made; \<open>insert_event\<close> is the statement that inserts a row.
\<close>

definition seed_price :: "world \<Rightarrow> int \<Rightarrow> rat" where
  "seed_price w i = py_round2 (uniform 10 500 (entropy w (drawn w + nat (i - 1))))"

definition seed_row :: "world \<Rightarrow> int \<Rightarrow> item" where
  "seed_row w i =
     \<lparr>item_id = i, description = descriptions ! nat (i - 1), price = seed_price w i,
      created_at = db_now w, updated_at = db_now w\<rparr>"

fun sample_rows :: "(nat \<Rightarrow> nat) \<Rightarrow> nat \<Rightarrow> int \<Rightarrow> int list \<Rightarrow> item list" where
  "sample_rows ent d now [] = []"
| "sample_rows ent d now (i # ids) =
     \<lparr>item_id = i, description = descriptions ! nat (i - 1),
      price = py_round2 (uniform 10 500 (ent d)), created_at = now, updated_at = now\<rparr>
     # sample_rows ent (Suc d) now ids"

definition insert_event :: "string \<Rightarrow> item \<Rightarrow> event" where
  "insert_event table_name r =
     Execute (InsertItem table_name (item_id r) (description r) (price r))"

text \<open>
  The mutation step in a world \<open>w\<close>: the id its first draw chooses, the price its second
  draw yields, and what the update statement does to a row.
\<close>

definition chosen_id :: "world \<Rightarrow> int" where
  "chosen_id w = 1 + int (entropy w (drawn w) mod 10)"

definition chosen_price :: "world \<Rightarrow> rat" where
  "chosen_price w = py_round2 (uniform 10 500 (entropy w (drawn w + 1)))"

definition reprice :: "int \<Rightarrow> rat \<Rightarrow> int \<Rightarrow> item \<Rightarrow> item" where
  "reprice record_id p now r =
     (if item_id r = record_id then r\<lparr>price := p, updated_at := now\<rparr> else r)"

text \<open>
  A mutation step sends exactly one select of a row's price and description, so the
  number of such statements in a trace counts the mutation steps performed.
\<close>

fun is_mutation_select :: "event \<Rightarrow> bool" where
  "is_mutation_select (Execute (SelectPriceDescription t i)) = True"
| "is_mutation_select ev = False"

definition mutation_steps :: "event list \<Rightarrow> nat" where
  "mutation_steps tr = length (filter is_mutation_select tr)"

text \<open>
  A program keeps control when it leaves alone the running flag and what the environment
  has in store for signals and statement failures.
\<close>

definition keeps_control :: "(world, 'a) prog \<Rightarrow> bool" where
  "keeps_control m =
     (\<forall>w. running (snd (m w)) = running w \<and> signal_env (snd (m w)) = signal_env w
          \<and> step (snd (m w)) = step w \<and> fault_env (snd (m w)) = fault_env w)"

section \<open>A concrete world\<close>

text \<open>
  A world to evaluate the programs in: the CLI reports the instance as being created
  for the first 25 seconds and as \<open>RUNNABLE\<close> afterwards, every call taking 2 seconds;
  connections, statements and API calls succeed; no signal arrives.
\<close>

definition demo_gcloud :: "string list \<Rightarrow> rat \<Rightarrow> proc" where
  "demo_gcloud args t =
     \<lparr>returncode = 0,
      stdout = (if last args = ''value(state)''
                then (if t < 25 then ''PENDING_CREATE'' else ''RUNNABLE'') @ [CHR 0x0A]
                else ''203.0.113.7'' @ [CHR 0x0A]),
      stderr = '''',
      duration = 2\<rparr>"

definition demo_world :: world where
  "demo_world =
     \<lparr>clock = 0, trace = [], entropy = (\<lambda>i. 7919 * i + 13), drawn = 0,
      gcloud_env = demo_gcloud, files = Map.empty, home = ''/home/demo'',
      environ = Map.empty, connect_env = (\<lambda>n. None), connects = 0,
      fault_env = (\<lambda>n. None), statements = 0, server = Map.empty, current_db = None,
      running = True, signal_env = (\<lambda>n. False), step = 0,
      bq_env = (\<lambda>h ev. None)\<rparr>"





text \<open>The concrete world with a connection to a database whose table holds ten rows.\<close>

definition demo_rows :: "item list" where
  "demo_rows =
     map (\<lambda>i. \<lparr>item_id = i, description = descriptions ! nat (i - 1),
                 price = 20 + of_int i, created_at = 0, updated_at = 0\<rparr>) [1..10]"

definition demo_shop :: world where
  "demo_shop =
     demo_world\<lparr>current_db := Some ''shop'',
       server := [''shop'' \<mapsto> [''items'' \<mapsto> demo_rows]]\<rparr>"

text \<open>Settings with every key, and the world the mutation driver starts in.\<close>

definition demo_config :: config where
  "demo_config =
     [''gcp'' \<mapsto> [''project_id'' \<mapsto> ''proj'', ''region'' \<mapsto> ''us-central1'',
                 ''service_account_path'' \<mapsto> ''~/sa.json''],
      ''bigquery'' \<mapsto> [''dataset'' \<mapsto> ''cdc'', ''table_name'' \<mapsto> ''items'',
                      ''location'' \<mapsto> ''US''],
      ''mysql'' \<mapsto> [''instance_name'' \<mapsto> ''db1'', ''tier'' \<mapsto> ''db-f1-micro'',
                   ''version'' \<mapsto> ''MYSQL_8_0'', ''db_name'' \<mapsto> ''shop'',
                   ''table_name'' \<mapsto> ''items'', ''root_user'' \<mapsto> ''root'']]"

definition demo_driver :: world where
  "demo_driver =
     demo_world\<lparr>files := [password_file \<mapsto> ''Pw5_FMT07%+elszGNU18^-fm''],
       server := [''shop'' \<mapsto> [''items'' \<mapsto> demo_rows]]\<rparr>"


text \<open>The world the driver's start-up leaves when it started in \<open>w\<close> and met no obstacle.\<close>

definition demo_connected :: "world \<Rightarrow> world" where
  "demo_connected w =
     w\<lparr>running := True, clock := 2,
       trace := [Gcloud (describe_args ''proj'' ''db1'' ''value(ipAddresses[0].ipAddress)''),
                 Connect ''203.0.113.7'' ''root'' ''Pw5_FMT07%+elszGNU18^-fm'' (Some ''shop'')],
       connects := 1, current_db := Some ''shop''\<rparr>"

section \<open>The three programs and the settings they read\<close>

datatype program = InitBq | InitMysql | UpdateMysql

text \<open>
  \<open>main\<close> of a program, and the process around it. The mutation driver may run forever
  (\<open>None\<close>); the other two always end.
\<close>

fun run_main :: "program \<Rightarrow> config \<Rightarrow> world \<Rightarrow> ((exc + unit) \<times> world) option" where
  "run_main InitBq config w = Some (init_bq_main config w)"
| "run_main InitMysql config w = Some (init_mysql_main config w)"
| "run_main UpdateMysql config w =
     (case update_mysql_main config (w\<lparr>running := True\<rparr>) of
        None \<Rightarrow> None
      | Some (r, update_count, w') \<Rightarrow> Some (r, w'))"

definition run_program :: "program \<Rightarrow> config \<Rightarrow> world \<Rightarrow> (int \<times> world) option" where
  "run_program p config w =
     (case run_main p config w of None \<Rightarrow> None | Some (r, w') \<Rightarrow> Some (exit_status r, w'))"

text \<open>
  The settings each program reads, as (section, key), and those among them it reads
  before its first network or CLI call.
\<close>

fun keys_read :: "program \<Rightarrow> (string \<times> string) list" where
  "keys_read InitBq =
     [(''gcp'', ''service_account_path''), (''gcp'', ''project_id''),
      (''bigquery'', ''dataset''), (''bigquery'', ''table_name''), (''bigquery'', ''location'')]"
| "keys_read InitMysql =
     [(''gcp'', ''service_account_path''), (''gcp'', ''project_id''), (''gcp'', ''region''),
      (''mysql'', ''instance_name''), (''mysql'', ''tier''), (''mysql'', ''version''),
      (''mysql'', ''root_user''), (''mysql'', ''db_name''), (''mysql'', ''table_name'')]"
| "keys_read UpdateMysql =
     [(''gcp'', ''service_account_path''), (''gcp'', ''project_id''),
      (''mysql'', ''instance_name''), (''mysql'', ''db_name''), (''mysql'', ''table_name''),
      (''mysql'', ''root_user'')]"

fun early_keys :: "program \<Rightarrow> (string \<times> string) list" where
  "early_keys InitBq = keys_read InitBq"
| "early_keys InitMysql = [(''gcp'', ''service_account_path''), (''gcp'', ''project_id'')]"
| "early_keys UpdateMysql =
     [(''gcp'', ''service_account_path''), (''gcp'', ''project_id''),
      (''mysql'', ''instance_name'')]"

definition missing :: "config \<Rightarrow> string \<times> string \<Rightarrow> bool" where
  "missing config k = (case cfg_get config (fst k) (snd k) of Inl e \<Rightarrow> True | Inr v \<Rightarrow> False)"

text \<open>The status the top-level handler gives an exception.\<close>

definition exc_status :: "exc \<Rightarrow> int" where
  "exc_status e = (case e of SystemExit n \<Rightarrow> n | _ \<Rightarrow> 1)"

text \<open>
  Three properties of a program fragment, for reasoning along the sequence of steps:
  it fails when a given key is missing; whatever it raises ends the process with status
  1; and it makes no call to the outside and raises nothing but a \<open>KeyError\<close>.
\<close>

definition needs :: "config \<Rightarrow> string \<times> string \<Rightarrow> (world, 'a) prog \<Rightarrow> bool" where
  "needs config k m = (missing config k \<longrightarrow> (\<forall>w. \<exists>e. fst (m w) = Inl e))"

definition ends_1 :: "(world, 'a) prog \<Rightarrow> bool" where
  "ends_1 m = (\<forall>w. case fst (m w) of Inl e \<Rightarrow> exc_status e = 1 | Inr x \<Rightarrow> True)"

definition quiet :: "(world, 'a) prog \<Rightarrow> bool" where
  "quiet m =
     (\<forall>w. trace (snd (m w)) = trace w
          \<and> (case fst (m w) of Inl (KeyError x) \<Rightarrow> True | Inl e \<Rightarrow> False | Inr v \<Rightarrow> True))"

definition quiet_fail :: "(world, 'a) prog \<Rightarrow> bool" where
  "quiet_fail m =
     (\<forall>w. trace (snd (m w)) = trace w
          \<and> (case fst (m w) of Inl (KeyError x) \<Rightarrow> True | Inl e \<Rightarrow> False | Inr v \<Rightarrow> False))"

text \<open>
  A program that only adds to the trace of calls, and one that, when the key is missing,
  always fails and only adds to the trace.
\<close>

definition appends :: "(world, 'a) prog \<Rightarrow> bool" where
  "appends m = (\<forall>w. \<exists>rest. trace (snd (m w)) = trace w @ rest)"

definition fails_late :: "config \<Rightarrow> string \<times> string \<Rightarrow> (world, 'a) prog \<Rightarrow> bool" where
  "fails_late config k m =
     (missing config k
        \<longrightarrow> (\<forall>w. \<exists>e rest. fst (m w) = Inl e \<and> trace (snd (m w)) = trace w @ rest))"

text \<open>Settings without the machine tier.\<close>

definition demo_config_no_tier :: config where
  "demo_config_no_tier =
     demo_config(''mysql'' \<mapsto>
       [''instance_name'' \<mapsto> ''db1'', ''version'' \<mapsto> ''MYSQL_8_0'', ''db_name'' \<mapsto> ''shop'',
        ''table_name'' \<mapsto> ''items'', ''root_user'' \<mapsto> ''root''])"

section \<open>Properties of the primitives\<close>

lemma choice_in_set: "seq \<noteq> [] \<Longrightarrow> choice seq e \<in> set seq"
  by (simp add: choice_def)

lemma nonempty_classes:
  "ascii_uppercase \<noteq> []" "ascii_lowercase \<noteq> []" "digits \<noteq> []" "symbols \<noteq> []"
  "ascii_letters @ digits @ symbols \<noteq> []"
  by (simp_all add: ascii_uppercase_def ascii_lowercase_def digits_def symbols_def)

lemma alphabet_no_space_all: "\<forall>c\<in>set (ascii_letters @ digits @ symbols). \<not> isspace c"
  by (simp add: ascii_letters_def ascii_lowercase_def ascii_uppercase_def digits_def
      symbols_def isspace_def)

lemma alphabet_no_space: "c \<in> set (ascii_letters @ digits @ symbols) \<Longrightarrow> \<not> isspace c"
  using alphabet_no_space_all by blast

lemma strip_id:
  assumes "s \<noteq> []" and "\<not> isspace (hd s)" and "\<not> isspace (last s)"
  shows "strip s = s"
proof -
  have "dropWhile isspace s = s"
    using assms by (cases s) auto
  moreover have "dropWhile isspace (rev s) = rev s"
    using assms by (cases "rev s") (auto simp: last_rev hd_rev)
  ultimately show ?thesis
    by (simp add: strip_def)
qed

section \<open>The password generator\<close>

lemma generate_password_length: "length (generate_password 24 rnd) = 24"
  by (simp add: generate_password_def Let_def)

lemma generate_password_nth:
  "generate_password len rnd ! 0 = choice ascii_uppercase (rnd len)"
  "generate_password len rnd ! 1 = choice ascii_lowercase (rnd (len + 1))"
  "generate_password len rnd ! 2 = choice digits (rnd (len + 2))"
  "generate_password len rnd ! 3 = choice symbols (rnd (len + 3))"
  by (simp_all add: generate_password_def Let_def eval_nat_numeral)

lemma generate_password_drop4:
  "drop 4 (generate_password len rnd) =
     drop 4 (map (\<lambda>i. choice (ascii_letters @ digits @ symbols) (rnd i)) [0..<len])"
  by (simp add: generate_password_def Let_def)

lemma generate_password_alphabet:
  "set (generate_password len rnd) \<subseteq> set (ascii_letters @ digits @ symbols)"
proof -
  have "set (drop 4 (map (\<lambda>i. choice (ascii_letters @ digits @ symbols) (rnd i)) [0..<len]))
          \<subseteq> set (ascii_letters @ digits @ symbols)"
    using set_drop_subset choice_in_set [OF nonempty_classes(5)] by fastforce
  moreover have "choice ascii_uppercase e \<in> set (ascii_letters @ digits @ symbols)" for e
    using choice_in_set [OF nonempty_classes(1)] by (auto simp: ascii_letters_def)
  moreover have "choice ascii_lowercase e \<in> set (ascii_letters @ digits @ symbols)" for e
    using choice_in_set [OF nonempty_classes(2)] by (auto simp: ascii_letters_def)
  moreover have "choice digits e \<in> set (ascii_letters @ digits @ symbols)" for e
    using choice_in_set [OF nonempty_classes(3)] by auto
  moreover have "choice symbols e \<in> set (ascii_letters @ digits @ symbols)" for e
    using choice_in_set [OF nonempty_classes(4)] by auto
  ultimately show ?thesis
    unfolding generate_password_def Let_def by (simp del: set_append)
qed

lemma generate_password_strip: "strip (generate_password 24 rnd) = generate_password 24 rnd"
proof (rule strip_id)
  let ?p = "generate_password 24 rnd"
  show ne: "?p \<noteq> []"
    using generate_password_length [of rnd] by auto
  have "hd ?p \<in> set ?p" "last ?p \<in> set ?p"
    using ne by simp_all
  then show "\<not> isspace (hd ?p)" "\<not> isspace (last ?p)"
    using generate_password_alphabet [of 24 rnd] alphabet_no_space by blast+
qed

text \<open>
  Claim C3. Whatever the random draws, the password \<open>generate_password\<close> returns for the
  length 24 that \<open>main\<close> uses has exactly 24 characters, all of them uppercase letters,
  lowercase letters, digits or symbols of \<open>!@#$%^&*()_+-=\<close>; its first four characters
  are an uppercase letter, a lowercase letter, a digit and a symbol, in that order, so
  each category occurs; and from the fifth character on it is the random string drawn
  first, of which only the first four characters were replaced.
\<close>

theorem generate_password_shape:
  "length (generate_password 24 rnd) = 24
   \<and> set (generate_password 24 rnd) \<subseteq> set (ascii_uppercase @ ascii_lowercase @ digits @ symbols)
   \<and> generate_password 24 rnd ! 0 \<in> set ascii_uppercase
   \<and> generate_password 24 rnd ! 1 \<in> set ascii_lowercase
   \<and> generate_password 24 rnd ! 2 \<in> set digits
   \<and> generate_password 24 rnd ! 3 \<in> set symbols
   \<and> set (generate_password 24 rnd) \<inter> set ascii_uppercase \<noteq> {}
   \<and> set (generate_password 24 rnd) \<inter> set ascii_lowercase \<noteq> {}
   \<and> set (generate_password 24 rnd) \<inter> set digits \<noteq> {}
   \<and> set (generate_password 24 rnd) \<inter> set symbols \<noteq> {}
   \<and> drop 4 (generate_password 24 rnd)
       = drop 4 (map (\<lambda>i. choice (ascii_letters @ digits @ symbols) (rnd i)) [0..<24])"
proof -
  let ?p = "generate_password 24 rnd"
  have len: "length ?p = 24"
    by (rule generate_password_length)
  have sub: "set ?p \<subseteq> set (ascii_uppercase @ ascii_lowercase @ digits @ symbols)"
    using generate_password_alphabet [of 24 rnd] by (auto simp: ascii_letters_def)
  have u: "?p ! 0 \<in> set ascii_uppercase"
    by (simp only: generate_password_nth choice_in_set [OF nonempty_classes(1)])
  have l: "?p ! 1 \<in> set ascii_lowercase"
    by (simp only: generate_password_nth choice_in_set [OF nonempty_classes(2)])
  have d: "?p ! 2 \<in> set digits"
    by (simp only: generate_password_nth choice_in_set [OF nonempty_classes(3)])
  have s: "?p ! 3 \<in> set symbols"
    by (simp only: generate_password_nth choice_in_set [OF nonempty_classes(4)])
  have m: "?p ! 0 \<in> set ?p" "?p ! 1 \<in> set ?p" "?p ! 2 \<in> set ?p" "?p ! 3 \<in> set ?p"
    by (rule nth_mem, simp add: len)+
  have iu: "set ?p \<inter> set ascii_uppercase \<noteq> {}"
    using u m(1) by blast
  have il: "set ?p \<inter> set ascii_lowercase \<noteq> {}"
    using l m(2) by blast
  have idg: "set ?p \<inter> set digits \<noteq> {}"
    using d m(3) by blast
  have isy: "set ?p \<inter> set symbols \<noteq> {}"
    using s m(4) by blast
  have dr: "drop 4 ?p = drop 4 (map (\<lambda>i. choice (ascii_letters @ digits @ symbols) (rnd i)) [0..<24])"
    by (rule generate_password_drop4)
  show ?thesis
    using len sub u l d s iu il idg isy dr by - (intro conjI; assumption)
qed

text \<open>
  Claim C10. For every password the generator produces, the provisioner's write of the
  password file followed by the mutation driver's \<open>load_password\<close>, which strips
  surrounding whitespace, yields exactly that password: no character of the generation
  alphabet is whitespace.
\<close>

theorem password_file_roundtrip:
  "load_password (save_password (generate_password 24 rnd) w)
     = (Inr (generate_password 24 rnd), save_password (generate_password 24 rnd) w)"
  by (simp add: load_password_def save_password_def write_file_def emit_def
      generate_password_strip)

section \<open>The concrete world, field by field\<close>

lemma demo_world_sel:
  "clock demo_world = 0" "trace demo_world = []" "drawn demo_world = 0"
  "entropy demo_world = (\<lambda>i. 7919 * i + 13)"
  "gcloud_env demo_world = demo_gcloud" "files demo_world = Map.empty"
  "home demo_world = ''/home/demo''" "environ demo_world = Map.empty"
  "connect_env demo_world = (\<lambda>n. None)" "connects demo_world = 0"
  "fault_env demo_world = (\<lambda>n. None)" "statements demo_world = 0"
  "server demo_world = Map.empty" "current_db demo_world = None"
  "running demo_world = True" "signal_env demo_world = (\<lambda>n. False)" "step demo_world = 0"
  "bq_env demo_world = (\<lambda>h ev. None)"
  by (simp_all add: demo_world_def)

section \<open>The connection loop of the seeding step\<close>

declare connect_retry.simps [simp del]







section \<open>The readiness poll\<close>

declare wait_loop.simps [simp del]

lemma run_gcloud_nocheck:
  "run_gcloud args False w
     = (Inr (gcloud_env w args (clock w)),
        w\<lparr>clock := clock w + of_nat (duration (gcloud_env w args (clock w))),
          trace := trace w @ [Gcloud args]\<rparr>)"
  by (simp add: run_gcloud_def emit_def Let_def)

lemma poll_time_mono: "t \<le> poll_time env t k"
proof (induction k arbitrary: t)
  case 0
  show ?case by simp
next
  case (Suc k)
  have "t \<le> t + of_nat (duration (env t)) + 10"
    by simp
  also have "\<dots> \<le> poll_time env (t + of_nat (duration (env t)) + 10) k"
    by (rule Suc.IH)
  finally show ?case
    by simp
qed

lemma poll_trace_Suc: "poll_trace args (Suc k) = [Gcloud args, Sleep 10] @ poll_trace args k"
  by (simp add: poll_trace_def)

lemma wait_loop_ready:
  assumes "clock w - start < max_wait"
    and "observed_runnable (gcloud_env w (describe_args p i ''value(state)'')) (clock w)"
  shows "wait_loop p i start max_wait w
     = (Inr True,
        w\<lparr>clock := clock w
               + of_nat (duration (gcloud_env w (describe_args p i ''value(state)'') (clock w))),
          trace := trace w @ [Gcloud (describe_args p i ''value(state)'')]\<rparr>)"
  using assms
  by (subst wait_loop.simps) (simp add: run_gcloud_nocheck observed_runnable_def)

lemma wait_loop_again:
  assumes "clock w - start < max_wait"
    and "\<not> observed_runnable (gcloud_env w (describe_args p i ''value(state)'')) (clock w)"
  shows "wait_loop p i start max_wait w
     = wait_loop p i start max_wait
        (w\<lparr>clock := clock w
               + of_nat (duration (gcloud_env w (describe_args p i ''value(state)'') (clock w)))
               + 10,
          trace := trace w @ [Gcloud (describe_args p i ''value(state)''), Sleep 10]\<rparr>)"
  using assms
  by (subst wait_loop.simps)
    (simp add: run_gcloud_nocheck observed_runnable_def sleep_def emit_def)

lemma wait_loop_timeout:
  assumes "\<not> clock w - start < max_wait"
  shows "wait_loop p i start max_wait w
     = (Inl (TimeoutError ''Instance did not become ready in time''), w)"
  using assms by (subst wait_loop.simps) simp

lemma wait_loop_success:
  assumes "gcloud_env w (describe_args p i ''value(state)'') = env"
    and "poll_time env (clock w) k - start < max_wait"
    and "observed_runnable env (poll_time env (clock w) k)"
    and "\<forall>j<k. \<not> observed_runnable env (poll_time env (clock w) j)"
  shows "wait_loop p i start max_wait w
     = (Inr True,
        w\<lparr>clock := poll_time env (clock w) k + of_nat (duration (env (poll_time env (clock w) k))),
          trace := trace w @ poll_trace (describe_args p i ''value(state)'') k
                     @ [Gcloud (describe_args p i ''value(state)'')]\<rparr>)"
  using assms
proof (induction k arbitrary: w)
  case 0
  then show ?case
    using wait_loop_ready [of w start max_wait p i] by (auto simp: poll_trace_def)
next
  case (Suc k)
  let ?args = "describe_args p i ''value(state)''"
  let ?t = "clock w + of_nat (duration (env (clock w))) + 10"
  let ?w1 = "w\<lparr>clock := ?t, trace := trace w @ [Gcloud ?args, Sleep 10]\<rparr>"
  note env = Suc.prems(1)
  have budget: "clock w - start < max_wait"
  proof -
    have "clock w \<le> poll_time env (clock w) (Suc k)"
      by (rule poll_time_mono)
    with Suc.prems(2) show ?thesis
      by simp
  qed
  have notyet: "\<not> observed_runnable (gcloud_env w ?args) (clock w)"
    using Suc.prems(4) [rule_format, of 0] by (simp add: env)
  have step: "wait_loop p i start max_wait w = wait_loop p i start max_wait ?w1"
    using wait_loop_again [OF budget notyet] by (simp add: env)
  have pt: "poll_time env (clock w) (Suc j) = poll_time env ?t j" for j
    by simp
  have "wait_loop p i start max_wait ?w1
     = (Inr True,
        ?w1\<lparr>clock := poll_time env (clock ?w1) k
               + of_nat (duration (env (poll_time env (clock ?w1) k))),
          trace := trace ?w1 @ poll_trace ?args k @ [Gcloud ?args]\<rparr>)"
  proof (rule Suc.IH)
    show "gcloud_env ?w1 ?args = env"
      by (simp add: env)
    show "poll_time env (clock ?w1) k - start < max_wait"
      using Suc.prems(2) by simp
    show "observed_runnable env (poll_time env (clock ?w1) k)"
      using Suc.prems(3) by simp
    show "\<forall>j<k. \<not> observed_runnable env (poll_time env (clock ?w1) j)"
    proof (intro allI impI)
      fix j assume "j < k"
      then have "Suc j < Suc k"
        by simp
      then have "\<not> observed_runnable env (poll_time env (clock w) (Suc j))"
        using Suc.prems(4) by blast
      then show "\<not> observed_runnable env (poll_time env (clock ?w1) j)"
        by simp
    qed
  qed
  then show ?case
    unfolding step by (simp add: poll_trace_Suc)
qed

lemma wait_loop_never:
  assumes "gcloud_env w (describe_args p i ''value(state)'') = env"
    and "\<forall>k. poll_time env (clock w) k - start < max_wait
            \<longrightarrow> \<not> observed_runnable env (poll_time env (clock w) k)"
  shows "\<exists>n. wait_loop p i start max_wait w
           = (Inl (TimeoutError ''Instance did not become ready in time''),
              w\<lparr>clock := poll_time env (clock w) n,
                trace := trace w @ poll_trace (describe_args p i ''value(state)'') n\<rparr>)
         \<and> max_wait \<le> poll_time env (clock w) n - start
         \<and> (\<forall>j<n. poll_time env (clock w) j - start < max_wait)"
  using assms
proof (induction p i start max_wait w rule: wait_loop.induct)
  case (1 p i start max_wait w)
  let ?args = "describe_args p i ''value(state)''"
  show ?case
  proof (cases "clock w - start < max_wait")
    case False
    show ?thesis
      using False by (intro exI [of _ 0]) (simp add: wait_loop_timeout poll_trace_def)
  next
    case True
    let ?t = "clock w + of_nat (duration (env (clock w))) + 10"
    let ?w0 = "w\<lparr>clock := clock w + of_nat (duration (env (clock w))),
                 trace := trace w @ [Gcloud ?args]\<rparr>"
    let ?w1 = "w\<lparr>clock := ?t, trace := trace w @ [Gcloud ?args, Sleep 10]\<rparr>"
    note env = "1.prems"(1)
    have notyet: "\<not> observed_runnable env (clock w)"
      using "1.prems"(2) [rule_format, of 0] True by simp
    have rg: "run_gcloud ?args False w = (Inr (env (clock w)), ?w0)"
      by (simp add: run_gcloud_nocheck env)
    have sl: "sleep 10 ?w0 = ?w1"
      by (simp add: sleep_def emit_def)
    have step: "wait_loop p i start max_wait w = wait_loop p i start max_wait ?w1"
      using wait_loop_again [OF True, of p i] notyet by (simp add: env)
    have "\<exists>n. wait_loop p i start max_wait ?w1
           = (Inl (TimeoutError ''Instance did not become ready in time''),
              ?w1\<lparr>clock := poll_time env (clock ?w1) n,
                trace := trace ?w1 @ poll_trace ?args n\<rparr>)
         \<and> max_wait \<le> poll_time env (clock ?w1) n - start
         \<and> (\<forall>j<n. poll_time env (clock ?w1) j - start < max_wait)"
    proof (rule "1.IH" [OF True rg [symmetric] refl refl, unfolded sl])
      show "strip (stdout (env (clock w))) \<noteq> ''RUNNABLE''"
        using notyet by (simp add: observed_runnable_def)
      show "gcloud_env ?w1 ?args = env"
        by (simp add: env)
      show "\<forall>k. poll_time env (clock ?w1) k - start < max_wait
            \<longrightarrow> \<not> observed_runnable env (poll_time env (clock ?w1) k)"
      proof (intro allI impI)
        fix k assume "poll_time env (clock ?w1) k - start < max_wait"
        then have "poll_time env (clock w) (Suc k) - start < max_wait"
          by simp
        then have "\<not> observed_runnable env (poll_time env (clock w) (Suc k))"
          using "1.prems"(2) by blast
        then show "\<not> observed_runnable env (poll_time env (clock ?w1) k)"
          by simp
      qed
    qed
    then obtain n where n: "wait_loop p i start max_wait ?w1
           = (Inl (TimeoutError ''Instance did not become ready in time''),
              ?w1\<lparr>clock := poll_time env (clock ?w1) n,
                trace := trace ?w1 @ poll_trace ?args n\<rparr>)"
         "max_wait \<le> poll_time env (clock ?w1) n - start"
         "\<forall>j<n. poll_time env (clock ?w1) j - start < max_wait"
      by blast
    have "wait_loop p i start max_wait w
           = (Inl (TimeoutError ''Instance did not become ready in time''),
              w\<lparr>clock := poll_time env (clock w) (Suc n),
                trace := trace w @ poll_trace ?args (Suc n)\<rparr>)"
      unfolding step n(1) by (simp add: poll_trace_Suc)
    moreover have "max_wait \<le> poll_time env (clock w) (Suc n) - start"
      using n(2) by simp
    moreover have "\<forall>j<Suc n. poll_time env (clock w) j - start < max_wait"
    proof (intro allI impI)
      fix j assume j: "j < Suc n"
      show "poll_time env (clock w) j - start < max_wait"
      proof (cases j)
        case 0
        then show ?thesis using True by simp
      next
        case (Suc j')
        then have "j' < n" using j by simp
        then have "poll_time env (clock ?w1) j' - start < max_wait"
          using n(3) by blast
        then show ?thesis using Suc by simp
      qed
    qed
    ultimately show ?thesis
      by (intro exI [of _ "Suc n"] conjI)
  qed
qed

lemma poll_time_add: "poll_time env t (k + m) = poll_time env (poll_time env t k) m"
  by (induction k arbitrary: t) simp_all

lemma poll_time_le: "k \<le> n \<Longrightarrow> poll_time env t k \<le> poll_time env t n"
  using poll_time_add [of env t k "n - k"] poll_time_mono [of "poll_time env t k" env "n - k"]
  by simp

text \<open>
  Claim C4. The readiness poll describes the instance at the instants \<open>poll_time\<close>:
  the first call on entry, each later one 10 seconds after the previous call returned.
  It returns \<open>True\<close> at the first describe call that observes the state \<open>RUNNABLE\<close>,
  provided that call starts within 600 seconds of the entry; the trace then shows the
  earlier calls, each followed by a sleep of 10 seconds, and the successful call last.
  It raises the timeout error if and only if no describe call that starts within the
  600 seconds observes \<open>RUNNABLE\<close>; it has then made every such call, each followed by a
  sleep of 10 seconds, and stops at the first instant 600 seconds or more after the
  entry.
\<close>

theorem wait_for_instance_ready_poll:
  "(\<forall>k. poll_time (state_answers w p i) (clock w) k - clock w < 600
         \<and> observed_runnable (state_answers w p i) (poll_time (state_answers w p i) (clock w) k)
         \<and> (\<forall>j<k. \<not> observed_runnable (state_answers w p i)
                      (poll_time (state_answers w p i) (clock w) j))
       \<longrightarrow> wait_for_instance_ready p i 600 w
           = (Inr True,
              w\<lparr>clock := poll_time (state_answers w p i) (clock w) k
                     + of_nat (duration (state_answers w p i
                                 (poll_time (state_answers w p i) (clock w) k))),
                trace := trace w @ poll_trace (describe_args p i ''value(state)'') k
                           @ [Gcloud (describe_args p i ''value(state)'')]\<rparr>))
   \<and> ((\<exists>msg. fst (wait_for_instance_ready p i 600 w) = Inl (TimeoutError msg))
        \<longleftrightarrow> (\<forall>k. poll_time (state_answers w p i) (clock w) k - clock w < 600
                 \<longrightarrow> \<not> observed_runnable (state_answers w p i)
                       (poll_time (state_answers w p i) (clock w) k)))
   \<and> ((\<forall>k. poll_time (state_answers w p i) (clock w) k - clock w < 600
             \<longrightarrow> \<not> observed_runnable (state_answers w p i)
                   (poll_time (state_answers w p i) (clock w) k))
        \<longrightarrow> (\<exists>n. wait_for_instance_ready p i 600 w
                  = (Inl (TimeoutError ''Instance did not become ready in time''),
                     w\<lparr>clock := poll_time (state_answers w p i) (clock w) n,
                       trace := trace w @ poll_trace (describe_args p i ''value(state)'') n\<rparr>)
                \<and> 600 \<le> poll_time (state_answers w p i) (clock w) n - clock w
                \<and> (\<forall>j<n. poll_time (state_answers w p i) (clock w) j - clock w < 600)))"
proof -
  let ?env = "state_answers w p i"
  let ?t = "poll_time ?env (clock w)"
  let ?never = "\<forall>k. ?t k - clock w < 600 \<longrightarrow> \<not> observed_runnable ?env (?t k)"
  have env: "gcloud_env w (describe_args p i ''value(state)'') = ?env"
    by (simp add: state_answers_def)
  have success: "wait_for_instance_ready p i 600 w
           = (Inr True,
              w\<lparr>clock := ?t k + of_nat (duration (?env (?t k))),
                trace := trace w @ poll_trace (describe_args p i ''value(state)'') k
                           @ [Gcloud (describe_args p i ''value(state)'')]\<rparr>)"
    if "?t k - clock w < 600" "observed_runnable ?env (?t k)"
      "\<forall>j<k. \<not> observed_runnable ?env (?t j)" for k
    unfolding wait_for_instance_ready_def
    using wait_loop_success [OF env that] .
  have timeout: "\<exists>n. wait_for_instance_ready p i 600 w
                  = (Inl (TimeoutError ''Instance did not become ready in time''),
                     w\<lparr>clock := ?t n,
                       trace := trace w @ poll_trace (describe_args p i ''value(state)'') n\<rparr>)
                \<and> 600 \<le> ?t n - clock w
                \<and> (\<forall>j<n. ?t j - clock w < 600)"
    if ?never
    unfolding wait_for_instance_ready_def
    using wait_loop_never [OF env that] .
  have only: ?never if raised: "\<exists>msg. fst (wait_for_instance_ready p i 600 w) = Inl (TimeoutError msg)"
  proof (rule ccontr)
    assume "\<not> ?never"
    then obtain k where k: "?t k - clock w < 600" "observed_runnable ?env (?t k)"
      by blast
    define k0 where "k0 = (LEAST k. observed_runnable ?env (?t k))"
    have obs: "observed_runnable ?env (?t k0)"
      unfolding k0_def using k(2) by (rule LeastI)
    have "k0 \<le> k"
      unfolding k0_def using k(2) by (rule Least_le)
    then have "?t k0 \<le> ?t k"
      by (rule poll_time_le)
    then have budget: "?t k0 - clock w < 600"
      using k(1) by simp
    have "\<forall>j<k0. \<not> observed_runnable ?env (?t j)"
      unfolding k0_def using not_less_Least by blast
    then have "fst (wait_for_instance_ready p i 600 w) = Inr True"
      using success [OF budget obs] by simp
    with raised show False
      by simp
  qed
  have iff: "(\<exists>msg. fst (wait_for_instance_ready p i 600 w) = Inl (TimeoutError msg)) \<longleftrightarrow> ?never"
  proof
    assume "\<exists>msg. fst (wait_for_instance_ready p i 600 w) = Inl (TimeoutError msg)"
    then show ?never by (rule only)
  next
    assume ?never
    from timeout [OF this] obtain n where
      "wait_for_instance_ready p i 600 w
         = (Inl (TimeoutError ''Instance did not become ready in time''),
            w\<lparr>clock := ?t n,
              trace := trace w @ poll_trace (describe_args p i ''value(state)'') n\<rparr>)"
      by blast
    then have "fst (wait_for_instance_ready p i 600 w)
        = Inl (TimeoutError ''Instance did not become ready in time'')"
      by simp
    then show "\<exists>msg. fst (wait_for_instance_ready p i 600 w) = Inl (TimeoutError msg)"
      by (rule exI)
  qed
  show ?thesis
    using success timeout iff by (intro conjI allI impI) blast+
qed

lemma demo_state_answers:
  "state_answers demo_world p i t
     = \<lparr>returncode = 0,
        stdout = (if t < 25 then ''PENDING_CREATE'' else ''RUNNABLE'') @ [CHR 0x0A],
        stderr = '''', duration = 2\<rparr>"
  by (simp add: state_answers_def demo_world_sel demo_gcloud_def describe_args_def)

lemma demo_observed: "observed_runnable (state_answers demo_world p i) t \<longleftrightarrow> \<not> t < 25"
  by (simp add: observed_runnable_def demo_state_answers strip_def isspace_def)

lemma demo_poll_time:
  "poll_time (state_answers demo_world p i) 0 0 = 0"
  "poll_time (state_answers demo_world p i) 0 (Suc 0) = 12"
  "poll_time (state_answers demo_world p i) 0 (Suc (Suc 0)) = 24"
  "poll_time (state_answers demo_world p i) 0 (Suc (Suc (Suc 0))) = 36"
  by (simp_all add: demo_state_answers)

text \<open>
  The theorem at work: an instance that is \<open>RUNNABLE\<close> from second 25 on is seen ready
  by the fourth describe call, and one whose describe calls fail and take 290 seconds
  each times out after two of them.
\<close>

theorem wait_for_instance_ready_poll_witness:
  "wait_for_instance_ready ''proj'' ''db1'' 600 demo_world
     = (Inr True,
        demo_world\<lparr>clock := 38,
          trace := [Gcloud (describe_args ''proj'' ''db1'' ''value(state)''), Sleep 10,
                    Gcloud (describe_args ''proj'' ''db1'' ''value(state)''), Sleep 10,
                    Gcloud (describe_args ''proj'' ''db1'' ''value(state)''), Sleep 10,
                    Gcloud (describe_args ''proj'' ''db1'' ''value(state)'')]\<rparr>)
   \<and> wait_for_instance_ready ''proj'' ''db1'' 600
        (demo_world\<lparr>gcloud_env := (\<lambda>args t. \<lparr>returncode = 1, stdout = [],
                                              stderr = ''not found'', duration = 290\<rparr>)\<rparr>)
      = (Inl (TimeoutError ''Instance did not become ready in time''),
         demo_world\<lparr>gcloud_env := (\<lambda>args t. \<lparr>returncode = 1, stdout = [],
                                              stderr = ''not found'', duration = 290\<rparr>),
           clock := 600,
           trace := [Gcloud (describe_args ''proj'' ''db1'' ''value(state)''), Sleep 10,
                     Gcloud (describe_args ''proj'' ''db1'' ''value(state)''), Sleep 10]\<rparr>)"
proof -
  let ?p = "''proj''" and ?i = "''db1''"
  let ?v = "demo_world\<lparr>gcloud_env := (\<lambda>args t. \<lparr>returncode = 1, stdout = [],
                                                     stderr = ''not found'', duration = 290\<rparr>)\<rparr>"
  have three: "(\<forall>j<3. P j) \<longleftrightarrow> P 0 \<and> P (Suc 0) \<and> P (Suc (Suc 0))" for P :: "nat \<Rightarrow> bool"
    by (auto simp: numeral_3_eq_3 less_Suc_eq)
  have hyp: "poll_time (state_answers demo_world ?p ?i) (clock demo_world) 3 - clock demo_world < 600
         \<and> observed_runnable (state_answers demo_world ?p ?i)
              (poll_time (state_answers demo_world ?p ?i) (clock demo_world) 3)
         \<and> (\<forall>j<3. \<not> observed_runnable (state_answers demo_world ?p ?i)
                      (poll_time (state_answers demo_world ?p ?i) (clock demo_world) j))"
    unfolding three
    by (simp add: demo_world_sel demo_observed demo_poll_time numeral_3_eq_3 del: poll_time.simps)
  have pt: "poll_trace args (Suc (Suc (Suc 0)))
      = [Gcloud args, Sleep 10, Gcloud args, Sleep 10, Gcloud args, Sleep 10]" for args
    by (simp add: poll_trace_def)
  have 1: "wait_for_instance_ready ?p ?i 600 demo_world
     = (Inr True,
        demo_world\<lparr>clock := 38,
          trace := [Gcloud (describe_args ?p ?i ''value(state)''), Sleep 10,
                    Gcloud (describe_args ?p ?i ''value(state)''), Sleep 10,
                    Gcloud (describe_args ?p ?i ''value(state)''), Sleep 10,
                    Gcloud (describe_args ?p ?i ''value(state)'')]\<rparr>)"
    using wait_for_instance_ready_poll [of demo_world ?p ?i, THEN conjunct1, THEN spec, of 3,
        THEN mp, OF hyp]
    by (simp add: demo_world_sel demo_state_answers demo_poll_time numeral_3_eq_3 pt
        del: poll_time.simps)
  have sv: "state_answers ?v ?p ?i
      = (\<lambda>t. \<lparr>returncode = 1, stdout = [], stderr = ''not found'', duration = 290\<rparr>)"
    by (simp add: state_answers_def)
  have ptv: "poll_time (state_answers ?v ?p ?i) t k = t + 300 * of_nat k" for t k
    unfolding sv by (induction k arbitrary: t) (simp_all add: algebra_simps)
  have never: "\<forall>k. poll_time (state_answers ?v ?p ?i) (clock ?v) k - clock ?v < 600
             \<longrightarrow> \<not> observed_runnable (state_answers ?v ?p ?i)
                   (poll_time (state_answers ?v ?p ?i) (clock ?v) k)"
    by (simp add: sv observed_runnable_def strip_def)
  from wait_for_instance_ready_poll [of ?v ?p ?i, THEN conjunct2, THEN conjunct2,
        THEN mp, OF never]
  obtain n where n:
    "wait_for_instance_ready ?p ?i 600 ?v
       = (Inl (TimeoutError ''Instance did not become ready in time''),
          ?v\<lparr>clock := poll_time (state_answers ?v ?p ?i) (clock ?v) n,
            trace := trace ?v @ poll_trace (describe_args ?p ?i ''value(state)'') n\<rparr>)"
    "600 \<le> poll_time (state_answers ?v ?p ?i) (clock ?v) n - clock ?v"
    "\<forall>j<n. poll_time (state_answers ?v ?p ?i) (clock ?v) j - clock ?v < 600"
    by blast
  have "2 \<le> n"
    using n(2) by (simp add: ptv)
  moreover have "\<not> 2 < n"
    using n(3) [THEN spec, of 2] by (simp add: ptv)
  ultimately have n2: "n = Suc (Suc 0)"
    by simp
  have 2: "wait_for_instance_ready ?p ?i 600 ?v
      = (Inl (TimeoutError ''Instance did not become ready in time''),
         ?v\<lparr>clock := 600,
           trace := [Gcloud (describe_args ?p ?i ''value(state)''), Sleep 10,
                     Gcloud (describe_args ?p ?i ''value(state)''), Sleep 10]\<rparr>)"
  proof -
    have c: "poll_time (state_answers ?v ?p ?i) (clock ?v) n = 600"
      unfolding ptv by (simp add: n2 demo_world_sel)
    have t: "poll_trace (describe_args ?p ?i ''value(state)'') n
        = [Gcloud (describe_args ?p ?i ''value(state)''), Sleep 10,
           Gcloud (describe_args ?p ?i ''value(state)''), Sleep 10]"
      by (simp add: n2 poll_trace_def)
    show ?thesis
      unfolding n(1) c t by (simp add: demo_world_sel)
  qed
  show ?thesis
    using 1 2 by (intro conjI)
qed

section \<open>The warehouse initializer\<close>












section \<open>Prices\<close>

lemma random_random_range: "0 \<le> random_random e \<and> random_random e < 1"
proof -
  have "e mod 2 ^ 53 < 2 ^ 53"
    by simp
  then have "(of_nat (e mod 2 ^ 53) :: rat) < of_nat (2 ^ 53)"
    by (simp only: of_nat_less_iff)
  then show ?thesis
    by (simp add: random_random_def)
qed

lemma uniform_range:
  assumes "a \<le> b"
  shows "a \<le> uniform a b e \<and> uniform a b e \<le> b"
proof -
  have r: "0 \<le> random_random e" "random_random e \<le> 1"
    using random_random_range [of e] by simp_all
  have "0 \<le> (b - a) * random_random e"
    using assms r(1) by simp
  moreover have "(b - a) * random_random e \<le> (b - a) * 1"
    using assms r(2) by (intro mult_left_mono) simp_all
  ultimately show ?thesis
    by (simp add: uniform_def)
qed

lemma round_half_even_bounds:
  "(of_int a \<le> x \<longrightarrow> a \<le> round_half_even x) \<and> (x \<le> of_int b \<longrightarrow> round_half_even x \<le> b)"
proof (intro conjI impI)
  assume "of_int a \<le> x"
  then have "a \<le> \<lfloor>x\<rfloor>"
    by (simp add: le_floor_iff)
  then show "a \<le> round_half_even x"
    by (simp add: round_half_even_def Let_def)
next
  assume xb: "x \<le> of_int b"
  then have fb: "\<lfloor>x\<rfloor> \<le> b"
    by (meson floor_le_iff le_less_trans less_add_one of_int_floor_le order.trans floor_mono floor_of_int)
  show "round_half_even x \<le> b"
  proof (cases "\<lfloor>x\<rfloor> = b")
    case True
    then have "x - of_int \<lfloor>x\<rfloor> \<le> 0"
      using xb by simp
    then show ?thesis
      using True by (simp add: round_half_even_def Let_def)
  next
    case False
    then have "\<lfloor>x\<rfloor> + 1 \<le> b"
      using fb by simp
    then show ?thesis
      by (simp add: round_half_even_def Let_def)
  qed
qed

lemma py_round2_range:
  assumes "of_int a \<le> x" and "x \<le> of_int b"
  shows "of_int a \<le> py_round2 x \<and> py_round2 x \<le> of_int b"
proof -
  have "of_int (a * 100) \<le> x * 100" "x * 100 \<le> of_int (b * 100)"
    using assms by simp_all
  then have "a * 100 \<le> round_half_even (x * 100)" "round_half_even (x * 100) \<le> b * 100"
    using round_half_even_bounds [of "a * 100" "x * 100" "b * 100"] by blast+
  then have "(of_int (a * 100) :: rat) \<le> of_int (round_half_even (x * 100))"
    "(of_int (round_half_even (x * 100)) :: rat) \<le> of_int (b * 100)"
    by (simp_all only: of_int_le_iff)
  then show ?thesis
    by (simp add: py_round2_def)
qed

lemma py_round2_hundredths: "py_round2 x * 100 = of_int (round_half_even (x * 100))"
  by (simp add: py_round2_def)

lemma decimal_10_2_hundredths:
  assumes "x * 100 = of_int k"
  shows "decimal_10_2 x = x"
proof -
  have x: "x = of_int k / 100"
    using assms by simp
  have "\<lfloor>(of_int k :: rat) + 1 / 2\<rfloor> = k"
    by (simp add: floor_unique)
  moreover have "\<lfloor>- (of_int k :: rat) + 1 / 2\<rfloor> = - k"
    using floor_unique [of "- k" "- (of_int k :: rat) + 1 / 2"] by simp
  ultimately show ?thesis
    by (simp add: decimal_10_2_def x)
qed

lemma sample_price:
  "10 \<le> py_round2 (uniform 10 500 e) \<and> py_round2 (uniform 10 500 e) \<le> 500
   \<and> py_round2 (uniform 10 500 e) * 100 \<in> \<int>
   \<and> decimal_10_2 (py_round2 (uniform 10 500 e)) = py_round2 (uniform 10 500 e)"
proof -
  have "10 \<le> uniform 10 500 e \<and> uniform 10 500 e \<le> 500"
    by (rule uniform_range) simp
  then have "of_int 10 \<le> py_round2 (uniform 10 500 e) \<and> py_round2 (uniform 10 500 e) \<le> of_int 500"
    by (intro py_round2_range) simp_all
  moreover have "py_round2 (uniform 10 500 e) * 100 \<in> \<int>"
    by (simp only: py_round2_hundredths Ints_of_int)
  moreover have "decimal_10_2 (py_round2 (uniform 10 500 e)) = py_round2 (uniform 10 500 e)"
    using py_round2_hundredths by (rule decimal_10_2_hundredths)
  ultimately show ?thesis
    by simp
qed

section \<open>Seeding\<close>

lemma table_rows_SomeD:
  assumes "table_rows w t = Some rows"
  obtains db tables where "current_db w = Some db" "server w db = Some tables" "tables t = Some rows"
  using assms by (auto simp: table_rows_def split: option.splits)

lemma sample_rows_ids: "map item_id (sample_rows ent d now ids) = ids"
  by (induction ids arbitrary: d) simp_all

lemma sample_rows_length: "length (sample_rows ent d now ids) = length ids"
  by (induction ids arbitrary: d) simp_all

lemma sample_price_small: "\<bar>decimal_10_2 (py_round2 (uniform 10 500 e))\<bar> < 10 ^ 8"
  using sample_price [of e] by simp

lemma insert_samples_ok:
  assumes "\<forall>n. fault_env w n = None"
    and "current_db w = Some db" and "server w db = Some tables" and "tables t = Some rows"
    and "distinct ids" and "set ids \<inter> set (map item_id rows) = {}"
  shows "insert_samples t ids w
     = (Inr (),
        w\<lparr>drawn := drawn w + length ids,
          statements := statements w + length ids,
          trace := trace w
            @ map (insert_event t) (sample_rows (entropy w) (drawn w) (db_now w) ids),
          server := (server w)(db \<mapsto> tables(t \<mapsto>
            rows @ sample_rows (entropy w) (drawn w) (db_now w) ids))\<rparr>)"
  using assms
proof (induction ids arbitrary: w tables rows)
  case Nil
  have "tables(t \<mapsto> rows) = tables"
    using Nil.prems(4) by (rule map_upd_triv)
  moreover have "(server w)(db \<mapsto> tables) = server w"
    using Nil.prems(3) by (rule map_upd_triv)
  ultimately show ?case
    by simp
next
  case (Cons i ids)
  let ?p = "py_round2 (uniform 10 500 (entropy w (drawn w)))"
  let ?row = "\<lparr>item_id = i, description = descriptions ! nat (i - 1), price = ?p,
      created_at = db_now w, updated_at = db_now w\<rparr>"
  let ?w2 = "w\<lparr>drawn := Suc (drawn w), statements := Suc (statements w),
      trace := trace w @ [insert_event t ?row],
      server := (server w)(db \<mapsto> tables(t \<mapsto> rows @ [?row]))\<rparr>"
  have fresh: "i \<notin> set (map item_id rows)"
    using Cons.prems(6) by auto
  have dec: "decimal_10_2 ?p = ?p"
    using sample_price [of "entropy w (drawn w)"] by simp
  have small: "\<not> 10 ^ 8 \<le> \<bar>decimal_10_2 ?p\<bar>"
    using sample_price_small [of "entropy w (drawn w)"] by simp
  have ex: "execute (InsertItem t i (descriptions ! nat (i - 1)) ?p) (w\<lparr>drawn := Suc (drawn w)\<rparr>)
      = (Inr NoResult, ?w2)"
    using Cons.prems(1,2,3,4) fresh small
    by (simp add: execute_def emit_def Let_def table_rows_def set_rows_def db_now_def
        insert_event_def dec)
  have step: "insert_samples t (i # ids) w = insert_samples t ids ?w2"
    by (simp add: random_uniform_def draw_def ex Let_def)
  have "insert_samples t ids ?w2
     = (Inr (),
        ?w2\<lparr>drawn := drawn ?w2 + length ids,
          statements := statements ?w2 + length ids,
          trace := trace ?w2
            @ map (insert_event t) (sample_rows (entropy ?w2) (drawn ?w2) (db_now ?w2) ids),
          server := (server ?w2)(db \<mapsto> (tables(t \<mapsto> rows @ [?row]))(t \<mapsto>
            (rows @ [?row]) @ sample_rows (entropy ?w2) (drawn ?w2) (db_now ?w2) ids))\<rparr>)"
  proof (rule Cons.IH)
    show "\<forall>n. fault_env ?w2 n = None"
      using Cons.prems(1) by simp
    show "current_db ?w2 = Some db"
      using Cons.prems(2) by simp
    show "server ?w2 db = Some (tables(t \<mapsto> rows @ [?row]))"
      by simp
    show "(tables(t \<mapsto> rows @ [?row])) t = Some (rows @ [?row])"
      by simp
    show "distinct ids"
      using Cons.prems(5) by simp
    show "set ids \<inter> set (map item_id (rows @ [?row])) = {}"
      using Cons.prems(5,6) by auto
  qed
  also have "?w2\<lparr>drawn := drawn ?w2 + length ids,
          statements := statements ?w2 + length ids,
          trace := trace ?w2
            @ map (insert_event t) (sample_rows (entropy ?w2) (drawn ?w2) (db_now ?w2) ids),
          server := (server ?w2)(db \<mapsto> (tables(t \<mapsto> rows @ [?row]))(t \<mapsto>
            (rows @ [?row]) @ sample_rows (entropy ?w2) (drawn ?w2) (db_now ?w2) ids))\<rparr>
      = w\<lparr>drawn := drawn w + length (i # ids),
          statements := statements w + length (i # ids),
          trace := trace w
            @ map (insert_event t) (sample_rows (entropy w) (drawn w) (db_now w) (i # ids)),
          server := (server w)(db \<mapsto> tables(t \<mapsto>
            rows @ sample_rows (entropy w) (drawn w) (db_now w) (i # ids)))\<rparr>"
    by (simp add: db_now_def)
  finally show ?case
    unfolding step .
qed

lemma sample_rows_upto:
  "sample_rows ent d now [a..b]
     = map (\<lambda>i. \<lparr>item_id = i, description = descriptions ! nat (i - 1),
                  price = py_round2 (uniform 10 500 (ent (d + nat (i - a)))),
                  created_at = now, updated_at = now\<rparr>) [a..b]"
proof (induction a b arbitrary: d rule: upto.induct)
  case (1 a b)
  show ?case
  proof (cases "a \<le> b")
    case False
    then show ?thesis by simp
  next
    case True
    have idx: "Suc (d + nat (i - (a + 1))) = d + nat (i - a)" if "a + 1 \<le> i" for i
      using that by auto
    have "sample_rows ent (Suc d) now [a + 1..b]
      = map (\<lambda>i. \<lparr>item_id = i, description = descriptions ! nat (i - 1),
                  price = py_round2 (uniform 10 500 (ent (d + nat (i - a)))),
                  created_at = now, updated_at = now\<rparr>) [a + 1..b]"
      unfolding "1.IH" [OF True] by (intro map_cong refl) (simp add: idx)
    then show ?thesis
      using True by (simp add: upto_rec1 [of a b])
  qed
qed

lemma sample_rows_seed:
  "sample_rows (entropy w) (drawn w) (db_now w) [1..10] = map (seed_row w) [1..10]"
  unfolding sample_rows_upto by (simp add: seed_row_def seed_price_def)

lemma upto_1_10: "[1..10] = [1, 2, 3, 4, 5, 6, 7, 8, 9, 10 :: int]"
  by (simp add: upto_rec1)

lemma execute_select_count:
  assumes "fault_env w (statements w) = None" and "table_rows w t = Some rows"
  shows "execute (SelectCount t) w
     = (Inr (CountRow (length rows)),
        w\<lparr>statements := statements w + 1, trace := trace w @ [Execute (SelectCount t)]\<rparr>)"
  using assms by (auto simp: execute_def emit_def Let_def table_rows_def split: option.splits)

lemma execute_truncate:
  assumes "fault_env w (statements w) = None"
    and "current_db w = Some db" and "server w db = Some tables" and "tables t = Some rows"
  shows "execute (TruncateTable t) w
     = (Inr NoResult,
        w\<lparr>statements := statements w + 1, trace := trace w @ [Execute (TruncateTable t)],
          server := (server w)(db \<mapsto> tables(t \<mapsto> []))\<rparr>)"
  using assms by (simp add: execute_def emit_def Let_def table_rows_def set_rows_def)

lemma commit_ok:
  assumes "fault_env w (statements w) = None"
  shows "commit w = (Inr (), w\<lparr>statements := statements w + 1, trace := trace w @ [Commit]\<rparr>)"
  using assms by (simp add: commit_def emit_def Let_def)

lemma and_then_ok: "m w = (Inr x, w') \<Longrightarrow> and_then m f w = f x w'"
  by (simp add: and_then_def)

lemma and_then_raises: "m w = (Inl e, w') \<Longrightarrow> and_then m f w = (Inl e, w')"
  by (simp add: and_then_def)

lemma seed_table_ok:
  assumes nofault: "\<forall>n. fault_env w n = None"
    and db: "current_db w = Some db" and tables: "server w db = Some tables"
    and rows0: "tables t = Some rows0"
  shows "seed_table t w
     = (Inr (),
        w\<lparr>drawn := drawn w + 10,
          statements := statements w + (if rows0 = [] then 12 else 13),
          trace := trace w @ Execute (SelectCount t)
            # (if rows0 = [] then [] else [Execute (TruncateTable t)])
            @ map (insert_event t) (map (seed_row w) [1..10]) @ [Commit],
          server := (server w)(db \<mapsto> tables(t \<mapsto> map (seed_row w) [1..10]))\<rparr>)"
proof -
  let ?w1 = "w\<lparr>statements := statements w + 1, trace := trace w @ [Execute (SelectCount t)]\<rparr>"
  let ?w2 = "if rows0 = [] then ?w1
     else ?w1\<lparr>statements := statements ?w1 + 1,
            trace := trace ?w1 @ [Execute (TruncateTable t)],
            server := (server ?w1)(db \<mapsto> tables(t \<mapsto> []))\<rparr>"
  let ?tables2 = "if rows0 = [] then tables else tables(t \<mapsto> [])"
  have tr: "table_rows w t = Some rows0"
    using db tables rows0 by (simp add: table_rows_def)
  have 1: "execute (SelectCount t) w = (Inr (CountRow (length rows0)), ?w1)"
    using nofault tr by (intro execute_select_count) simp_all
  have 2: "(if 0 < fetchone_count (CountRow (length rows0)) then execute (TruncateTable t)
            else ret NoResult) ?w1 = (Inr NoResult, ?w2)"
  proof (cases "rows0 = []")
    case True
    then show ?thesis
      by (simp add: fetchone_count_def ret_def)
  next
    case False
    have "execute (TruncateTable t) ?w1
       = (Inr NoResult,
          ?w1\<lparr>statements := statements ?w1 + 1,
            trace := trace ?w1 @ [Execute (TruncateTable t)],
            server := (server ?w1)(db \<mapsto> tables(t \<mapsto> []))\<rparr>)"
      using nofault db tables rows0 by (intro execute_truncate) simp_all
    then show ?thesis
      using False by (simp add: fetchone_count_def)
  qed
  have 3: "insert_samples t [1..10] ?w2
     = (Inr (),
        ?w2\<lparr>drawn := drawn ?w2 + length [1..10::int],
          statements := statements ?w2 + length [1..10::int],
          trace := trace ?w2
            @ map (insert_event t) (sample_rows (entropy ?w2) (drawn ?w2) (db_now ?w2) [1..10]),
          server := (server ?w2)(db \<mapsto> ?tables2(t \<mapsto>
            [] @ sample_rows (entropy ?w2) (drawn ?w2) (db_now ?w2) [1..10]))\<rparr>)"
  proof (rule insert_samples_ok)
    show "\<forall>n. fault_env ?w2 n = None"
      using nofault by simp
    show "current_db ?w2 = Some db"
      using db by simp
    show "server ?w2 db = Some ?tables2"
      using tables by simp
    show "?tables2 t = Some []"
      using rows0 by simp
    show "distinct [1..10::int]"
      by simp
    show "set [1..10::int] \<inter> set (map item_id []) = {}"
      by simp
  qed
  have same: "entropy ?w2 = entropy w" "drawn ?w2 = drawn w" "db_now ?w2 = db_now w"
    by (simp_all add: db_now_def)
  let ?w3 = "w\<lparr>drawn := drawn w + 10,
          statements := statements w + (if rows0 = [] then 11 else 12),
          trace := trace w @ Execute (SelectCount t)
            # (if rows0 = [] then [] else [Execute (TruncateTable t)])
            @ map (insert_event t) (map (seed_row w) [1..10]),
          server := (server w)(db \<mapsto> tables(t \<mapsto> map (seed_row w) [1..10]))\<rparr>"
  have 3: "insert_samples t [1..10] ?w2 = (Inr (), ?w3)"
    unfolding 3 same sample_rows_seed by (simp add: upto_1_10)
  have 4: "commit ?w3 = (Inr (), ?w3\<lparr>statements := statements ?w3 + 1,
      trace := trace ?w3 @ [Commit]\<rparr>)"
    using nofault by (intro commit_ok) simp
  have "seed_table t w
      = and_then (if 0 < fetchone_count (CountRow (length rows0))
                  then execute (TruncateTable t) else ret NoResult)
          (\<lambda>_. and_then (insert_samples t [1..10]) (\<lambda>_. commit)) ?w1"
    unfolding seed_table_def
    by (rule and_then_ok [where m = "execute (SelectCount t)" and w = w, OF 1])
  also have "\<dots> = and_then (insert_samples t [1..10]) (\<lambda>_. commit) ?w2"
    by (rule and_then_ok [where w = ?w1 and m = "if 0 < fetchone_count (CountRow (length rows0))
                  then execute (TruncateTable t) else ret NoResult", OF 2])
  also have "\<dots> = commit ?w3"
    by (rule and_then_ok [where m = "insert_samples t [1..10]" and w = ?w2, OF 3])
  also have "\<dots> = (Inr (), ?w3\<lparr>statements := statements ?w3 + 1,
      trace := trace ?w3 @ [Commit]\<rparr>)"
    by (rule 4)
  also have "?w3\<lparr>statements := statements ?w3 + 1, trace := trace ?w3 @ [Commit]\<rparr>
      = w\<lparr>drawn := drawn w + 10,
          statements := statements w + (if rows0 = [] then 12 else 13),
          trace := trace w @ Execute (SelectCount t)
            # (if rows0 = [] then [] else [Execute (TruncateTable t)])
            @ map (insert_event t) (map (seed_row w) [1..10]) @ [Commit],
          server := (server w)(db \<mapsto> tables(t \<mapsto> map (seed_row w) [1..10]))\<rparr>"
    by simp
  finally show ?thesis .
qed

lemma seed_rows_prices:
  "\<forall>r\<in>set (map (seed_row w) [1..10]). 10 \<le> price r \<and> price r \<le> 500 \<and> price r * 100 \<in> \<int>"
  using sample_price by (simp add: seed_row_def seed_price_def)

lemma seed_rows_ids: "map item_id (map (seed_row w) [1..10]) = [1, 2, 3, 4, 5, 6, 7, 8, 9, 10]"
  by (simp add: seed_row_def upto_1_10)

lemma seed_rows_descriptions:
  "map description (map (seed_row w) [1..10])
     = [''Wireless Mouse'', ''Mechanical Keyboard'', ''USB-C Hub'', ''Laptop Stand'',
        ''Webcam HD'', ''Noise-Canceling Headphones'', ''Portable SSD'',
        ''Monitor Light Bar'', ''Ergonomic Chair'', ''Standing Desk Mat'']"
  by (simp add: seed_row_def upto_1_10 descriptions_def)

text \<open>
  Claim C1. In a session whose selected database holds the table (the table creation
  succeeded), with whatever rows, and whose statements do not fail, the seeding step
  succeeds and leaves exactly the rows \<open>seed_row w 1\<close> to \<open>seed_row w 10\<close> in the table:
  10 rows, ids 1 to 10 in ascending order, descriptions the fixed list in order, each
  price between 10.00 and 500.00 and a whole number of hundredths. The statements sent
  are the count, a truncate exactly when the table held a row, the ten inserts in
  order, and one commit, which comes last.
\<close>

theorem seed_table_rows:
  assumes "table_rows w t = Some rows0" and "\<forall>n. fault_env w n = None"
  shows "fst (seed_table t w) = Inr ()
   \<and> table_rows (snd (seed_table t w)) t = Some (map (seed_row w) [1..10])
   \<and> trace (snd (seed_table t w))
       = trace w @ Execute (SelectCount t)
           # (if rows0 = [] then [] else [Execute (TruncateTable t)])
           @ map (insert_event t) (map (seed_row w) [1..10]) @ [Commit]
   \<and> filter (\<lambda>ev. ev = Commit) (drop (length (trace w)) (trace (snd (seed_table t w)))) = [Commit]
   \<and> length (map (seed_row w) [1..10]) = 10
   \<and> map item_id (map (seed_row w) [1..10]) = [1, 2, 3, 4, 5, 6, 7, 8, 9, 10]
   \<and> map description (map (seed_row w) [1..10])
       = [''Wireless Mouse'', ''Mechanical Keyboard'', ''USB-C Hub'', ''Laptop Stand'',
          ''Webcam HD'', ''Noise-Canceling Headphones'', ''Portable SSD'',
          ''Monitor Light Bar'', ''Ergonomic Chair'', ''Standing Desk Mat'']
   \<and> (\<forall>r\<in>set (map (seed_row w) [1..10]).
         10 \<le> price r \<and> price r \<le> 500 \<and> price r * 100 \<in> \<int>)"
proof -
  from assms(1) obtain db tables where
    db: "current_db w = Some db" "server w db = Some tables" "tables t = Some rows0"
    by (rule table_rows_SomeD)
  note run = seed_table_ok [OF assms(2) db]
  have 1: "fst (seed_table t w) = Inr ()"
    by (simp add: run)
  have 2: "table_rows (snd (seed_table t w)) t = Some (map (seed_row w) [1..10])"
    by (simp add: run table_rows_def db)
  have 3: "trace (snd (seed_table t w))
       = trace w @ Execute (SelectCount t)
           # (if rows0 = [] then [] else [Execute (TruncateTable t)])
           @ map (insert_event t) (map (seed_row w) [1..10]) @ [Commit]"
    by (simp add: run)
  have 4: "filter (\<lambda>ev. ev = Commit) (drop (length (trace w)) (trace (snd (seed_table t w))))
      = [Commit]"
    unfolding 3 by (simp add: insert_event_def)
  have 5: "length (map (seed_row w) [1..10]) = 10"
    by simp
  show ?thesis
    using 1 2 3 4 5 seed_rows_ids [of w] seed_rows_descriptions [of w] seed_rows_prices [of w]
    by (intro conjI)
qed

lemma demo_shop_sel:
  "current_db demo_shop = Some ''shop''" "fault_env demo_shop = (\<lambda>n. None)"
  "trace demo_shop = []" "table_rows demo_shop ''items'' = Some demo_rows"
  "drawn demo_shop = 0" "statements demo_shop = 0" "running demo_shop = True"
  "signal_env demo_shop = (\<lambda>n. False)" "step demo_shop = 0"
  "entropy demo_shop = entropy demo_world" "clock demo_shop = 0"
  by (simp_all add: demo_shop_def demo_world_sel table_rows_def)

lemma demo_rows_nonempty: "demo_rows \<noteq> []"
  by (simp add: demo_rows_def upto_1_10)

text \<open>The theorem at work, on a table that already holds ten rows.\<close>

theorem seed_table_rows_witness:
  "fst (seed_table ''items'' demo_shop) = Inr ()
   \<and> table_rows (snd (seed_table ''items'' demo_shop)) ''items''
       = Some (map (seed_row demo_shop) [1..10])
   \<and> trace (snd (seed_table ''items'' demo_shop))
       = Execute (SelectCount ''items'') # Execute (TruncateTable ''items'')
           # map (insert_event ''items'') (map (seed_row demo_shop) [1..10]) @ [Commit]
   \<and> map item_id (map (seed_row demo_shop) [1..10]) = [1, 2, 3, 4, 5, 6, 7, 8, 9, 10]"
proof -
  have a: "table_rows demo_shop ''items'' = Some demo_rows"
    by (rule demo_shop_sel)
  have b: "\<forall>n. fault_env demo_shop n = None"
    by (simp add: demo_shop_sel)
  show ?thesis
    using seed_table_rows [OF a b] by (simp add: demo_shop_sel demo_rows_nonempty)
qed

section \<open>The mutation step\<close>

lemma chosen_id_range: "1 \<le> chosen_id w \<and> chosen_id w \<le> 10"
proof -
  have "entropy w (drawn w) mod 10 < 10"
    by simp
  then show ?thesis
    unfolding chosen_id_def by linarith
qed

lemma random_randint_1_10:
  "random_randint 1 10 w = (chosen_id w, w\<lparr>drawn := drawn w + 1\<rparr>)"
  by (simp add: random_randint_def draw_def chosen_id_def)

lemma execute_select_price_description:
  assumes "fault_env w (statements w) = None" and "table_rows w t = Some rows"
  shows "execute (SelectPriceDescription t i) w
     = (Inr (PriceDescriptionRows
               (map (\<lambda>r. (price r, description r)) (filter (\<lambda>r. item_id r = i) rows))),
        w\<lparr>statements := statements w + 1,
          trace := trace w @ [Execute (SelectPriceDescription t i)]\<rparr>)"
  using assms by (auto simp: execute_def emit_def Let_def table_rows_def split: option.splits)

lemma execute_update_price:
  assumes "fault_env w (statements w) = None"
    and "current_db w = Some db" and "server w db = Some tables" and "tables t = Some rows"
    and "decimal_10_2 p = p" and "\<bar>p\<bar> < 10 ^ 8"
  shows "execute (UpdatePrice t i p) w
     = (Inr NoResult,
        w\<lparr>statements := statements w + 1, trace := trace w @ [Execute (UpdatePrice t i p)],
          server := (server w)(db \<mapsto> tables(t \<mapsto> map (reprice i p (db_now w)) rows))\<rparr>)"
  using assms
  by (simp add: execute_def emit_def Let_def table_rows_def set_rows_def db_now_def
      reprice_def [abs_def] cong: if_cong)

lemma table_rows_drawn: "table_rows (w\<lparr>drawn := d\<rparr>) t = table_rows w t"
  by (simp add: table_rows_def split: option.splits)

lemma update_random_record_missing:
  assumes "\<forall>n. fault_env w n = None" and "table_rows w t = Some rows"
    and "chosen_id w \<notin> set (map item_id rows)"
  shows "update_random_record t w
     = (Inr None,
        w\<lparr>drawn := drawn w + 1, statements := statements w + 1,
          trace := trace w @ [Execute (SelectPriceDescription t (chosen_id w))]\<rparr>)"
proof -
  let ?w1 = "w\<lparr>drawn := drawn w + 1\<rparr>"
  have none: "filter (\<lambda>r. item_id r = chosen_id w) rows = []"
    using assms(3) by (force simp: filter_empty_conv)
  have tr1: "table_rows ?w1 t = Some rows"
    using assms(2) by (simp add: table_rows_drawn)
  have "execute (SelectPriceDescription t (chosen_id w)) ?w1
     = (Inr (PriceDescriptionRows []),
        ?w1\<lparr>statements := statements ?w1 + 1,
          trace := trace ?w1 @ [Execute (SelectPriceDescription t (chosen_id w))]\<rparr>)"
    using execute_select_price_description [OF _ tr1, of "chosen_id w"] assms(1)
    by (simp add: none)
  then show ?thesis
    by (simp add: update_random_record_def random_randint_1_10 fetchone_def)
qed

lemma update_random_record_found:
  assumes nofault: "\<forall>n. fault_env w n = None"
    and db: "current_db w = Some db" "server w db = Some tables" "tables t = Some rows"
    and r: "find (\<lambda>r. item_id r = chosen_id w) rows = Some r"
  shows "update_random_record t w
     = (Inr (Some \<lparr>result_id = chosen_id w, result_description = description r,
                   old_price = price r, new_price = chosen_price w, timestamp = clock w\<rparr>),
        w\<lparr>drawn := drawn w + 2, statements := statements w + 2,
          trace := trace w @ [Execute (SelectPriceDescription t (chosen_id w)),
                              Execute (UpdatePrice t (chosen_id w) (chosen_price w))],
          server := (server w)(db \<mapsto> tables(t \<mapsto>
                      map (reprice (chosen_id w) (chosen_price w) (db_now w)) rows))\<rparr>)"
proof -
  let ?w1 = "w\<lparr>drawn := drawn w + 1\<rparr>"
  let ?w2 = "?w1\<lparr>statements := statements ?w1 + 1,
          trace := trace ?w1 @ [Execute (SelectPriceDescription t (chosen_id w))]\<rparr>"
  let ?w3 = "?w2\<lparr>drawn := drawn ?w2 + 1\<rparr>"
  have tr1: "table_rows ?w1 t = Some rows"
    using db by (simp add: table_rows_def)
  from r obtain rest where some: "filter (\<lambda>r. item_id r = chosen_id w) rows = r # rest"
    by (induction rows) (auto split: if_splits)
  have sel: "execute (SelectPriceDescription t (chosen_id w)) ?w1
     = (Inr (PriceDescriptionRows ((price r, description r)
               # map (\<lambda>r. (price r, description r)) rest)), ?w2)"
    using execute_select_price_description [OF _ tr1, of "chosen_id w"] nofault
    by (simp add: some)
  have pr: "decimal_10_2 (chosen_price w) = chosen_price w" "\<bar>chosen_price w\<bar> < 10 ^ 8"
    using sample_price [of "entropy w (drawn w + 1)"] by (simp_all add: chosen_price_def)
  have upd: "execute (UpdatePrice t (chosen_id w) (chosen_price w)) ?w3
     = (Inr NoResult,
        ?w3\<lparr>statements := statements ?w3 + 1,
          trace := trace ?w3 @ [Execute (UpdatePrice t (chosen_id w) (chosen_price w))],
          server := (server ?w3)(db \<mapsto> tables(t \<mapsto>
                      map (reprice (chosen_id w) (chosen_price w) (db_now ?w3)) rows))\<rparr>)"
    using nofault db pr by (intro execute_update_price) simp_all
  have u: "random_uniform 10 500 ?w2 = (uniform 10 500 (entropy w (drawn w + 1)), ?w3)"
    by (simp add: random_uniform_def draw_def)
  show ?thesis
    using sel u upd
    by (simp add: update_random_record_def random_randint_1_10 fetchone_def chosen_price_def
        db_now_def)
qed

lemma find_Some_row:
  assumes "i \<in> set (map item_id rows)"
  obtains r where "find (\<lambda>r. item_id r = i) rows = Some r" "r \<in> set rows" "item_id r = i"
proof -
  from assms have "find (\<lambda>r. item_id r = i) rows \<noteq> None"
    by (auto simp: find_None_iff)
  then obtain r where r: "find (\<lambda>r. item_id r = i) rows = Some r"
    by auto
  then have "r \<in> set rows" "item_id r = i"
    by (auto simp: find_Some_iff)
  with r show ?thesis
    by (rule that)
qed

lemma distinct_ids_one_row:
  assumes "distinct (map item_id rows)" and "i \<in> set (map item_id rows)"
  shows "length (filter (\<lambda>r. item_id r = i) rows) = 1"
  using assms
proof (induction rows)
  case Nil
  then show ?case by simp
next
  case (Cons r rows)
  show ?case
  proof (cases "item_id r = i")
    case True
    then have "i \<notin> set (map item_id rows)"
      using Cons.prems(1) by auto
    then have "filter (\<lambda>r. item_id r = i) rows = []"
      by (force simp: filter_empty_conv)
    then show ?thesis
      using True by simp
  next
    case False
    then show ?thesis
      using Cons by auto
  qed
qed

lemma reprice_frame:
  "length (map (reprice i p now) rows) = length rows"
  "map item_id (map (reprice i p now) rows) = map item_id rows"
  "map description (map (reprice i p now) rows) = map description rows"
  "map created_at (map (reprice i p now) rows) = map created_at rows"
  by (simp_all add: reprice_def)

text \<open>
  Claim C2. In a session whose table holds rows with distinct ids (\<open>id\<close> is the primary
  key) and whose statements do not fail, \<open>update_random_record\<close> chooses an id from 1 to
  10. When a row has that id, it is the only one, and the step returns its id,
  description and old price with the new price; the table afterwards holds the same
  rows in the same order, with the price and \<open>updated_at\<close> of that row replaced and every
  other row, and every \<open>id\<close>, \<open>description\<close> and \<open>created_at\<close>, unchanged: no row is
  inserted or deleted. The new price lies between 10.00 and 500.00 and is a whole
  number of hundredths. When no row has the chosen id, the step returns \<open>None\<close> without
  raising, sends only the select and leaves the table as it was.
\<close>

theorem update_random_record_frame:
  assumes "table_rows w t = Some rows" and "distinct (map item_id rows)"
    and "\<forall>n. fault_env w n = None"
  shows "1 \<le> chosen_id w \<and> chosen_id w \<le> 10
   \<and> (chosen_id w \<in> set (map item_id rows) \<longrightarrow>
        (\<exists>r\<in>set rows. item_id r = chosen_id w
           \<and> fst (update_random_record t w)
               = Inr (Some \<lparr>result_id = chosen_id w, result_description = description r,
                             old_price = price r, new_price = chosen_price w,
                             timestamp = clock w\<rparr>))
        \<and> length (filter (\<lambda>r. item_id r = chosen_id w) rows) = 1
        \<and> table_rows (snd (update_random_record t w)) t
            = Some (map (reprice (chosen_id w) (chosen_price w) (db_now w)) rows)
        \<and> trace (snd (update_random_record t w))
            = trace w @ [Execute (SelectPriceDescription t (chosen_id w)),
                         Execute (UpdatePrice t (chosen_id w) (chosen_price w))])
   \<and> (chosen_id w \<notin> set (map item_id rows) \<longrightarrow>
        fst (update_random_record t w) = Inr None
        \<and> table_rows (snd (update_random_record t w)) t = Some rows
        \<and> trace (snd (update_random_record t w))
            = trace w @ [Execute (SelectPriceDescription t (chosen_id w))])
   \<and> length (map (reprice (chosen_id w) (chosen_price w) (db_now w)) rows) = length rows
   \<and> map item_id (map (reprice (chosen_id w) (chosen_price w) (db_now w)) rows)
       = map item_id rows
   \<and> map description (map (reprice (chosen_id w) (chosen_price w) (db_now w)) rows)
       = map description rows
   \<and> map created_at (map (reprice (chosen_id w) (chosen_price w) (db_now w)) rows)
       = map created_at rows
   \<and> (\<forall>r\<in>set rows. reprice (chosen_id w) (chosen_price w) (db_now w) r
         = (if item_id r = chosen_id w
            then r\<lparr>price := chosen_price w, updated_at := db_now w\<rparr> else r))
   \<and> 10 \<le> chosen_price w \<and> chosen_price w \<le> 500 \<and> chosen_price w * 100 \<in> \<int>"
proof -
  from assms(1) obtain db tables where
    db: "current_db w = Some db" "server w db = Some tables" "tables t = Some rows"
    by (rule table_rows_SomeD)
  have found: "(\<exists>r\<in>set rows. item_id r = chosen_id w
           \<and> fst (update_random_record t w)
               = Inr (Some \<lparr>result_id = chosen_id w, result_description = description r,
                             old_price = price r, new_price = chosen_price w,
                             timestamp = clock w\<rparr>))
        \<and> length (filter (\<lambda>r. item_id r = chosen_id w) rows) = 1
        \<and> table_rows (snd (update_random_record t w)) t
            = Some (map (reprice (chosen_id w) (chosen_price w) (db_now w)) rows)
        \<and> trace (snd (update_random_record t w))
            = trace w @ [Execute (SelectPriceDescription t (chosen_id w)),
                         Execute (UpdatePrice t (chosen_id w) (chosen_price w))]"
    if mem: "chosen_id w \<in> set (map item_id rows)"
  proof -
    from mem obtain r where r: "find (\<lambda>r. item_id r = chosen_id w) rows = Some r"
      "r \<in> set rows" "item_id r = chosen_id w"
      by (rule find_Some_row)
    note run = update_random_record_found [OF assms(3) db r(1)]
    have "fst (update_random_record t w)
               = Inr (Some \<lparr>result_id = chosen_id w, result_description = description r,
                             old_price = price r, new_price = chosen_price w,
                             timestamp = clock w\<rparr>)"
      by (simp add: run)
    with r(2,3) have 1: "\<exists>r\<in>set rows. item_id r = chosen_id w
           \<and> fst (update_random_record t w)
               = Inr (Some \<lparr>result_id = chosen_id w, result_description = description r,
                             old_price = price r, new_price = chosen_price w,
                             timestamp = clock w\<rparr>)"
      by blast
    have 2: "length (filter (\<lambda>r. item_id r = chosen_id w) rows) = 1"
      using assms(2) mem by (rule distinct_ids_one_row)
    have 3: "table_rows (snd (update_random_record t w)) t
            = Some (map (reprice (chosen_id w) (chosen_price w) (db_now w)) rows)"
      by (simp add: run table_rows_def db)
    have 4: "trace (snd (update_random_record t w))
            = trace w @ [Execute (SelectPriceDescription t (chosen_id w)),
                         Execute (UpdatePrice t (chosen_id w) (chosen_price w))]"
      by (simp add: run)
    show ?thesis
      using 1 2 3 4 by (intro conjI)
  qed
  have missing: "fst (update_random_record t w) = Inr None
        \<and> table_rows (snd (update_random_record t w)) t = Some rows
        \<and> trace (snd (update_random_record t w))
            = trace w @ [Execute (SelectPriceDescription t (chosen_id w))]"
    if "chosen_id w \<notin> set (map item_id rows)"
    using update_random_record_missing [OF assms(3,1) that]
    by (simp add: table_rows_def db)
  have pr: "10 \<le> chosen_price w" "chosen_price w \<le> 500" "chosen_price w * 100 \<in> \<int>"
    using sample_price [of "entropy w (drawn w + 1)"] by (simp_all add: chosen_price_def)
  have each: "\<forall>r\<in>set rows. reprice (chosen_id w) (chosen_price w) (db_now w) r
         = (if item_id r = chosen_id w
            then r\<lparr>price := chosen_price w, updated_at := db_now w\<rparr> else r)"
    by (simp add: reprice_def)
  show ?thesis
    using chosen_id_range [of w] found missing reprice_frame each pr
    by (intro conjI impI) blast+
qed

lemma demo_rows_ids: "map item_id demo_rows = [1, 2, 3, 4, 5, 6, 7, 8, 9, 10]"
  by (simp add: demo_rows_def upto_1_10)

text \<open>
  The theorem at work: in the concrete world the step chooses id 4, and on an empty
  table it finds no row.
\<close>

theorem update_random_record_frame_witness:
  "chosen_id demo_shop = 4
   \<and> fst (update_random_record ''items'' demo_shop)
       = Inr (Some \<lparr>result_id = 4, result_description = ''Laptop Stand'', old_price = 24,
                     new_price = chosen_price demo_shop, timestamp = 0\<rparr>)
   \<and> map item_id (the (table_rows (snd (update_random_record ''items'' demo_shop)) ''items''))
       = [1, 2, 3, 4, 5, 6, 7, 8, 9, 10]
   \<and> fst (update_random_record ''items''
              (demo_shop\<lparr>server := [''shop'' \<mapsto> [''items'' \<mapsto> []]]\<rparr>)) = Inr None"
proof -
  let ?e = "demo_shop\<lparr>server := [''shop'' \<mapsto> [''items'' \<mapsto> []]]\<rparr>"
  have id: "chosen_id demo_shop = 4"
    by (simp add: chosen_id_def demo_shop_sel demo_world_sel)
  have a: "table_rows demo_shop ''items'' = Some demo_rows"
    by (rule demo_shop_sel)
  have b: "distinct (map item_id demo_rows)"
    by (simp add: demo_rows_ids)
  have c: "\<forall>n. fault_env demo_shop n = None"
    by (simp add: demo_shop_sel)
  have mem: "chosen_id demo_shop \<in> set (map item_id demo_rows)"
    by (simp add: id demo_rows_ids)
  note t = update_random_record_frame [OF a b c]
  from t mem have "\<exists>r\<in>set demo_rows. item_id r = chosen_id demo_shop
           \<and> fst (update_random_record ''items'' demo_shop)
               = Inr (Some \<lparr>result_id = chosen_id demo_shop,
                             result_description = description r,
                             old_price = price r, new_price = chosen_price demo_shop,
                             timestamp = clock demo_shop\<rparr>)"
    by blast
  then have 1: "fst (update_random_record ''items'' demo_shop)
       = Inr (Some \<lparr>result_id = 4, result_description = ''Laptop Stand'', old_price = 24,
                     new_price = chosen_price demo_shop, timestamp = 0\<rparr>)"
    by (simp add: id demo_rows_def upto_1_10 descriptions_def demo_shop_sel)
  from t mem have "table_rows (snd (update_random_record ''items'' demo_shop)) ''items''
      = Some (map (reprice (chosen_id demo_shop) (chosen_price demo_shop) (db_now demo_shop))
                demo_rows)"
    by blast
  then have 2: "map item_id (the (table_rows (snd (update_random_record ''items'' demo_shop))
        ''items'')) = [1, 2, 3, 4, 5, 6, 7, 8, 9, 10]"
    by (simp add: reprice_frame demo_rows_ids del: map_map)
  have a': "table_rows ?e ''items'' = Some []"
    by (simp add: table_rows_def demo_shop_sel)
  have c': "\<forall>n. fault_env ?e n = None"
    by (simp add: demo_shop_sel)
  have 3: "fst (update_random_record ''items'' ?e) = Inr None"
    using update_random_record_frame [OF a' _ c'] by simp
  show ?thesis
    using id 1 2 3 by (intro conjI)
qed

section \<open>The mutation loop\<close>

lemma mutation_loop_stopped:
  "\<not> running w \<Longrightarrow> mutation_loop t c w = Some (Inr (), c, w)"
  by (subst mutation_loop.simps) simp


lemma mutation_loop_iterates:
  "running w \<Longrightarrow> update_random_record t w = (Inr res, w1)
     \<Longrightarrow> mutation_loop t c w
         = mutation_loop t (if res \<noteq> None then c + 1 else c)
             (deliver_signal
                (sleep (uniform 1 3 (entropy w1 (drawn w1))) (w1\<lparr>drawn := drawn w1 + 1\<rparr>)))"
  by (subst mutation_loop.simps) (simp add: random_uniform_def draw_def)

lemma mutation_steps_append:
  "mutation_steps (xs @ ys) = mutation_steps xs + mutation_steps ys"
  by (simp add: mutation_steps_def)

lemma table_rows_cong:
  "current_db w' = current_db w \<Longrightarrow> server w' = server w \<Longrightarrow> table_rows w' t = table_rows w t"
  by (simp add: table_rows_def split: option.splits)

lemma update_random_record_step:
  assumes "\<forall>n. fault_env w n = None" and "table_rows w t = Some rows"
  shows "\<exists>res w1 rows'. update_random_record t w = (Inr res, w1)
     \<and> table_rows w1 t = Some rows' \<and> fault_env w1 = fault_env w
     \<and> signal_env w1 = signal_env w \<and> step w1 = step w \<and> running w1 = running w
     \<and> mutation_steps (trace w1) = Suc (mutation_steps (trace w))"
proof -
  from assms(2) obtain db tables where
    db: "current_db w = Some db" "server w db = Some tables" "tables t = Some rows"
    by (rule table_rows_SomeD)
  show ?thesis
  proof (cases "chosen_id w \<in> set (map item_id rows)")
    case True
    then obtain r where r: "find (\<lambda>r. item_id r = chosen_id w) rows = Some r"
      by (rule find_Some_row)
    show ?thesis
      unfolding update_random_record_found [OF assms(1) db r]
      by (simp add: table_rows_def db mutation_steps_def)
  next
    case False
    show ?thesis
      unfolding update_random_record_missing [OF assms False]
      by (simp add: table_rows_def db mutation_steps_def)
  qed
qed

lemma mutation_loop_stops:
  assumes "\<forall>n. fault_env w n = None" and "table_rows w t = Some rows" and "running w"
    and "step w \<le> n" and "signal_env w n" and "\<forall>m. step w \<le> m \<and> m < n \<longrightarrow> \<not> signal_env w m"
  shows "\<exists>c' w'. mutation_loop t c w = Some (Inr (), c', w') \<and> \<not> running w' \<and> step w' = Suc n
     \<and> mutation_steps (trace w') = mutation_steps (trace w) + (Suc n - step w)"
  using assms
proof (induction "n - step w" arbitrary: c w rows)
  case 0
  then have at: "step w = n"
    by simp
  from update_random_record_step [OF "0.prems"(1,2)] obtain res w1 rows' where
    u: "update_random_record t w = (Inr res, w1)" "table_rows w1 t = Some rows'"
      "fault_env w1 = fault_env w" "signal_env w1 = signal_env w" "step w1 = step w"
      "running w1 = running w" "mutation_steps (trace w1) = Suc (mutation_steps (trace w))"
    by blast
  let ?w3 = "deliver_signal
      (sleep (uniform 1 3 (entropy w1 (drawn w1))) (w1\<lparr>drawn := drawn w1 + 1\<rparr>))"
  have w3: "\<not> running ?w3" "step ?w3 = Suc n"
    "mutation_steps (trace ?w3) = Suc (mutation_steps (trace w))"
    using u "0.prems"(5) at
    by (simp_all add: deliver_signal_def signal_handler_def sleep_def emit_def
        mutation_steps_def)
  have "mutation_loop t c w = Some (Inr (), if res \<noteq> None then c + 1 else c, ?w3)"
    unfolding mutation_loop_iterates [OF "0.prems"(3) u(1)]
    using w3(1) by (rule mutation_loop_stopped)
  then show ?case
    using w3 at by auto
next
  case (Suc k)
  then have before: "step w < n"
    by simp
  from update_random_record_step [OF Suc.prems(1,2)] obtain res w1 rows' where
    u: "update_random_record t w = (Inr res, w1)" "table_rows w1 t = Some rows'"
      "fault_env w1 = fault_env w" "signal_env w1 = signal_env w" "step w1 = step w"
      "running w1 = running w" "mutation_steps (trace w1) = Suc (mutation_steps (trace w))"
    by blast
  let ?w3 = "deliver_signal
      (sleep (uniform 1 3 (entropy w1 (drawn w1))) (w1\<lparr>drawn := drawn w1 + 1\<rparr>))"
  have quiet: "\<not> signal_env w (step w)"
    using Suc.prems(6) before by simp
  have "table_rows ?w3 t = table_rows w1 t"
    by (rule table_rows_cong)
      (simp_all add: deliver_signal_def signal_handler_def sleep_def emit_def)
  then have w3: "running ?w3" "step ?w3 = Suc (step w)" "fault_env ?w3 = fault_env w"
    "signal_env ?w3 = signal_env w" "table_rows ?w3 t = Some rows'"
    "mutation_steps (trace ?w3) = Suc (mutation_steps (trace w))"
    using u quiet Suc.prems(3)
    by (simp_all add: deliver_signal_def signal_handler_def sleep_def emit_def
        mutation_steps_def)
  have "\<exists>c' w'. mutation_loop t (if res \<noteq> None then c + 1 else c) ?w3 = Some (Inr (), c', w')
     \<and> \<not> running w' \<and> step w' = Suc n
     \<and> mutation_steps (trace w') = mutation_steps (trace ?w3) + (Suc n - step ?w3)"
  proof (rule Suc.hyps(1))
    show "k = n - step ?w3"
      using Suc.hyps(2) w3(2) by simp
    show "\<forall>n. fault_env ?w3 n = None"
      using Suc.prems(1) w3(3) by simp
    show "table_rows ?w3 t = Some rows'"
      by (rule w3(5))
    show "running ?w3"
      by (rule w3(1))
    show "step ?w3 \<le> n"
      using before w3(2) by simp
    show "signal_env ?w3 n"
      using Suc.prems(5) w3(4) by simp
    show "\<forall>m. step ?w3 \<le> m \<and> m < n \<longrightarrow> \<not> signal_env ?w3 m"
      using Suc.prems(6) w3(2,4) by simp
  qed
  then obtain c' w' where r: "mutation_loop t (if res \<noteq> None then c + 1 else c) ?w3
      = Some (Inr (), c', w')" "\<not> running w'" "step w' = Suc n"
      "mutation_steps (trace w') = mutation_steps (trace ?w3) + (Suc n - step ?w3)"
    by blast
  have "mutation_loop t c w = Some (Inr (), c', w')"
    unfolding mutation_loop_iterates [OF Suc.prems(3) u(1)] by (rule r(1))
  moreover have "mutation_steps (trace w') = mutation_steps (trace w) + (Suc n - step w)"
    using r(4) w3(2,6) before by simp
  ultimately show ?case
    using r(2,3) by blast
qed

lemma keeps_control_lift: "keeps_control (lift r)"
  by (simp add: keeps_control_def lift_def)

lemma keeps_control_ret: "keeps_control (ret x)"
  by (simp add: keeps_control_def ret_def)

lemma keeps_control_and_then:
  assumes "keeps_control m" and "\<And>x. keeps_control (f x)"
  shows "keeps_control (and_then m f)"
proof -
  have "running (snd (and_then m f w)) = running w \<and> signal_env (snd (and_then m f w)) = signal_env w
      \<and> step (snd (and_then m f w)) = step w \<and> fault_env (snd (and_then m f w)) = fault_env w" for w
  proof (cases "m w")
    case (Pair r w1)
    from assms(1) have "running (snd (m w)) = running w \<and> signal_env (snd (m w)) = signal_env w
        \<and> step (snd (m w)) = step w \<and> fault_env (snd (m w)) = fault_env w"
      unfolding keeps_control_def by (rule spec)
    then have m: "running w1 = running w" "signal_env w1 = signal_env w" "step w1 = step w"
      "fault_env w1 = fault_env w"
      by (simp_all add: Pair)
    show ?thesis
    proof (cases r)
      case (Inl e)
      then show ?thesis
        using Pair m by (simp add: and_then_def)
    next
      case (Inr x)
      have "and_then m f w = f x w1"
        using Pair Inr by (simp add: and_then_def)
      then show ?thesis
        using assms(2) [of x] m by (simp add: keeps_control_def)
    qed
  qed
  then show ?thesis
    by (simp add: keeps_control_def)
qed

lemma keeps_control_credentials:
  "keeps_control (\<lambda>w. (Inr (), activate_credentials (expanduser sa w) w))"
  by (simp add: keeps_control_def activate_credentials_def)

lemma keeps_control_update_get_instance_ip: "keeps_control (update_get_instance_ip p i)"
  by (simp add: keeps_control_def update_get_instance_ip_def emit_def Let_def)

lemma keeps_control_load_password: "keeps_control load_password"
  by (simp add: keeps_control_def load_password_def split: option.splits)

lemma keeps_control_mysql_connect: "keeps_control (mysql_connect h u p d)"
  by (simp add: keeps_control_def mysql_connect_def emit_def Let_def split: option.splits)

lemma keeps_control_update_setup: "keeps_control (update_setup config)"
  unfolding update_setup_def
  by (intro keeps_control_and_then keeps_control_lift keeps_control_ret
      keeps_control_credentials keeps_control_update_get_instance_ip
      keeps_control_load_password keeps_control_mysql_connect)

lemma close_all_trace: "trace (close_all w) = trace w @ [CursorClose, ConnectionClose]"
  by (simp add: close_all_def emit_def)

lemma program_after_setup:
  assumes "update_setup config (w0\<lparr>running := True\<rparr>) = (Inr t, w1)"
    and "mutation_loop t 0 (deliver_signal w1) = Some (r, c, w')"
  shows "update_mysql_program config w0
     = Some (exit_status (case r of Inl (MySQLError m) \<Rightarrow> Inr () | Inl e \<Rightarrow> Inl e
                            | Inr u \<Rightarrow> Inr u), c, close_all w')"
  using assms by (simp add: update_mysql_program_def update_mysql_main_def mutation_phase_def)

text \<open>
  Claim C8. The signal handler clears the running flag, and a loop entered with the flag
  cleared performs no mutation step and leaves the world as it is. For the driver as
  a whole: when its start-up succeeds, the table exists, no statement fails and the
  first signal arrives during step \<open>n\<close> (the start-up or an iteration), the iteration in
  progress completes and is the last one, so exactly as many mutation steps are performed
  as iterations had begun; then cursor and connection are closed, nothing else is
  done, and the process exits with status 0.
\<close>

theorem graceful_stop:
  "running (signal_handler w) = False
   \<and> (\<not> running w \<longrightarrow> mutation_loop t c w = Some (Inr (), c, w))
   \<and> (update_setup config (w0\<lparr>running := True\<rparr>) = (Inr t, w1)
        \<and> table_rows w1 t = Some rows \<and> (\<forall>k. fault_env w0 k = None)
        \<and> step w0 \<le> n \<and> signal_env w0 n \<and> (\<forall>m. step w0 \<le> m \<and> m < n \<longrightarrow> \<not> signal_env w0 m)
      \<longrightarrow> (\<exists>c' w'. update_mysql_program config w0 = Some (0, c', close_all w')
             \<and> \<not> running w' \<and> step w' = Suc n
             \<and> mutation_steps (trace w') = mutation_steps (trace w1) + (n - step w0)
             \<and> trace (close_all w') = trace w' @ [CursorClose, ConnectionClose]))"
proof (intro conjI impI)
  show "running (signal_handler w) = False"
    by (simp add: signal_handler_def)
next
  assume "\<not> running w"
  then show "mutation_loop t c w = Some (Inr (), c, w)"
    by (rule mutation_loop_stopped)
next
  assume a: "update_setup config (w0\<lparr>running := True\<rparr>) = (Inr t, w1)
        \<and> table_rows w1 t = Some rows \<and> (\<forall>k. fault_env w0 k = None)
        \<and> step w0 \<le> n \<and> signal_env w0 n \<and> (\<forall>m. step w0 \<le> m \<and> m < n \<longrightarrow> \<not> signal_env w0 m)"
  then have su: "update_setup config (w0\<lparr>running := True\<rparr>) = (Inr t, w1)"
    and rows: "table_rows w1 t = Some rows" and nofault: "\<forall>k. fault_env w0 k = None"
    and n: "step w0 \<le> n" "signal_env w0 n" "\<forall>m. step w0 \<le> m \<and> m < n \<longrightarrow> \<not> signal_env w0 m"
    by blast+
  have w1: "running w1" "signal_env w1 = signal_env w0" "step w1 = step w0"
    "fault_env w1 = fault_env w0"
    using keeps_control_update_setup [of config, unfolded keeps_control_def,
        THEN spec, of "w0\<lparr>running := True\<rparr>"] su
    by simp_all
  let ?w2 = "deliver_signal w1"
  have w2: "step ?w2 = Suc (step w0)" "fault_env ?w2 = fault_env w0"
    "signal_env ?w2 = signal_env w0" "trace ?w2 = trace w1"
    "running ?w2 = (\<not> signal_env w0 (step w0))"
    using w1 by (simp_all add: deliver_signal_def signal_handler_def)
  have rows2: "table_rows ?w2 t = Some rows"
    using rows table_rows_cong [of ?w2 w1 t] by (simp add: deliver_signal_def signal_handler_def)
  have "\<exists>c' w'. mutation_loop t 0 ?w2 = Some (Inr (), c', w') \<and> \<not> running w' \<and> step w' = Suc n
      \<and> mutation_steps (trace w') = mutation_steps (trace w1) + (n - step w0)"
  proof (cases "step w0 = n")
    case True
    then have off: "\<not> running ?w2"
      using w2(5) n(2) by simp
    then have "mutation_loop t 0 ?w2 = Some (Inr (), 0, ?w2)"
      by (rule mutation_loop_stopped)
    moreover have "step ?w2 = Suc n"
      using w2(1) True by simp
    moreover have "mutation_steps (trace ?w2) = mutation_steps (trace w1) + (n - step w0)"
      using w2(4) True by simp
    ultimately show ?thesis
      using off by (intro exI [of _ 0] exI [of _ ?w2] conjI)
  next
    case False
    then have lt: "step w0 < n"
      using n(1) by simp
    have "\<exists>c' w'. mutation_loop t 0 ?w2 = Some (Inr (), c', w') \<and> \<not> running w'
        \<and> step w' = Suc n
        \<and> mutation_steps (trace w') = mutation_steps (trace ?w2) + (Suc n - step ?w2)"
    proof (rule mutation_loop_stops)
      show "\<forall>k. fault_env ?w2 k = None"
        using nofault w2(2) by simp
      show "table_rows ?w2 t = Some rows"
        by (rule rows2)
      show "running ?w2"
        using w2(5) n(3) lt by simp
      show "step ?w2 \<le> n"
        using w2(1) lt by simp
      show "signal_env ?w2 n"
        using w2(3) n(2) by simp
      show "\<forall>m. step ?w2 \<le> m \<and> m < n \<longrightarrow> \<not> signal_env ?w2 m"
        using w2(1,3) n(3) by simp
    qed
    then obtain c' w' where "mutation_loop t 0 ?w2 = Some (Inr (), c', w')" "\<not> running w'"
      "step w' = Suc n"
      "mutation_steps (trace w') = mutation_steps (trace ?w2) + (Suc n - step ?w2)"
      by blast
    moreover from this(4) have "mutation_steps (trace w') = mutation_steps (trace w1) + (n - step w0)"
      using w2(1,4) by simp
    ultimately show ?thesis
      by (intro exI [of _ c'] exI [of _ w'] conjI)
  qed
  then obtain c' w' where loop: "mutation_loop t 0 ?w2 = Some (Inr (), c', w')"
    and stop: "\<not> running w'" "step w' = Suc n"
      "mutation_steps (trace w') = mutation_steps (trace w1) + (n - step w0)"
    by blast
  have "update_mysql_program config w0 = Some (0, c', close_all w')"
    using program_after_setup [OF su loop] by (simp add: exit_status_def)
  moreover have "trace (close_all w') = trace w' @ [CursorClose, ConnectionClose]"
    by (rule close_all_trace)
  ultimately show "\<exists>c' w'. update_mysql_program config w0 = Some (0, c', close_all w')
             \<and> \<not> running w' \<and> step w' = Suc n
             \<and> mutation_steps (trace w') = mutation_steps (trace w1) + (n - step w0)
             \<and> trace (close_all w') = trace w' @ [CursorClose, ConnectionClose]"
    using stop by (intro exI [of _ c'] exI [of _ w'] conjI)
qed

lemma demo_driver_sel:
  "clock demo_driver = 0" "trace demo_driver = []" "drawn demo_driver = 0"
  "gcloud_env demo_driver = demo_gcloud"
  "files demo_driver = [password_file \<mapsto> ''Pw5_FMT07%+elszGNU18^-fm'']"
  "home demo_driver = ''/home/demo''" "environ demo_driver = Map.empty"
  "connect_env demo_driver = (\<lambda>n. None)" "connects demo_driver = 0"
  "fault_env demo_driver = (\<lambda>n. None)" "statements demo_driver = 0"
  "server demo_driver = [''shop'' \<mapsto> [''items'' \<mapsto> demo_rows]]"
  "current_db demo_driver = None" "signal_env demo_driver = (\<lambda>n. False)"
  "step demo_driver = 0"
  by (simp_all add: demo_driver_def demo_world_sel)

lemma demo_config_get:
  "cfg_get demo_config ''gcp'' ''service_account_path'' = Inr ''~/sa.json''"
  "cfg_get demo_config ''gcp'' ''project_id'' = Inr ''proj''"
  "cfg_get demo_config ''mysql'' ''instance_name'' = Inr ''db1''"
  "cfg_get demo_config ''mysql'' ''db_name'' = Inr ''shop''"
  "cfg_get demo_config ''mysql'' ''table_name'' = Inr ''items''"
  "cfg_get demo_config ''mysql'' ''root_user'' = Inr ''root''"
  by (simp_all add: cfg_get_def demo_config_def)

lemma demo_setup:
  assumes "clock w = 0" and "trace w = []" and "gcloud_env w = demo_gcloud"
    and "files w = [password_file \<mapsto> ''Pw5_FMT07%+elszGNU18^-fm'']"
    and "connect_env w = (\<lambda>n. None)" and "connects w = 0"
    and "server w = [''shop'' \<mapsto> [''items'' \<mapsto> demo_rows]]"
  shows "update_setup demo_config (w\<lparr>running := True\<rparr>) = (Inr ''items'', demo_connected w)"
proof -
  let ?w = "w\<lparr>running := True\<rparr>"
  have nosa: "files ?w (expanduser ''~/sa.json'' ?w) = None"
    using assms(4) by (simp add: expanduser_def password_file_def)
  have cred: "activate_credentials (expanduser ''~/sa.json'' ?w) ?w = ?w"
    using nosa by (simp add: activate_credentials_def)
  have ip: "update_get_instance_ip ''proj'' ''db1'' ?w
      = (Inr ''203.0.113.7'',
         ?w\<lparr>clock := 2,
           trace := [Gcloud (describe_args ''proj'' ''db1'' ''value(ipAddresses[0].ipAddress)'')]\<rparr>)"
    using assms(1,2,3)
    by (simp add: update_get_instance_ip_def Let_def demo_gcloud_def describe_args_def emit_def
        strip_def isspace_def)
  let ?w1 = "?w\<lparr>clock := 2,
           trace := [Gcloud (describe_args ''proj'' ''db1'' ''value(ipAddresses[0].ipAddress)'')]\<rparr>"
  have pw: "load_password ?w1 = (Inr ''Pw5_FMT07%+elszGNU18^-fm'', ?w1)"
    using assms(4) by (simp add: load_password_def strip_def isspace_def)
  have conn: "mysql_connect ''203.0.113.7'' ''root'' ''Pw5_FMT07%+elszGNU18^-fm'' (Some ''shop'') ?w1
      = (Inr (), demo_connected w)"
    using assms(5,6,7) by (simp add: mysql_connect_def Let_def emit_def demo_connected_def)
  show ?thesis
    unfolding update_setup_def
    by (simp add: and_then_def lift_def ret_def demo_config_get cred ip pw conn)
qed

lemma demo_connected_sel:
  "fault_env (demo_connected w) = fault_env w" "signal_env (demo_connected w) = signal_env w"
  "step (demo_connected w) = step w" "running (demo_connected w) = True"
  "current_db (demo_connected w) = Some ''shop''" "server (demo_connected w) = server w"
  "statements (demo_connected w) = statements w" "drawn (demo_connected w) = drawn w"
  "entropy (demo_connected w) = entropy w"
  "trace (demo_connected w)
     = [Gcloud (describe_args ''proj'' ''db1'' ''value(ipAddresses[0].ipAddress)''),
        Connect ''203.0.113.7'' ''root'' ''Pw5_FMT07%+elszGNU18^-fm'' (Some ''shop'')]"
  by (simp_all add: demo_connected_def)

text \<open>
  The theorem at work: the signal arrives during the first iteration, which is then the
  only one.
\<close>

theorem graceful_stop_witness:
  "\<exists>c' w'. update_mysql_program demo_config (demo_driver\<lparr>signal_env := (\<lambda>k. k = 1)\<rparr>)
              = Some (0, c', close_all w')
     \<and> \<not> running w' \<and> step w' = 2 \<and> mutation_steps (trace w') = 1
     \<and> trace (close_all w') = trace w' @ [CursorClose, ConnectionClose]"
proof -
  let ?w0 = "demo_driver\<lparr>signal_env := (\<lambda>k. k = 1)\<rparr>"
  have su: "update_setup demo_config (?w0\<lparr>running := True\<rparr>) = (Inr ''items'', demo_connected ?w0)"
    by (rule demo_setup) (simp_all add: demo_driver_sel)
  have rows: "table_rows (demo_connected ?w0) ''items'' = Some demo_rows"
    by (simp add: table_rows_def demo_connected_sel demo_driver_sel)
  have hyp: "update_setup demo_config (?w0\<lparr>running := True\<rparr>) = (Inr ''items'', demo_connected ?w0)
        \<and> table_rows (demo_connected ?w0) ''items'' = Some demo_rows
        \<and> (\<forall>k. fault_env ?w0 k = None)
        \<and> step ?w0 \<le> 1 \<and> signal_env ?w0 1
        \<and> (\<forall>m. step ?w0 \<le> m \<and> m < 1 \<longrightarrow> \<not> signal_env ?w0 m)"
    using su rows by (simp add: demo_driver_sel)
  have steps: "mutation_steps (trace (demo_connected ?w0)) = 0"
    by (simp add: demo_connected_sel mutation_steps_def)
  from graceful_stop [where t = "''items''" and config = demo_config and ?w0.0 = ?w0
      and ?w1.0 = "demo_connected ?w0" and rows = demo_rows and n = 1,
      THEN conjunct2, THEN conjunct2, THEN mp, OF hyp]
  obtain c' w' where r:
    "update_mysql_program demo_config ?w0 = Some (0, c', close_all w')"
    "\<not> running w'" "step w' = Suc 1"
    "mutation_steps (trace w') = mutation_steps (trace (demo_connected ?w0)) + (1 - step ?w0)"
    "trace (close_all w') = trace w' @ [CursorClose, ConnectionClose]"
    by blast
  have "step w' = 2" "mutation_steps (trace w') = 1"
    using r(3,4) steps by (simp_all add: demo_driver_sel)
  then show ?thesis
    using r(1,2,5) by (intro exI [of _ c'] exI [of _ w'] conjI)
qed






section \<open>Missing settings\<close>

lemma cfg_get_KeyError: "cfg_get config s k = Inl e \<Longrightarrow> \<exists>x. e = KeyError x"
  by (auto simp: cfg_get_def split: option.splits)

lemma exit_status_Inl: "exit_status (Inl e) = exc_status e"
  by (simp add: exit_status_def exc_status_def split: exc.splits)

subsection \<open>Failing when a key is missing\<close>

lemma needs_here: "needs config (s, k) (and_then (lift (cfg_get config s k)) f)"
  by (auto simp: needs_def missing_def and_then_def lift_def split: sum.splits)

lemma needs_inside: "needs config k m \<Longrightarrow> needs config k (and_then m f)"
proof -
  assume m: "needs config k m"
  have "\<exists>e. fst (and_then m f w) = Inl e" if "missing config k" for w
  proof -
    from m that obtain e where "fst (m w) = Inl e"
      unfolding needs_def by blast
    then have "fst (and_then m f w) = Inl e"
      by (cases "m w") (simp add: and_then_def)
    then show ?thesis ..
  qed
  then show ?thesis
    by (simp add: needs_def)
qed

lemma needs_later:
  assumes "\<And>x. needs config k (f x)"
  shows "needs config k (and_then m f)"
proof -
  have "\<exists>e. fst (and_then m f w) = Inl e" if miss: "missing config k" for w
  proof (cases "m w")
    case (Pair r w1)
    show ?thesis
    proof (cases r)
      case (Inl e)
      then have "fst (and_then m f w) = Inl e"
        using Pair by (simp add: and_then_def)
      then show ?thesis ..
    next
      case (Inr x)
      from assms [of x] miss obtain e where "fst (f x w1) = Inl e"
        unfolding needs_def by blast
      then have "fst (and_then m f w) = Inl e"
        using Pair Inr by (simp add: and_then_def)
      then show ?thesis ..
    qed
  qed
  then show ?thesis
    by (simp add: needs_def)
qed

lemma needs_create_mysql_instance:
  "k \<in> set [(''gcp'', ''region''), (''mysql'', ''instance_name''), (''mysql'', ''tier''),
            (''mysql'', ''version'')]
   \<Longrightarrow> needs config k (create_mysql_instance config password)"
  unfolding create_mysql_instance_def
  by (auto; (rule needs_here | rule needs_later)+)

lemma needs_create_database_and_table:
  "k \<in> set [(''mysql'', ''db_name''), (''mysql'', ''table_name'')]
   \<Longrightarrow> needs config k (create_database_and_table host user password config)"
  unfolding create_database_and_table_def
  by (auto; (rule needs_here | rule needs_later)+)

lemma needs_init_mysql_main:
  assumes "k \<in> set (keys_read InitMysql)"
  shows "needs config k (init_mysql_main config)"
proof -
  have a: "needs config (''gcp'', ''service_account_path'') (init_mysql_main config)"
    unfolding init_mysql_main_def by (rule needs_here)
  have b: "needs config (''gcp'', ''project_id'') (init_mysql_main config)"
    unfolding init_mysql_main_def by (rule needs_here | rule needs_later)+
  have c: "needs config k' (init_mysql_main config)"
    if "k' \<in> set [(''gcp'', ''region''), (''mysql'', ''instance_name''), (''mysql'', ''tier''),
            (''mysql'', ''version'')]" for k'
    unfolding init_mysql_main_def
    by ((rule needs_inside, rule needs_create_mysql_instance [OF that]) | rule needs_later)+
  have d: "needs config (''mysql'', ''root_user'') (init_mysql_main config)"
    unfolding init_mysql_main_def by (rule needs_here | rule needs_later)+
  have e: "needs config k' (init_mysql_main config)"
    if "k' \<in> set [(''mysql'', ''db_name''), (''mysql'', ''table_name'')]" for k'
    unfolding init_mysql_main_def
    by ((rule needs_inside, rule needs_create_database_and_table [OF that]) | rule needs_later)+
  from assms have "k = (''gcp'', ''service_account_path'') \<or> k = (''gcp'', ''project_id'')
      \<or> k \<in> set [(''gcp'', ''region''), (''mysql'', ''instance_name''), (''mysql'', ''tier''),
            (''mysql'', ''version'')]
      \<or> k = (''mysql'', ''root_user'')
      \<or> k \<in> set [(''mysql'', ''db_name''), (''mysql'', ''table_name'')]"
    by simp
  then show ?thesis
    using a b c d e by blast
qed

lemma needs_update_setup:
  "k \<in> set (keys_read UpdateMysql) \<Longrightarrow> needs config k (update_setup config)"
  unfolding update_setup_def
  by (auto; (rule needs_here | rule needs_later)+)

subsection \<open>Raising only what ends the process with status 1\<close>

lemma ends_1_I:
  assumes "\<And>w e w'. m w = (Inl e, w') \<Longrightarrow> exc_status e = 1"
  shows "ends_1 m"
proof -
  have "case fst (m w) of Inl e \<Rightarrow> exc_status e = 1 | Inr x \<Rightarrow> True" for w
    using assms [of w] by (cases "m w") (auto split: sum.splits)
  then show ?thesis
    by (simp add: ends_1_def)
qed

lemma ends_1_D: "ends_1 m \<Longrightarrow> m w = (Inl e, w') \<Longrightarrow> exc_status e = 1"
proof -
  assume m: "ends_1 m" and r: "m w = (Inl e, w')"
  from m have "case fst (m w) of Inl e \<Rightarrow> exc_status e = 1 | Inr x \<Rightarrow> True"
    unfolding ends_1_def by (rule spec)
  then show ?thesis
    by (simp add: r)
qed

lemma ends_1_and_then:
  assumes "ends_1 m" and "\<And>x. ends_1 (f x)"
  shows "ends_1 (and_then m f)"
proof (rule ends_1_I)
  fix w e w'
  assume r: "and_then m f w = (Inl e, w')"
  show "exc_status e = 1"
  proof (cases "m w")
    case (Pair r1 w1)
    show ?thesis
    proof (cases r1)
      case (Inl e1)
      then have "m w = (Inl e, w')"
        using r Pair by (simp add: and_then_def)
      with assms(1) show ?thesis
        by (rule ends_1_D)
    next
      case (Inr x)
      then have "f x w1 = (Inl e, w')"
        using r Pair by (simp add: and_then_def)
      with assms(2) show ?thesis
        by (rule ends_1_D)
    qed
  qed
qed

lemma ends_1_cfg_get: "ends_1 (lift (cfg_get config s k))"
  by (rule ends_1_I) (auto simp: lift_def exc_status_def dest: cfg_get_KeyError)

lemma ends_1_ret: "ends_1 (ret x)"
  by (rule ends_1_I) (simp add: ret_def)

lemma ends_1_pure: "ends_1 (\<lambda>w. (Inr x, g w))"
  by (rule ends_1_I) simp

lemma ends_1_if: "ends_1 a \<Longrightarrow> ends_1 b \<Longrightarrow> ends_1 (if c then a else b)"
  by simp

lemma ends_1_run_gcloud: "ends_1 (run_gcloud args check)"
  by (rule ends_1_I) (auto simp: run_gcloud_def Let_def exc_status_def split: if_splits)

lemma ends_1_check_instance_exists: "ends_1 (check_instance_exists p i)"
  unfolding check_instance_exists_def
  by (intro ends_1_and_then ends_1_run_gcloud ends_1_ret)

lemma ends_1_get_instance_ip: "ends_1 (get_instance_ip p i)"
  unfolding get_instance_ip_def
  by (intro ends_1_and_then ends_1_run_gcloud ends_1_ret)

lemma wait_loop_raises:
  "wait_loop p i start max_wait w = (Inl e, w') \<Longrightarrow> exc_status e = 1"
proof (induction p i start max_wait w rule: wait_loop.induct)
  case (1 p i start max_wait w)
  show ?case
  proof (cases "clock w - start < max_wait")
    case False
    then show ?thesis
      using "1.prems" by (auto simp: wait_loop_timeout exc_status_def)
  next
    case True
    let ?args = "describe_args p i ''value(state)''"
    show ?thesis
    proof (cases "observed_runnable (gcloud_env w ?args) (clock w)")
      case ready: True
      then show ?thesis
        using "1.prems" wait_loop_ready [OF True ready] by simp
    next
      case notyet: False
      let ?w0 = "w\<lparr>clock := clock w + of_nat (duration (gcloud_env w ?args (clock w))),
          trace := trace w @ [Gcloud ?args]\<rparr>"
      have rg: "(Inr (gcloud_env w ?args (clock w)), ?w0) = run_gcloud ?args False w"
        by (simp add: run_gcloud_nocheck)
      have ns: "strip (stdout (gcloud_env w ?args (clock w))) \<noteq> ''RUNNABLE''"
        using notyet by (simp add: observed_runnable_def)
      have "wait_loop p i start max_wait w = wait_loop p i start max_wait (sleep 10 ?w0)"
        using wait_loop_again [OF True notyet] by (simp add: sleep_def emit_def)
      then have "wait_loop p i start max_wait (sleep 10 ?w0) = (Inl e, w')"
        using "1.prems" by simp
      then show ?thesis
        by (rule "1.IH" [OF True rg refl refl ns])
    qed
  qed
qed

lemma ends_1_wait_for_instance_ready: "ends_1 (wait_for_instance_ready p i max_wait)"
  by (rule ends_1_I) (auto simp: wait_for_instance_ready_def dest: wait_loop_raises)

lemma ends_1_create_mysql_instance: "ends_1 (create_mysql_instance config password)"
  unfolding create_mysql_instance_def
  by (intro ends_1_and_then ends_1_cfg_get ends_1_check_instance_exists ends_1_if
      ends_1_run_gcloud ends_1_ret ends_1_wait_for_instance_ready ends_1_pure
      ends_1_get_instance_ip)

lemma sql_effect_raises: "sql_effect s w = (Inl e, w') \<Longrightarrow> exc_status e = 1"
  by (cases s) (auto simp: exc_status_def no_such_table_def split: option.splits if_splits)

lemma ends_1_execute: "ends_1 (execute s)"
  by (rule ends_1_I)
    (auto simp: execute_def Let_def exc_status_def dest: sql_effect_raises split: option.splits)

lemma ends_1_commit: "ends_1 commit"
  by (rule ends_1_I) (auto simp: commit_def Let_def exc_status_def split: option.splits)

lemma insert_samples_raises:
  "insert_samples t ids w = (Inl e, w') \<Longrightarrow> exc_status e = 1"
proof (induction ids arbitrary: w)
  case Nil
  then show ?case by simp
next
  case (Cons i ids)
  let ?w1 = "w\<lparr>drawn := drawn w + 1\<rparr>"
  let ?s = "InsertItem t i (descriptions ! nat (i - 1))
      (py_round2 (uniform 10 500 (entropy w (drawn w))))"
  show ?case
  proof (cases "execute ?s ?w1")
    case (Pair r w2)
    show ?thesis
    proof (cases r)
      case (Inl e2)
      then have "execute ?s ?w1 = (Inl e, w')"
        using Cons.prems Pair by (simp add: random_uniform_def draw_def Let_def)
      with ends_1_execute show ?thesis
        by (rule ends_1_D)
    next
      case (Inr x)
      then have "insert_samples t ids w2 = (Inl e, w')"
        using Cons.prems Pair by (simp add: random_uniform_def draw_def Let_def)
      then show ?thesis
        by (rule Cons.IH)
    qed
  qed
qed

lemma ends_1_insert_samples: "ends_1 (insert_samples t ids)"
  by (rule ends_1_I) (rule insert_samples_raises)

lemma ends_1_seed_table: "ends_1 (seed_table t)"
  unfolding seed_table_def
  by (intro ends_1_and_then ends_1_execute ends_1_if ends_1_ret ends_1_insert_samples
      ends_1_commit)

lemma mysql_connect_raises:
  "mysql_connect h u p d w = (Inl e, w') \<Longrightarrow> \<exists>m. e = MySQLError m"
  by (auto simp: mysql_connect_def Let_def split: option.splits if_splits)

lemma connect_retry_raises:
  "connect_retry h u p a w = (Inl e, w') \<Longrightarrow> exc_status e = 1"
proof (induction h u p a w rule: connect_retry.induct)
  case (1 h u p a w)
  show ?case
  proof (cases "a < max_retries")
    case False
    then show ?thesis
      using "1.prems" by (subst (asm) connect_retry.simps) (auto simp: exc_status_def)
  next
    case True
    show ?thesis
    proof (cases "mysql_connect h u p None w")
      case (Pair r w1)
      show ?thesis
      proof (cases r)
        case (Inr x)
        then show ?thesis
          using "1.prems" True Pair by (subst (asm) connect_retry.simps) simp
      next
        case (Inl e1)
        then obtain m where m: "e1 = MySQLError m"
          using Pair mysql_connect_raises by blast
        show ?thesis
        proof (cases "a < max_retries - 1")
          case False
          then show ?thesis
            using "1.prems" True Pair Inl m
            by (subst (asm) connect_retry.simps) (auto simp: exc_status_def)
        next
          case again: True
          have "connect_retry h u p (a + 1) (sleep retry_delay w1) = (Inl e, w')"
            using "1.prems" True Pair Inl m again
            by (subst (asm) connect_retry.simps) simp
          then show ?thesis
            using "1.IH" [OF True Pair [symmetric] _ _ again] Inl m by simp
        qed
      qed
    qed
  qed
qed

lemma ends_1_connect_retry: "ends_1 (connect_retry h u p a)"
  by (rule ends_1_I) (rule connect_retry_raises)

lemma ends_1_try_finally: "ends_1 m \<Longrightarrow> ends_1 (try_finally m cleanup)"
proof (rule ends_1_I)
  fix w e w'
  assume m: "ends_1 m" and r: "try_finally m cleanup w = (Inl e, w')"
  then have "m w = (Inl e, snd (m w))"
    by (cases "m w") (simp add: try_finally_def)
  with m show "exc_status e = 1"
    by (rule ends_1_D)
qed

lemma ends_1_create_database_and_table:
  "ends_1 (create_database_and_table host user password config)"
  unfolding create_database_and_table_def
  by (intro ends_1_and_then ends_1_cfg_get ends_1_connect_retry ends_1_try_finally
      ends_1_execute ends_1_seed_table ends_1_ret)

lemma ends_1_generate_password_io: "ends_1 (generate_password_io len)"
  by (rule ends_1_I) (simp add: generate_password_io_def)

lemma ends_1_init_mysql_main: "ends_1 (init_mysql_main config)"
  unfolding init_mysql_main_def
  by (intro ends_1_and_then ends_1_cfg_get ends_1_pure ends_1_run_gcloud
      ends_1_generate_password_io ends_1_create_mysql_instance
      ends_1_create_database_and_table ends_1_ret)

lemma ends_1_update_setup: "ends_1 (update_setup config)"
proof -
  have ip: "ends_1 (update_get_instance_ip p i)" for p i
    by (rule ends_1_I)
      (auto simp: update_get_instance_ip_def Let_def exc_status_def split: if_splits)
  have pw: "ends_1 load_password"
    by (rule ends_1_I) (auto simp: load_password_def exc_status_def split: option.splits)
  have conn: "ends_1 (mysql_connect h u p d)" for h u p d
    by (rule ends_1_I) (auto simp: exc_status_def dest: mysql_connect_raises)
  show ?thesis
    unfolding update_setup_def
    by (intro ends_1_and_then ends_1_cfg_get ends_1_pure ip pw conn ends_1_ret)
qed

subsection \<open>Failing before any call\<close>

lemma quiet_cfg_get: "quiet (lift (cfg_get config s k))"
  by (auto simp: quiet_def lift_def dest: cfg_get_KeyError split: sum.splits exc.splits)

lemma quiet_credentials: "quiet (\<lambda>w. (Inr (), activate_credentials (expanduser sa w) w))"
  by (simp add: quiet_def activate_credentials_def)

lemma quiet_fail_here:
  "missing config (s, k) \<Longrightarrow> quiet_fail (and_then (lift (cfg_get config s k)) f)"
  by (auto simp: quiet_fail_def missing_def and_then_def lift_def dest: cfg_get_KeyError
      split: sum.splits exc.splits)

lemma quiet_fail_later:
  assumes "quiet m" and "\<And>x. quiet_fail (f x)"
  shows "quiet_fail (and_then m f)"
proof -
  have "trace (snd (and_then m f w)) = trace w
      \<and> (case fst (and_then m f w) of Inl (KeyError x) \<Rightarrow> True | Inl e \<Rightarrow> False | Inr v \<Rightarrow> False)"
    for w
  proof (cases "m w")
    case (Pair r w1)
    from assms(1) have q: "trace (snd (m w)) = trace w
        \<and> (case fst (m w) of Inl (KeyError x) \<Rightarrow> True | Inl e \<Rightarrow> False | Inr v \<Rightarrow> True)"
      unfolding quiet_def by (rule spec)
    show ?thesis
    proof (cases r)
      case (Inl e)
      then show ?thesis
        using Pair q by (simp add: and_then_def)
    next
      case (Inr x)
      from assms(2) [of x] have "trace (snd (f x w1)) = trace w1
          \<and> (case fst (f x w1) of Inl (KeyError x) \<Rightarrow> True | Inl e \<Rightarrow> False | Inr v \<Rightarrow> False)"
        unfolding quiet_fail_def by (rule spec)
      then show ?thesis
        using Pair Inr q by (simp add: and_then_def)
    qed
  qed
  then show ?thesis
    by (simp add: quiet_fail_def)
qed

lemma quiet_fail_D:
  assumes "quiet_fail m"
  shows "\<exists>x w'. m w = (Inl (KeyError x), w') \<and> trace w' = trace w"
proof -
  from assms have q: "trace (snd (m w)) = trace w
      \<and> (case fst (m w) of Inl (KeyError x) \<Rightarrow> True | Inl e \<Rightarrow> False | Inr v \<Rightarrow> False)"
    unfolding quiet_fail_def by (rule spec)
  then obtain x where "fst (m w) = Inl (KeyError x)"
    by (auto split: sum.splits exc.splits)
  then have "m w = (Inl (KeyError x), snd (m w))"
    by (simp add: prod_eq_iff)
  with q show ?thesis
    by blast
qed

lemma quiet_fail_init_bq_main:
  assumes "k \<in> set (early_keys InitBq)" and "missing config k"
  shows "quiet_fail (init_bq_main config)"
proof -
  have "missing config (s, x) \<Longrightarrow> (s, x) \<in> set (early_keys InitBq)
      \<Longrightarrow> quiet_fail (init_bq_main config)" for s x
    unfolding init_bq_main_def
    by (auto;
        ((rule quiet_fail_here, assumption)
          | (rule quiet_fail_later, (rule quiet_cfg_get | rule quiet_credentials)))+)
  then show ?thesis
    using assms by (cases k) simp
qed

lemma quiet_fail_init_mysql_main:
  assumes "k \<in> set (early_keys InitMysql)" and "missing config k"
  shows "quiet_fail (init_mysql_main config)"
proof -
  have "missing config (s, x) \<Longrightarrow> (s, x) \<in> set (early_keys InitMysql)
      \<Longrightarrow> quiet_fail (init_mysql_main config)" for s x
    unfolding init_mysql_main_def
    by (auto;
        ((rule quiet_fail_here, assumption)
          | (rule quiet_fail_later, (rule quiet_cfg_get | rule quiet_credentials)))+)
  then show ?thesis
    using assms by (cases k) simp
qed

lemma quiet_fail_update_setup:
  assumes "k \<in> set (early_keys UpdateMysql)" and "missing config k"
  shows "quiet_fail (update_setup config)"
proof -
  have "missing config (s, x) \<Longrightarrow> (s, x) \<in> set (early_keys UpdateMysql)
      \<Longrightarrow> quiet_fail (update_setup config)" for s x
    unfolding update_setup_def
    by (auto;
        ((rule quiet_fail_here, assumption)
          | (rule quiet_fail_later, (rule quiet_cfg_get | rule quiet_credentials)))+)
  then show ?thesis
    using assms by (cases k) simp
qed

lemma needs_D:
  "needs config k m \<Longrightarrow> missing config k \<Longrightarrow> \<exists>e w'. m w = (Inl e, w')"
proof -
  assume "needs config k m" and "missing config k"
  then obtain e where "fst (m w) = Inl e"
    unfolding needs_def by blast
  then have "m w = (Inl e, snd (m w))"
    by (simp add: prod_eq_iff)
  then show ?thesis
    by blast
qed

lemma fails_with_status_1:
  assumes "needs config k m" and "ends_1 m" and "missing config k"
  shows "\<exists>e w'. m w = (Inl e, w') \<and> exit_status (Inl e :: exc + 'a) = 1"
proof -
  from needs_D [OF assms(1,3)] obtain e w' where r: "m w = (Inl e, w')"
    by blast
  with assms(2) have "exc_status e = 1"
    by (rule ends_1_D)
  with r show ?thesis
    by (auto simp: exit_status_Inl)
qed

subsection \<open>Adding to the trace of calls\<close>

lemma appends_I:
  assumes "\<And>w. \<exists>rest. trace (snd (m w)) = trace w @ rest"
  shows "appends m"
  using assms by (simp add: appends_def)

lemma appends_D: "appends m \<Longrightarrow> \<exists>rest. trace (snd (m w)) = trace w @ rest"
  unfolding appends_def by (rule spec)

lemma appends_and_then:
  assumes "appends m" and "\<And>x. appends (f x)"
  shows "appends (and_then m f)"
proof (rule appends_I)
  fix w
  from appends_D [OF assms(1), of w] obtain r1 where 1: "trace (snd (m w)) = trace w @ r1"
    by blast
  show "\<exists>rest. trace (snd (and_then m f w)) = trace w @ rest"
  proof (cases "m w")
    case (Pair r w1)
    show ?thesis
    proof (cases r)
      case (Inl e)
      then have "trace (snd (and_then m f w)) = trace w @ r1"
        using Pair 1 by (simp add: and_then_def)
      then show ?thesis ..
    next
      case (Inr x)
      from appends_D [OF assms(2), of x w1] obtain r2
        where "trace (snd (f x w1)) = trace w1 @ r2"
        by blast
      then have "trace (snd (and_then m f w)) = trace w @ (r1 @ r2)"
        using Pair Inr 1 by (simp add: and_then_def)
      then show ?thesis ..
    qed
  qed
qed

lemma appends_lift: "appends (lift r)"
  by (rule appends_I) (simp add: lift_def)

lemma appends_ret: "appends (ret x)"
  by (rule appends_I) (simp add: ret_def)

lemma appends_if: "appends a \<Longrightarrow> appends b \<Longrightarrow> appends (if c then a else b)"
  by simp

lemma appends_credentials: "appends (\<lambda>w. (Inr (), activate_credentials (expanduser sa w) w))"
  by (rule appends_I) (simp add: activate_credentials_def)

lemma appends_save_password: "appends (\<lambda>w. (Inr (), save_password password w))"
  by (rule appends_I) (simp add: save_password_def write_file_def emit_def)

lemma appends_sleep: "appends (\<lambda>w. (Inr (), sleep n w))"
  by (rule appends_I) (simp add: sleep_def emit_def)

lemma appends_generate_password_io: "appends (generate_password_io n)"
  by (rule appends_I) (simp add: generate_password_io_def)

lemma run_gcloud_trace: "trace (snd (run_gcloud args check w)) = trace w @ [Gcloud args]"
  by (simp add: run_gcloud_def emit_def Let_def)

lemma appends_run_gcloud: "appends (run_gcloud args check)"
  by (rule appends_I) (simp add: run_gcloud_trace)

lemma appends_check_instance_exists: "appends (check_instance_exists p i)"
  unfolding check_instance_exists_def
  by (intro appends_and_then appends_run_gcloud appends_ret)

lemma appends_get_instance_ip: "appends (get_instance_ip p i)"
  unfolding get_instance_ip_def
  by (intro appends_and_then appends_run_gcloud appends_ret)

lemma wait_loop_appends:
  "\<exists>rest. trace (snd (wait_loop p i start max_wait w)) = trace w @ rest"
proof (induction p i start max_wait w rule: wait_loop.induct)
  case (1 p i start max_wait w)
  show ?case
  proof (cases "clock w - start < max_wait")
    case False
    then show ?thesis
      by (simp add: wait_loop_timeout)
  next
    case True
    let ?args = "describe_args p i ''value(state)''"
    show ?thesis
    proof (cases "observed_runnable (gcloud_env w ?args) (clock w)")
      case ready: True
      show ?thesis
        unfolding wait_loop_ready [OF True ready] by simp
    next
      case notyet: False
      let ?w0 = "w\<lparr>clock := clock w + of_nat (duration (gcloud_env w ?args (clock w))),
          trace := trace w @ [Gcloud ?args]\<rparr>"
      have rg: "(Inr (gcloud_env w ?args (clock w)), ?w0) = run_gcloud ?args False w"
        by (simp add: run_gcloud_nocheck)
      have ns: "strip (stdout (gcloud_env w ?args (clock w))) \<noteq> ''RUNNABLE''"
        using notyet by (simp add: observed_runnable_def)
      have eq: "wait_loop p i start max_wait w = wait_loop p i start max_wait (sleep 10 ?w0)"
        using wait_loop_again [OF True notyet] by (simp add: sleep_def emit_def)
      from "1.IH" [OF True rg refl refl ns] obtain rest
        where "trace (snd (wait_loop p i start max_wait (sleep 10 ?w0)))
            = trace (sleep 10 ?w0) @ rest"
        by blast
      then have "trace (snd (wait_loop p i start max_wait w))
          = trace w @ ([Gcloud ?args, Sleep 10] @ rest)"
        unfolding eq by (simp add: sleep_def emit_def)
      then show ?thesis ..
    qed
  qed
qed

lemma appends_wait_for_instance_ready: "appends (wait_for_instance_ready p i max_wait)"
  by (rule appends_I) (simp add: wait_for_instance_ready_def wait_loop_appends)

lemma appends_create_mysql_instance: "appends (create_mysql_instance config password)"
  unfolding create_mysql_instance_def
  by (intro appends_and_then appends_lift appends_check_instance_exists appends_if
      appends_run_gcloud appends_ret appends_wait_for_instance_ready appends_sleep
      appends_get_instance_ip)

lemma appends_load_password: "appends load_password"
  by (rule appends_I) (simp add: load_password_def split: option.splits)

subsection \<open>Failing after the first call\<close>

lemma fails_late_here:
  "fails_late config (s, k) (and_then (lift (cfg_get config s k)) f)"
  by (auto simp: fails_late_def missing_def and_then_def lift_def split: sum.splits)

lemma fails_late_inside:
  assumes "fails_late config k m"
  shows "fails_late config k (and_then m f)"
proof -
  have "\<exists>e rest. fst (and_then m f w) = Inl e \<and> trace (snd (and_then m f w)) = trace w @ rest"
    if miss: "missing config k" for w
  proof -
    from assms miss obtain e rest where "fst (m w) = Inl e"
      and "trace (snd (m w)) = trace w @ rest"
      unfolding fails_late_def by blast
    then have "fst (and_then m f w) = Inl e \<and> trace (snd (and_then m f w)) = trace w @ rest"
      by (cases "m w") (simp add: and_then_def)
    then show ?thesis
      by (intro exI)
  qed
  then show ?thesis
    by (simp add: fails_late_def)
qed

lemma fails_late_later:
  assumes "appends m" and "\<And>x. fails_late config k (f x)"
  shows "fails_late config k (and_then m f)"
proof -
  have "\<exists>e rest. fst (and_then m f w) = Inl e \<and> trace (snd (and_then m f w)) = trace w @ rest"
    if miss: "missing config k" for w
  proof (cases "m w")
    case (Pair r w1)
    from appends_D [OF assms(1), of w] obtain r1 where 1: "trace w1 = trace w @ r1"
      using Pair by auto
    show ?thesis
    proof (cases r)
      case (Inl e)
      then have "fst (and_then m f w) = Inl e \<and> trace (snd (and_then m f w)) = trace w @ r1"
        using Pair 1 by (simp add: and_then_def)
      then show ?thesis
        by (intro exI)
    next
      case (Inr x)
      from assms(2) [of x] miss obtain e r2 where "fst (f x w1) = Inl e"
        and "trace (snd (f x w1)) = trace w1 @ r2"
        unfolding fails_late_def by blast
      then have "fst (and_then m f w) = Inl e
          \<and> trace (snd (and_then m f w)) = trace w @ (r1 @ r2)"
        using Pair Inr 1 by (simp add: and_then_def)
      then show ?thesis
        by (intro exI)
    qed
  qed
  then show ?thesis
    by (simp add: fails_late_def)
qed

lemma fails_late_D:
  assumes "fails_late config k m" and "missing config k"
  shows "\<exists>e w' rest. m w = (Inl e, w') \<and> trace w' = trace w @ rest"
proof -
  from assms obtain e rest where "fst (m w) = Inl e" and "trace (snd (m w)) = trace w @ rest"
    unfolding fails_late_def by blast
  then have "m w = (Inl e, snd (m w)) \<and> trace (snd (m w)) = trace w @ rest"
    by (simp add: prod_eq_iff)
  then show ?thesis
    by (intro exI)
qed

lemma fails_late_create_mysql_instance:
  "k \<in> set [(''gcp'', ''region''), (''mysql'', ''instance_name''), (''mysql'', ''tier''),
            (''mysql'', ''version'')]
   \<Longrightarrow> fails_late config k (create_mysql_instance config password)"
  unfolding create_mysql_instance_def
  by (auto; (rule fails_late_here | (rule fails_late_later, rule appends_lift))+)

lemma fails_late_create_database_and_table:
  "k \<in> set [(''mysql'', ''db_name''), (''mysql'', ''table_name'')]
   \<Longrightarrow> fails_late config k (create_database_and_table host user password config)"
  unfolding create_database_and_table_def
  by (auto; (rule fails_late_here | (rule fails_late_later, rule appends_lift))+)

text \<open>A call to the CLI followed by a program that fails late.\<close>

lemma run_gcloud_then_fails:
  assumes "\<And>x. fails_late config k (f x)" and "missing config k"
  shows "\<exists>e w' rest. and_then (run_gcloud args check) f w = (Inl e, w')
      \<and> trace w' = trace w @ Gcloud args # rest"
proof (cases "run_gcloud args check w")
  case (Pair r w1)
  have 1: "trace w1 = trace w @ [Gcloud args]"
    using run_gcloud_trace [of args check w] Pair by simp
  show ?thesis
  proof (cases r)
    case (Inl e)
    then have "and_then (run_gcloud args check) f w = (Inl e, w1)
        \<and> trace w1 = trace w @ Gcloud args # []"
      using Pair 1 by (simp add: and_then_def)
    then show ?thesis
      by (intro exI)
  next
    case (Inr x)
    from fails_late_D [OF assms(1) [of x] assms(2), of w1] obtain e w' rest
      where "f x w1 = (Inl e, w')" and "trace w' = trace w1 @ rest"
      by blast
    then have "and_then (run_gcloud args check) f w = (Inl e, w')
        \<and> trace w' = trace w @ Gcloud args # rest"
      using Pair Inr 1 by (simp add: and_then_def)
    then show ?thesis
      by (intro exI)
  qed
qed

lemma update_get_instance_ip_then_fails:
  assumes "\<And>x. fails_late config k (f x)" and "missing config k"
  shows "\<exists>e w' rest. and_then (update_get_instance_ip p i) f w = (Inl e, w')
      \<and> trace w' = trace w
          @ Gcloud (describe_args p i ''value(ipAddresses[0].ipAddress)'') # rest"
proof (cases "update_get_instance_ip p i w")
  case (Pair r w1)
  let ?ev = "Gcloud (describe_args p i ''value(ipAddresses[0].ipAddress)'')"
  have "trace (snd (update_get_instance_ip p i w)) = trace w @ [?ev]"
    by (simp add: update_get_instance_ip_def emit_def Let_def)
  then have 1: "trace w1 = trace w @ [?ev]"
    using Pair by simp
  show ?thesis
  proof (cases r)
    case (Inl e)
    then have "and_then (update_get_instance_ip p i) f w = (Inl e, w1)
        \<and> trace w1 = trace w @ ?ev # []"
      using Pair 1 by (simp add: and_then_def)
    then show ?thesis
      by (intro exI)
  next
    case (Inr x)
    from fails_late_D [OF assms(1) [of x] assms(2), of w1] obtain e w' rest
      where "f x w1 = (Inl e, w')" and "trace w' = trace w1 @ rest"
      by blast
    then have "and_then (update_get_instance_ip p i) f w = (Inl e, w')
        \<and> trace w' = trace w @ ?ev # rest"
      using Pair Inr 1 by (simp add: and_then_def)
    then show ?thesis
      by (intro exI)
  qed
qed

lemma and_then_lift_Inr: "and_then (lift (Inr v)) f = f v"
  by (simp add: and_then_def lift_def)

lemma and_then_credentials:
  "and_then (\<lambda>w. (Inr (), activate_credentials (expanduser sa w) w)) f w
     = f () (activate_credentials (expanduser sa w) w)"
  by (simp add: and_then_def)

lemma activate_credentials_trace: "trace (activate_credentials path w) = trace w"
  by (simp add: activate_credentials_def)

lemma init_mysql_main_late:
  assumes k: "k \<in> set (keys_read InitMysql)" "k \<notin> set (early_keys InitMysql)"
    and miss: "missing config k"
    and sa: "cfg_get config ''gcp'' ''service_account_path'' = Inr sa"
    and pid: "cfg_get config ''gcp'' ''project_id'' = Inr pid"
  shows "\<exists>e w' rest. init_mysql_main config w = (Inl e, w')
      \<and> trace w' = trace w @ Gcloud [''config'', ''set'', ''project'', pid] # rest"
proof -
  let ?rest = "\<lambda>_ :: proc.
     and_then (generate_password_io 24) (\<lambda>password.
     and_then (\<lambda>w. (Inr (), save_password password w)) (\<lambda>_.
     and_then (create_mysql_instance config password) (\<lambda>host.
     and_then (lift (cfg_get config ''mysql'' ''root_user'')) (\<lambda>user.
     and_then (create_database_and_table host user password config) (\<lambda>_.
     and_then (lift (cfg_get config ''mysql'' ''instance_name'')) (\<lambda>_.
     and_then (lift (cfg_get config ''mysql'' ''db_name'')) (\<lambda>_.
     and_then (lift (cfg_get config ''mysql'' ''table_name'')) (\<lambda>_. ret ()))))))))"
  let ?w0 = "activate_credentials (expanduser sa w) w"
  have c: "fails_late config k' (?rest x)"
    if "k' \<in> set [(''gcp'', ''region''), (''mysql'', ''instance_name''), (''mysql'', ''tier''),
            (''mysql'', ''version'')]" for k' x
    by ((rule fails_late_inside, rule fails_late_create_mysql_instance [OF that])
        | (rule fails_late_later,
            (rule appends_generate_password_io | rule appends_save_password)))+
  have d: "fails_late config (''mysql'', ''root_user'') (?rest x)" for x
    by (rule fails_late_here
        | (rule fails_late_later,
            (rule appends_generate_password_io | rule appends_save_password
              | rule appends_create_mysql_instance)))+
  have e: "fails_late config k' (?rest x)"
    if "k' \<in> set [(''mysql'', ''db_name''), (''mysql'', ''table_name'')]" for k' x
    by ((rule fails_late_inside, rule fails_late_create_database_and_table [OF that])
        | (rule fails_late_later,
            (rule appends_generate_password_io | rule appends_save_password
              | rule appends_create_mysql_instance | rule appends_lift)))+
  from k have "k \<in> set [(''gcp'', ''region''), (''mysql'', ''instance_name''),
        (''mysql'', ''tier''), (''mysql'', ''version'')]
      \<or> k = (''mysql'', ''root_user'')
      \<or> k \<in> set [(''mysql'', ''db_name''), (''mysql'', ''table_name'')]"
    by simp
  then have late: "fails_late config k (?rest x)" for x
    using c d e by blast
  have "init_mysql_main config w
      = and_then (run_gcloud [''config'', ''set'', ''project'', pid] True) ?rest ?w0"
    unfolding init_mysql_main_def sa pid and_then_lift_Inr and_then_credentials ..
  moreover from run_gcloud_then_fails [of config k ?rest "[''config'', ''set'', ''project'', pid]"
      True ?w0, OF late miss]
  obtain e w' rest
    where "and_then (run_gcloud [''config'', ''set'', ''project'', pid] True) ?rest ?w0
        = (Inl e, w')"
      and "trace w' = trace ?w0 @ Gcloud [''config'', ''set'', ''project'', pid] # rest"
    by blast
  ultimately have "init_mysql_main config w = (Inl e, w')
      \<and> trace w' = trace w @ Gcloud [''config'', ''set'', ''project'', pid] # rest"
    by (simp add: activate_credentials_trace)
  then show ?thesis
    by (intro exI)
qed

lemma update_setup_late:
  assumes k: "k \<in> set (keys_read UpdateMysql)" "k \<notin> set (early_keys UpdateMysql)"
    and miss: "missing config k"
    and sa: "cfg_get config ''gcp'' ''service_account_path'' = Inr sa"
    and pid: "cfg_get config ''gcp'' ''project_id'' = Inr pid"
    and inst: "cfg_get config ''mysql'' ''instance_name'' = Inr i"
  shows "\<exists>e w' rest. update_setup config w = (Inl e, w')
      \<and> trace w' = trace w
          @ Gcloud (describe_args pid i ''value(ipAddresses[0].ipAddress)'') # rest"
proof -
  let ?rest = "\<lambda>host.
     and_then load_password (\<lambda>password.
     and_then (lift (cfg_get config ''mysql'' ''db_name'')) (\<lambda>db_name.
     and_then (lift (cfg_get config ''mysql'' ''table_name'')) (\<lambda>table_name.
     and_then (lift (cfg_get config ''mysql'' ''root_user'')) (\<lambda>user.
     and_then (mysql_connect host user password (Some db_name)) (\<lambda>_.
     ret table_name)))))"
  let ?w0 = "activate_credentials (expanduser sa w) w"
  let ?ev = "Gcloud (describe_args pid i ''value(ipAddresses[0].ipAddress)'')"
  have "k' \<in> set [(''mysql'', ''db_name''), (''mysql'', ''table_name''),
        (''mysql'', ''root_user'')] \<Longrightarrow> fails_late config k' (?rest x)" for k' x
    by (auto;
        (rule fails_late_here
          | (rule fails_late_later, (rule appends_load_password | rule appends_lift)))+)
  moreover from k have "k \<in> set [(''mysql'', ''db_name''), (''mysql'', ''table_name''),
        (''mysql'', ''root_user'')]"
    by simp
  ultimately have late: "fails_late config k (?rest x)" for x
    by blast
  have "update_setup config w = and_then (update_get_instance_ip pid i) ?rest ?w0"
    unfolding update_setup_def sa pid inst and_then_lift_Inr and_then_credentials ..
  moreover from update_get_instance_ip_then_fails [of config k ?rest pid i ?w0, OF late miss]
  obtain e w' rest
    where "and_then (update_get_instance_ip pid i) ?rest ?w0 = (Inl e, w')"
      and "trace w' = trace ?w0 @ ?ev # rest"
    by blast
  ultimately have "update_setup config w = (Inl e, w') \<and> trace w' = trace w @ ?ev # rest"
    by (simp add: activate_credentials_trace)
  then show ?thesis
    by (intro exI)
qed

lemma demo_config_no_tier_missing: "missing demo_config_no_tier (''mysql'', ''tier'')"
  by (simp add: missing_def cfg_get_def demo_config_no_tier_def)

lemma demo_config_no_tier_run:
  "fst (init_mysql_main demo_config_no_tier demo_world) = Inl (KeyError ''tier'')"
  "take 1 (trace (snd (init_mysql_main demo_config_no_tier demo_world)))
     = [Gcloud [''config'', ''set'', ''project'', ''proj'']]"
  by (simp_all add: init_mysql_main_def create_mysql_instance_def and_then_def lift_def
      cfg_get_def demo_config_no_tier_def demo_config_def activate_credentials_def
      expanduser_def run_gcloud_def demo_gcloud_def generate_password_io_def
      save_password_def write_file_def emit_def Let_def demo_world_sel)

text \<open>
  Claim C7, as the programs have it. Each program reads its settings where it uses them,
  with no validation up front. For every key a program reads (\<open>keys_read\<close>), a settings
  mapping that lacks the key makes the program end with exit status 1, in every world.
  For the keys it reads before its first CLI or network call (\<open>early_keys\<close>: the two
  credential and project keys everywhere, all keys of \<open>init_bq\<close>, the instance name in
  \<open>update_mysql\<close>), \<open>main\<close> raises a \<open>KeyError\<close> and the trace of calls is still the one
  the program started with. For every other key it reads, when the early keys are there,
  the program fails with its first CLI call already made: \<open>gcloud config set project\<close> in
  \<open>init_mysql\<close>, the lookup of the instance address in \<open>update_mysql\<close>.
\<close>

theorem missing_key_exit_status:
  "(k \<in> set (keys_read p) \<and> missing config k
      \<longrightarrow> (\<exists>w'. run_program p config w = Some (1, w')))
   \<and> (k \<in> set (early_keys p) \<and> missing config k
      \<longrightarrow> (\<exists>x w'. run_main p config w = Some (Inl (KeyError x), w') \<and> trace w' = trace w))
   \<and> (k \<in> set (keys_read InitMysql) \<and> k \<notin> set (early_keys InitMysql) \<and> missing config k
       \<and> cfg_get config ''gcp'' ''service_account_path'' = Inr sa
       \<and> cfg_get config ''gcp'' ''project_id'' = Inr project_id
      \<longrightarrow> (\<exists>e w' rest.
            run_main InitMysql config w = Some (Inl e, w')
            \<and> trace w' = trace w @ Gcloud [''config'', ''set'', ''project'', project_id] # rest))
   \<and> (k \<in> set (keys_read UpdateMysql) \<and> k \<notin> set (early_keys UpdateMysql)
       \<and> missing config k
       \<and> cfg_get config ''gcp'' ''service_account_path'' = Inr sa
       \<and> cfg_get config ''gcp'' ''project_id'' = Inr project_id
       \<and> cfg_get config ''mysql'' ''instance_name'' = Inr instance_name
      \<longrightarrow> (\<exists>e w' rest.
            run_main UpdateMysql config w = Some (Inl e, w')
            \<and> trace w' = trace w
                @ Gcloud (describe_args project_id instance_name
                    ''value(ipAddresses[0].ipAddress)'') # rest))"
proof (intro conjI impI)
  assume "k \<in> set (keys_read p) \<and> missing config k"
  then have k: "k \<in> set (keys_read p)" and miss: "missing config k"
    by simp_all
  show "\<exists>w'. run_program p config w = Some (1, w')"
  proof (cases p)
    case InitBq
    with k have "k \<in> set (early_keys InitBq)"
      by simp
    from quiet_fail_D [OF quiet_fail_init_bq_main [OF this miss], of w]
    obtain x w' where "init_bq_main config w = (Inl (KeyError x), w')"
      by blast
    then have "run_program p config w = Some (1, w')"
      by (simp add: InitBq run_program_def exit_status_Inl exc_status_def)
    then show ?thesis ..
  next
    case InitMysql
    with k have "needs config k (init_mysql_main config)"
      by (simp add: needs_init_mysql_main)
    from fails_with_status_1 [OF this ends_1_init_mysql_main miss, of w]
    obtain e w' where "init_mysql_main config w = (Inl e, w')"
      and "exit_status (Inl e :: exc + unit) = 1"
      by blast
    then have "run_program p config w = Some (1, w')"
      by (simp add: InitMysql run_program_def)
    then show ?thesis ..
  next
    case UpdateMysql
    with k have "needs config k (update_setup config)"
      by (simp add: needs_update_setup)
    from fails_with_status_1 [OF this ends_1_update_setup miss, of "w\<lparr>running := True\<rparr>"]
    obtain e w' where "update_setup config (w\<lparr>running := True\<rparr>) = (Inl e, w')"
      and "exit_status (Inl e :: exc + unit) = 1"
      by blast
    then have "run_program p config w = Some (1, w')"
      by (simp add: UpdateMysql run_program_def update_mysql_main_def)
    then show ?thesis ..
  qed
next
  assume "k \<in> set (early_keys p) \<and> missing config k"
  then have k: "k \<in> set (early_keys p)" and miss: "missing config k"
    by simp_all
  show "\<exists>x w'. run_main p config w = Some (Inl (KeyError x), w') \<and> trace w' = trace w"
  proof (cases p)
    case InitBq
    from quiet_fail_D [OF quiet_fail_init_bq_main [OF k [unfolded InitBq] miss], of w]
    obtain x w' where "init_bq_main config w = (Inl (KeyError x), w')" and "trace w' = trace w"
      by blast
    then have "run_main p config w = Some (Inl (KeyError x), w') \<and> trace w' = trace w"
      by (simp add: InitBq)
    then show ?thesis
      by (intro exI)
  next
    case InitMysql
    from quiet_fail_D [OF quiet_fail_init_mysql_main [OF k [unfolded InitMysql] miss], of w]
    obtain x w' where "init_mysql_main config w = (Inl (KeyError x), w')"
      and "trace w' = trace w"
      by blast
    then have "run_main p config w = Some (Inl (KeyError x), w') \<and> trace w' = trace w"
      by (simp add: InitMysql)
    then show ?thesis
      by (intro exI)
  next
    case UpdateMysql
    from quiet_fail_D [OF quiet_fail_update_setup [OF k [unfolded UpdateMysql] miss],
        of "w\<lparr>running := True\<rparr>"]
    obtain x w' where "update_setup config (w\<lparr>running := True\<rparr>) = (Inl (KeyError x), w')"
      and "trace w' = trace (w\<lparr>running := True\<rparr>)"
      by blast
    then have "run_main p config w = Some (Inl (KeyError x), w') \<and> trace w' = trace w"
      by (simp add: UpdateMysql update_mysql_main_def)
    then show ?thesis
      by (intro exI)
  qed
next
  assume a: "k \<in> set (keys_read InitMysql) \<and> k \<notin> set (early_keys InitMysql)
       \<and> missing config k
       \<and> cfg_get config ''gcp'' ''service_account_path'' = Inr sa
       \<and> cfg_get config ''gcp'' ''project_id'' = Inr project_id"
  then have k: "k \<in> set (keys_read InitMysql)" "k \<notin> set (early_keys InitMysql)"
    and miss: "missing config k"
    and sa: "cfg_get config ''gcp'' ''service_account_path'' = Inr sa"
    and pid: "cfg_get config ''gcp'' ''project_id'' = Inr project_id"
    by blast+
  from init_mysql_main_late [OF k miss sa pid, of w] obtain e w' rest
    where "init_mysql_main config w = (Inl e, w')"
      and "trace w' = trace w @ Gcloud [''config'', ''set'', ''project'', project_id] # rest"
    by blast
  then have "run_main InitMysql config w = Some (Inl e, w')
      \<and> trace w' = trace w @ Gcloud [''config'', ''set'', ''project'', project_id] # rest"
    by simp
  then show "\<exists>e w' rest.
      run_main InitMysql config w = Some (Inl e, w')
      \<and> trace w' = trace w @ Gcloud [''config'', ''set'', ''project'', project_id] # rest"
    by (intro exI)
next
  let ?ev = "Gcloud (describe_args project_id instance_name ''value(ipAddresses[0].ipAddress)'')"
  assume a: "k \<in> set (keys_read UpdateMysql) \<and> k \<notin> set (early_keys UpdateMysql)
       \<and> missing config k
       \<and> cfg_get config ''gcp'' ''service_account_path'' = Inr sa
       \<and> cfg_get config ''gcp'' ''project_id'' = Inr project_id
       \<and> cfg_get config ''mysql'' ''instance_name'' = Inr instance_name"
  then have k: "k \<in> set (keys_read UpdateMysql)" "k \<notin> set (early_keys UpdateMysql)"
    and miss: "missing config k"
    and sa: "cfg_get config ''gcp'' ''service_account_path'' = Inr sa"
    and pid: "cfg_get config ''gcp'' ''project_id'' = Inr project_id"
    and inst: "cfg_get config ''mysql'' ''instance_name'' = Inr instance_name"
    by blast+
  from update_setup_late [OF k miss sa pid inst, of "w\<lparr>running := True\<rparr>"] obtain e w' rest
    where "update_setup config (w\<lparr>running := True\<rparr>) = (Inl e, w')"
      and "trace w' = trace (w\<lparr>running := True\<rparr>) @ ?ev # rest"
    by blast
  then have "run_main UpdateMysql config w = Some (Inl e, w') \<and> trace w' = trace w @ ?ev # rest"
    by (simp add: update_mysql_main_def)
  then show "\<exists>e w' rest.
      run_main UpdateMysql config w = Some (Inl e, w') \<and> trace w' = trace w @ ?ev # rest"
    by (intro exI)
qed

text \<open>
  The theorem at work: the provisioner run without \<open>mysql.tier\<close> ends with status 1 and
  has run \<open>gcloud config set project proj\<close> first; the warehouse set-up run without its
  \<open>bigquery\<close> section raises a \<open>KeyError\<close> with nothing called; and the mutation driver
  run without \<open>mysql.db_name\<close> fails with the address of the instance already looked up.
\<close>

theorem missing_key_exit_status_witness:
  "(\<exists>w'. run_program InitMysql demo_config_no_tier demo_world = Some (1, w'))
   \<and> (\<exists>x w'. run_main InitBq (demo_config(''bigquery'' := None)) demo_world
                = Some (Inl (KeyError x), w')
            \<and> trace w' = trace demo_world)
   \<and> (\<exists>e w' rest. run_main InitMysql demo_config_no_tier demo_world = Some (Inl e, w')
            \<and> trace w' = trace demo_world
                @ Gcloud [''config'', ''set'', ''project'', ''proj''] # rest)
   \<and> (\<exists>e w' rest.
         run_main UpdateMysql (demo_config(''mysql'' \<mapsto> [''instance_name'' \<mapsto> ''db1'']))
           demo_world = Some (Inl e, w')
         \<and> trace w' = trace demo_world
             @ Gcloud (describe_args ''proj'' ''db1'' ''value(ipAddresses[0].ipAddress)'') # rest)"
proof -
  let ?c = "demo_config(''mysql'' \<mapsto> [''instance_name'' \<mapsto> ''db1''])"
  have 1: "(''mysql'', ''tier'') \<in> set (keys_read InitMysql)
      \<and> missing demo_config_no_tier (''mysql'', ''tier'')"
    by (simp add: demo_config_no_tier_missing)
  have 2: "(''bigquery'', ''dataset'') \<in> set (early_keys InitBq)
      \<and> missing (demo_config(''bigquery'' := None)) (''bigquery'', ''dataset'')"
    by (simp add: missing_def cfg_get_def)
  have 3: "(''mysql'', ''tier'') \<in> set (keys_read InitMysql)
      \<and> (''mysql'', ''tier'') \<notin> set (early_keys InitMysql)
      \<and> missing demo_config_no_tier (''mysql'', ''tier'')
      \<and> cfg_get demo_config_no_tier ''gcp'' ''service_account_path'' = Inr ''~/sa.json''
      \<and> cfg_get demo_config_no_tier ''gcp'' ''project_id'' = Inr ''proj''"
    by (simp add: demo_config_no_tier_missing)
      (simp add: cfg_get_def demo_config_no_tier_def demo_config_def)
  have 4: "(''mysql'', ''db_name'') \<in> set (keys_read UpdateMysql)
      \<and> (''mysql'', ''db_name'') \<notin> set (early_keys UpdateMysql)
      \<and> missing ?c (''mysql'', ''db_name'')
      \<and> cfg_get ?c ''gcp'' ''service_account_path'' = Inr ''~/sa.json''
      \<and> cfg_get ?c ''gcp'' ''project_id'' = Inr ''proj''
      \<and> cfg_get ?c ''mysql'' ''instance_name'' = Inr ''db1''"
    by (simp add: missing_def cfg_get_def demo_config_def)
  show ?thesis
    using missing_key_exit_status [where k = "(''mysql'', ''tier'')" and p = InitMysql
        and config = demo_config_no_tier and w = demo_world,
        THEN conjunct1, THEN mp, OF 1]
      missing_key_exit_status [where k = "(''bigquery'', ''dataset'')" and p = InitBq
        and config = "demo_config(''bigquery'' := None)" and w = demo_world,
        THEN conjunct2, THEN conjunct1, THEN mp, OF 2]
      missing_key_exit_status [where k = "(''mysql'', ''tier'')"
        and config = demo_config_no_tier and w = demo_world and sa = "''~/sa.json''"
        and project_id = "''proj''",
        THEN conjunct2, THEN conjunct2, THEN conjunct1, THEN mp, OF 3]
      missing_key_exit_status [where k = "(''mysql'', ''db_name'')"
        and config = ?c and w = demo_world and sa = "''~/sa.json''"
        and project_id = "''proj''" and instance_name = "''db1''",
        THEN conjunct2, THEN conjunct2, THEN conjunct2, THEN mp, OF 4]
    by (intro conjI)
qed

text \<open>
  Where the claim as first stated fails: \<open>mysql.tier\<close> is a key the provisioner reads, and
  when it is missing the provisioner has already run \<open>gcloud config set project\<close> by the
  time the \<open>KeyError\<close> is raised.
\<close>

theorem missing_key_after_cli_call_counterexample:
  "(''mysql'', ''tier'') \<in> set (keys_read InitMysql)
   \<and> missing demo_config_no_tier (''mysql'', ''tier'')
   \<and> map_option fst (run_main InitMysql demo_config_no_tier demo_world)
       = Some (Inl (KeyError ''tier''))
   \<and> map_option (take 1 \<circ> trace \<circ> snd) (run_main InitMysql demo_config_no_tier demo_world)
       = Some [Gcloud [''config'', ''set'', ''project'', ''proj'']]
   \<and> trace demo_world = []"
  using demo_config_no_tier_missing demo_config_no_tier_run
  by (simp add: demo_world_sel)

end
